(* ===== verification/Prelude.thy ===== *)
theory Prelude
  imports Main "HOL-Library.Word" "HOL-Library.Monad_Syntax"
begin

text \<open>
  Shared vocabulary of the development: the machine integer types of the kernel's C code
  (x86-64, little endian, 8 byte pointers and \<open>size_t\<close>), counting loops over
  \<open>size_t\<close> indices as total functions with an invariant rule, and the word lemmas that
  the component theories use.  The collections declared here (\<open>kdefs\<close> for the definitions
  of small accessors, \<open>word_nat\<close> for the passage from words to natural numbers) are
  extended by the components.
\<close>

unbundle bit_operations_syntax

named_theorems kdefs \<open>unfolding equations of the small accessors of the model\<close>
named_theorems word_nat \<open>equations that move word expressions to natural numbers\<close>

type_synonym u8 = "8 word"
type_synonym u16 = "16 word"
type_synonym u32 = "32 word"
type_synonym u64 = "64 word"
type_synonym addr = "64 word"

section \<open>Words as natural numbers\<close>

lemma unat_u64_lt [simp]: "unat (x :: u64) < 18446744073709551616"
  using unsigned_less [of x, where ?'a = nat] by simp

lemma word_less_unat: "(x :: 'a::len word) < y \<longleftrightarrow> unat x < unat y"
  by (simp add: word_less_nat_alt)

lemma unat_plus_one [word_nat]:
  "(i :: 'a::len word) < n \<Longrightarrow> unat (i + 1) = Suc (unat i)"
  by unat_arith

lemma word_inc_bounds:
  "(i :: 'a::len word) < n \<Longrightarrow> i + 1 \<le> n"
  "(i :: 'a::len word) < n \<Longrightarrow> i < i + 1"
  "(i :: 'a::len word) < n \<Longrightarrow> i + 1 \<le> j \<Longrightarrow> i \<le> j"
  by unat_arith+

lemma word_le_split: "(i :: 'a::len word) < n \<Longrightarrow> i \<le> j \<longleftrightarrow> j = i \<or> i + 1 \<le> j"
  by unat_arith

lemma word_less_inc: "(i :: 'a::len word) < n \<Longrightarrow> j < i + 1 \<longleftrightarrow> j \<le> i"
  by unat_arith

lemma unat_add_no_wrap [word_nat]:
  "unat (x :: u64) + unat y < 2 ^ 64 \<Longrightarrow> unat (x + y) = unat x + unat y"
  by (simp add: unat_word_ariths)

lemma unat_mult_no_wrap [word_nat]:
  "unat (x :: u64) * unat y < 2 ^ 64 \<Longrightarrow> unat (x * y) = unat x * unat y"
  by (simp add: unat_word_ariths)

lemma unat_sub_le [word_nat]:
  "(y :: 'a::len word) \<le> x \<Longrightarrow> unat (x - y) = unat x - unat y"
  by (simp add: unat_sub)

lemma of_nat_unat_u64 [simp]: "(of_nat (unat (x :: u64)) :: u64) = x"
  by simp

lemma find_map: "find P (map f xs) = map_option f (find (P \<circ> f) xs)"
  by (induction xs) simp_all

section \<open>Counting loops\<close>

text \<open>
  \<open>word_for i n f s\<close> is the loop \<open>for (; i < n; i++) s = f(i, s)\<close> over unsigned 64 bit
  indices: it compares as unsigned numbers and cannot overflow, since an index below the
  bound has a successor.
\<close>

function word_for :: "u64 \<Rightarrow> u64 \<Rightarrow> (u64 \<Rightarrow> 's \<Rightarrow> 's) \<Rightarrow> 's \<Rightarrow> 's" where
  "word_for i n f s = (if i < n then word_for (i + 1) n f (f i s) else s)"
  by pat_completeness auto
termination
  by (relation "measure (\<lambda>(i, n, f, s). unat n - unat i)")
    (auto simp: unat_plus_one word_less_nat_alt)

declare word_for.simps [simp del]

lemma word_for_stop [simp]: "\<not> i < n \<Longrightarrow> word_for i n f s = s"
  by (simp add: word_for.simps [of i n])

lemma word_for_step: "i < n \<Longrightarrow> word_for i n f s = word_for (i + 1) n f (f i s)"
  by (simp add: word_for.simps [of i n])

text \<open>The invariant rule: \<open>P j s\<close> speaks about the state before the iteration with index \<open>j\<close>.\<close>

lemma word_for_rule:
  assumes "P i s" and "i \<le> n"
    and "\<And>j t. i \<le> j \<Longrightarrow> j < n \<Longrightarrow> P j t \<Longrightarrow> P (j + 1) (f j t)"
  shows "P n (word_for i n f s)"
  using assms
proof (induction i n f s rule: word_for.induct)
  case (1 i n f s)
  show ?case
  proof (cases "i < n")
    case True
    have "P n (word_for (i + 1) n f (f i s))"
    proof (rule "1.IH" [OF True])
      show "P (i + 1) (f i s)" using "1.prems" True by simp
      show "i + 1 \<le> n" using True by (rule word_inc_bounds)
      show "P (j + 1) (f j t)" if "i + 1 \<le> j" "j < n" "P j t" for j t
        using that "1.prems"(3) word_inc_bounds(3) [OF True] by blast
    qed
    then show ?thesis using True by (simp add: word_for_step)
  next
    case False
    with "1.prems" have "i = n" by simp
    with "1.prems" show ?thesis by simp
  qed
qed

text \<open>An invariant that does not mention the index needs no bound on the range.\<close>

lemma word_for_inv:
  assumes "P s" and "\<And>j t. i \<le> j \<Longrightarrow> j < n \<Longrightarrow> P t \<Longrightarrow> P (f j t)"
  shows "P (word_for i n f s)"
proof (cases "i \<le> n")
  case True
  then show ?thesis
    using word_for_rule [where P = "\<lambda>_. P" and i = i and n = n and f = f and s = s] assms
    by blast
next
  case False
  then show ?thesis using assms(1) by simp
qed

lemma word_for_frame:
  assumes "\<And>j t. i \<le> j \<Longrightarrow> j < n \<Longrightarrow> g (f j t) = g t"
  shows "g (word_for i n f s) = g s"
  by (rule word_for_inv [where P = "\<lambda>t. g t = g s"]) (simp_all add: assms)

lemma word_for_cong:
  assumes "\<And>j t. i \<le> j \<Longrightarrow> j < n \<Longrightarrow> f j t = g j t"
  shows "word_for i n f s = word_for i n g s"
  using assms
proof (induction i n f s rule: word_for.induct)
  case (1 i n f s)
  show ?case
  proof (cases "i < n")
    case True
    have "word_for (i + 1) n f (f i s) = word_for (i + 1) n g (f i s)"
      using "1.IH" [OF True] "1.prems" word_inc_bounds(3) [OF True] by blast
    then show ?thesis using True "1.prems" by (simp add: word_for_step)
  qed simp
qed

lemma word_for_one: "i < i + 1 \<Longrightarrow> word_for i (i + 1) f s = f i s"
  by (simp add: word_for_step)

text \<open>A loop seen through a projection of its state, under an invariant.\<close>

lemma word_for_project:
  assumes "P s" and "\<And>j t. P t \<Longrightarrow> P (f j t)" and "\<And>j t. P t \<Longrightarrow> h (f j t) = g j (h t)"
  shows "h (word_for i n f s) = word_for i n g (h s)"
  using assms
proof (induction i n f s rule: word_for.induct)
  case (1 i n f s)
  then show ?case by (cases "i < n") (simp_all add: word_for_step)
qed

text \<open>The same loop around a body that may not return.\<close>

definition word_for_opt :: "u64 \<Rightarrow> u64 \<Rightarrow> (u64 \<Rightarrow> 's \<Rightarrow> 's option) \<Rightarrow> 's \<Rightarrow> 's option" where
  "word_for_opt i n f s = word_for i n (\<lambda>i so. do { s \<leftarrow> so; f i s }) (Some s)"

lemma word_for_None: "word_for i n (\<lambda>i so. do { s \<leftarrow> so; f i s }) None = None"
  by (rule word_for_inv [where P = "\<lambda>so. so = None"]) simp_all

lemma word_for_opt_step:
  "word_for_opt i n f s = (if i < n then do { s \<leftarrow> f i s; word_for_opt (i + 1) n f s } else Some s)"
  by (cases "f i s") (simp_all add: word_for_opt_def word_for_step word_for_None)

lemma word_for_opt_rule:
  assumes "P i s" and "i \<le> n"
    and "\<And>j t. i \<le> j \<Longrightarrow> j < n \<Longrightarrow> P j t \<Longrightarrow> \<exists>u. f j t = Some u \<and> P (j + 1) u"
  shows "\<exists>t. word_for_opt i n f s = Some t \<and> P n t"
proof -
  let ?P = "\<lambda>j so. \<exists>t. so = Some t \<and> P j t"
  have "?P n (word_for i n (\<lambda>i so. do { s \<leftarrow> so; f i s }) (Some s))"
    by (rule word_for_rule [where P = ?P]) (use assms in fastforce)+
  then show ?thesis by (simp add: word_for_opt_def)
qed

lemma word_for_opt_cong:
  assumes "\<And>j t. i \<le> j \<Longrightarrow> j < n \<Longrightarrow> f j t = g j t"
  shows "word_for_opt i n f s = word_for_opt i n g s"
  unfolding word_for_opt_def by (rule word_for_cong) (simp add: assms fun_eq_iff cong: bind_option_cong)

end
