(* ===== verification/Machine.thy ===== *)
theory Machine
  imports Prelude
begin

text \<open>
  The machine the kernel runs on, as far as its C code sees it: a flat, byte addressed,
  little endian physical memory (identity mapped while the kernel sets itself up), with the
  loads and stores of the C integer types, \<open>memset\<close> and \<open>memcpy\<close>.  A pointer is a
  64 bit word and every access is defined on every address, so that a read or a write one
  byte past a buffer is visible in the model instead of being unspecified.
  The second part is the page structure of addresses: the page an address lies on, aligned
  addresses, and the non-interference of accesses to different table slots.
\<close>

type_synonym memory = "addr \<Rightarrow> u8"

text \<open>What the processor sends to its I/O ports is recorded in order; \<open>io_wait\<close> is one of these events.\<close>

datatype io_event = Outb u16 u8 | Outw u16 u16 | Outl u16 u32 | Io_Wait

record machine =
  mem :: memory
  ports :: "io_event list"

section \<open>Loads and stores\<close>

fun load_bytes :: "nat \<Rightarrow> memory \<Rightarrow> addr \<Rightarrow> 'a::len word" where
  "load_bytes 0 m a = 0"
| "load_bytes (Suc n) m a = ucast (m a) OR push_bit 8 (load_bytes n m (a + 1))"

fun store_bytes :: "nat \<Rightarrow> memory \<Rightarrow> addr \<Rightarrow> 'a::len word \<Rightarrow> memory" where
  "store_bytes 0 m a v = m"
| "store_bytes (Suc n) m a v = (store_bytes n m (a + 1) (drop_bit 8 v))(a := ucast v)"

definition load16 :: "memory \<Rightarrow> addr \<Rightarrow> u16" where
  "load16 m a = load_bytes 2 m a"
definition load32 :: "memory \<Rightarrow> addr \<Rightarrow> u32" where
  "load32 m a = load_bytes 4 m a"
definition load64 :: "memory \<Rightarrow> addr \<Rightarrow> u64" where
  "load64 m a = load_bytes 8 m a"
definition store16 :: "memory \<Rightarrow> addr \<Rightarrow> u16 \<Rightarrow> memory" where
  "store16 m a v = store_bytes 2 m a v"
definition store32 :: "memory \<Rightarrow> addr \<Rightarrow> u32 \<Rightarrow> memory" where
  "store32 m a v = store_bytes 4 m a v"
definition store64 :: "memory \<Rightarrow> addr \<Rightarrow> u64 \<Rightarrow> memory" where
  "store64 m a v = store_bytes 8 m a v"

text \<open>
  A byte belongs to the region of \<open>n\<close> bytes at \<open>a\<close> iff its distance from \<open>a\<close>,
  modulo \<open>2 ^ 64\<close>, is below \<open>n\<close>.
\<close>

definition in_region :: "addr \<Rightarrow> u64 \<Rightarrow> addr \<Rightarrow> bool" where
  "in_region a n b \<longleftrightarrow> b - a < n"

definition memset :: "memory \<Rightarrow> addr \<Rightarrow> u8 \<Rightarrow> u64 \<Rightarrow> memory" where
  "memset m a v n = (\<lambda>b. if in_region a n b then v else m b)"

definition memcpy :: "memory \<Rightarrow> addr \<Rightarrow> addr \<Rightarrow> u64 \<Rightarrow> memory" where
  "memcpy m dst src n = (\<lambda>b. if in_region dst n b then m (src + (b - dst)) else m b)"

definition load_array :: "nat \<Rightarrow> memory \<Rightarrow> addr \<Rightarrow> u8 list" where
  "load_array n m a = map (\<lambda>i. m (a + of_nat i)) [0..<n]"

lemma in_region_of_nat: "in_region a n b \<longleftrightarrow> (\<exists>k<unat n. b = a + of_nat k)"
proof
  assume "in_region a n b"
  then have "unat (b - a) < unat n" "b = a + of_nat (unat (b - a))"
    by (simp_all add: in_region_def word_less_nat_alt)
  then show "\<exists>k<unat n. b = a + of_nat k" by blast
next
  assume "\<exists>k<unat n. b = a + of_nat k"
  then obtain k where k: "k < unat n" "b = a + of_nat k" by blast
  have "k < 2 ^ 64" using less_trans [OF k(1) unat_u64_lt] by simp
  then show "in_region a n b" using k by (simp add: in_region_def word_less_nat_alt unat_of_nat)
qed

text \<open>The loads on concrete memories.\<close>

lemma load16_eval: "load16 m a = ucast (m a) OR push_bit 8 (ucast (m (a + 1)))"
  by (simp add: load16_def eval_nat_numeral)

lemma load32_eval: "load32 m a = ucast (m a) OR push_bit 8 (ucast (m (a + 1)) OR
    push_bit 8 (ucast (m (a + 2)) OR push_bit 8 (ucast (m (a + 3)))))"
  by (simp add: load32_def eval_nat_numeral add.assoc)

lemma load64_eval: "load64 m a = ucast (m a) OR push_bit 8 (ucast (m (a + 1)) OR
    push_bit 8 (ucast (m (a + 2)) OR push_bit 8 (ucast (m (a + 3)) OR
    push_bit 8 (ucast (m (a + 4)) OR push_bit 8 (ucast (m (a + 5)) OR
    push_bit 8 (ucast (m (a + 6)) OR push_bit 8 (ucast (m (a + 7)))))))))"
proof -
  have *: "(8 :: nat) = Suc (Suc (Suc (Suc (Suc (Suc (Suc (Suc 0)))))))" by simp
  have "load64 m a = load_bytes (Suc (Suc (Suc (Suc (Suc (Suc (Suc (Suc 0)))))))) m a"
    by (simp only: load64_def *)
  then show ?thesis by (simp add: add.assoc)
qed

lemmas load_eval = load16_eval load32_eval load64_eval

lemma load_bytes_cong:
  "(\<And>k. k < n \<Longrightarrow> m (a + of_nat k) = m' (a + of_nat k)) \<Longrightarrow> load_bytes n m a = load_bytes n m' a"
proof (induction n arbitrary: a)
  case 0
  then show ?case by simp
next
  case (Suc n)
  have "m a = m' a" using Suc.prems [of 0] by simp
  moreover have "load_bytes n m (a + 1) = (load_bytes n m' (a + 1) :: 'a word)"
  proof (rule Suc.IH)
    fix k assume "k < n"
    then show "m (a + 1 + of_nat k) = m' (a + 1 + of_nat k)"
      using Suc.prems [of "Suc k"] by (simp add: add.assoc)
  qed
  ultimately show ?case by simp
qed

lemma store_bytes_other:
  "(\<And>k. k < n \<Longrightarrow> b \<noteq> a + of_nat k) \<Longrightarrow> store_bytes n m a v b = m b"
proof (induction n arbitrary: a v)
  case 0
  then show ?case by simp
next
  case (Suc n)
  have "b \<noteq> a" using Suc.prems [of 0] by simp
  moreover have "store_bytes n m (a + 1) (drop_bit 8 v) b = m b"
  proof (rule Suc.IH)
    fix k assume "k < n"
    then show "b \<noteq> a + 1 + of_nat k"
      using Suc.prems [of "Suc k"] by (simp add: add.assoc)
  qed
  ultimately show ?case by simp
qed

lemma of_nat_less_u64: "k < n \<Longrightarrow> n \<le> 2 ^ 64 \<Longrightarrow> unat (of_nat k :: u64) = k"
  by (simp add: unat_of_nat)

lemma load_store_bytes:
  "n \<le> 8 \<Longrightarrow> load_bytes n (store_bytes n m a v) a = take_bit (8 * n) (v :: 'a::len word)"
proof (induction n arbitrary: a v)
  case 0
  then show ?case by simp
next
  case (Suc n)
  have "load_bytes n ((store_bytes n m (a + 1) (drop_bit 8 v))(a := ucast v)) (a + 1)
      = (load_bytes n (store_bytes n m (a + 1) (drop_bit 8 v)) (a + 1) :: 'a word)"
  proof (rule load_bytes_cong)
    fix k assume "k < n"
    then have "unat (1 + of_nat k :: u64) = Suc k"
      using Suc.prems by (simp add: unat_word_ariths unat_of_nat)
    then have "1 + of_nat k \<noteq> (0 :: u64)" by (metis unat_0 nat.distinct(1))
    then have "a + 1 + of_nat k \<noteq> a" by (simp add: add.assoc)
    then show "((store_bytes n m (a + 1) (drop_bit 8 v))(a := ucast v)) (a + 1 + of_nat k)
        = store_bytes n m (a + 1) (drop_bit 8 v) (a + 1 + of_nat k)" by simp
  qed
  also have "\<dots> = take_bit (8 * n) (drop_bit 8 v)"
    using Suc by simp
  finally have eq: "load_bytes n ((store_bytes n m (a + 1) (drop_bit 8 v))(a := ucast v)) (a + 1)
      = take_bit (8 * n) (drop_bit 8 v)" .
  have "ucast (ucast v :: u8) OR push_bit 8 (take_bit (8 * n) (drop_bit 8 v)) = take_bit (8 * Suc n) v"
    by (rule bit_word_eqI) (auto simp: bit_simps)
  with eq show ?case by (simp add: fun_upd_same del: fun_upd_apply)
qed

text \<open>A word from its bytes.\<close>

lemma load_bytes_word:
  assumes "\<And>k. k < n \<Longrightarrow> m (a + of_nat k) = ucast (drop_bit (8 * k) v)"
  shows "load_bytes n m a = (take_bit (8 * n) v :: 'a::len word)"
  using assms
proof (induction n arbitrary: a v)
  case (Suc n)
  have "load_bytes n m (a + 1) = take_bit (8 * n) (drop_bit 8 v)"
  proof (rule Suc.IH)
    fix k assume "k < n"
    then show "m (a + 1 + of_nat k) = ucast (drop_bit (8 * k) (drop_bit 8 v))"
      using Suc.prems [of "Suc k"] by (simp add: add.assoc add.commute [of "8 * k"])
  qed
  moreover have "m a = ucast v" using Suc.prems [of 0] by simp
  moreover have "ucast (ucast v :: u8) OR push_bit 8 (take_bit (8 * n) (drop_bit 8 v)) = take_bit (8 * Suc n) v"
    by (rule bit_word_eqI) (auto simp: bit_simps)
  ultimately show ?case by simp
qed simp

lemma load64_store64 [simp]: "load64 (store64 m a v) a = v"
  by (simp add: load64_def store64_def load_store_bytes take_bit_word_eq_self)

lemma load32_store32 [simp]: "load32 (store32 m a v) a = v"
  by (simp add: load32_def store32_def load_store_bytes take_bit_word_eq_self)

lemma load16_store16 [simp]: "load16 (store16 m a v) a = v"
  by (simp add: load16_def store16_def load_store_bytes take_bit_word_eq_self)

text \<open>Writing back what was read changes nothing.\<close>

lemma store_load_bytes:
  "8 * n \<le> LENGTH('a::len) \<Longrightarrow> store_bytes n m a (load_bytes n m a :: 'a word) = m"
proof (induction n arbitrary: a)
  case (Suc n)
  let ?r = "load_bytes n m (a + 1) :: 'a word"
  have small: "take_bit (8 * n) ?r = ?r" for a
  proof -
    have "take_bit (8 * k) (load_bytes k m b :: 'a word) = load_bytes k m b" for k b
    proof (induction k arbitrary: b)
      case (Suc k)
      have "take_bit (8 * Suc k) (load_bytes (Suc k) m b :: 'a word)
          = ucast (m b) OR push_bit 8 (take_bit (8 * k) (load_bytes k m (b + 1)))"
        by (rule bit_word_eqI) (auto simp: bit_simps dest: bit_imp_le_length)
      then show ?case by (simp only: Suc load_bytes.simps)
    qed simp
    then show ?thesis .
  qed
  have "drop_bit 8 (ucast (m a) OR push_bit 8 ?r) = drop_bit 8 (push_bit 8 ?r)"
    by (rule bit_word_eqI) (auto simp: bit_simps dest: bit_imp_le_length)
  also have "\<dots> = take_bit (8 * n) ?r"
    unfolding small
  proof (rule bit_word_eqI)
    fix k assume "k < LENGTH('a)"
    have "k < 8 * n" if "bit ?r k" using that small by (metis bit_take_bit_iff)
    then show "bit (drop_bit 8 (push_bit 8 ?r)) k = bit ?r k"
      using Suc.prems by (auto simp: bit_simps)
  qed
  finally have "drop_bit 8 (ucast (m a) OR push_bit 8 ?r) = ?r" by (simp add: small)
  moreover have "ucast (ucast (m a) OR push_bit 8 ?r :: 'a word) = m a"
    by (rule bit_word_eqI) (use Suc.prems in \<open>auto simp: bit_simps\<close>)
  ultimately show ?case using Suc by (simp add: fun_upd_idem)
qed simp

lemma store64_load64 [simp]: "store64 m a (load64 m a) = m"
  by (simp add: store64_def load64_def store_load_bytes)

text \<open>Loads see a write only where the bytes overlap.\<close>

lemma load64_cong:
  "(\<And>k. k < 8 \<Longrightarrow> m (a + of_nat k) = m' (a + of_nat k)) \<Longrightarrow> load64 m a = load64 m' a"
  unfolding load64_def by (rule load_bytes_cong)

lemma store64_other: "(\<And>k. k < 8 \<Longrightarrow> b \<noteq> a + of_nat k) \<Longrightarrow> store64 m a v b = m b"
  unfolding store64_def by (rule store_bytes_other)

lemma load64_zero:
  assumes "\<And>k. k < 8 \<Longrightarrow> m (a + of_nat k) = 0"
  shows "load64 m a = 0"
proof -
  have "load64 m a = load64 (\<lambda>_. 0) a" by (rule load64_cong) (simp add: assms)
  also have "\<dots> = 0" by (simp add: load64_def numeral_nat)
  finally show ?thesis .
qed

section \<open>Pages\<close>

definition page_of :: "addr \<Rightarrow> u64" where
  "page_of a = drop_bit 12 a"

definition page_aligned :: "addr \<Rightarrow> bool" where
  "page_aligned a \<longleftrightarrow> take_bit 12 a = 0"

lemma page_div_add: "(t :: nat) mod 4096 = 0 \<Longrightarrow> x < 4096 \<Longrightarrow> (t + x) div 4096 = t div 4096"
  by (auto simp: mod_eq_0_iff_dvd elim!: dvdE)

lemma page_div_bounds:
  "(t :: nat) mod 4096 = 0 \<Longrightarrow> b div 4096 = t div 4096 \<Longrightarrow> t \<le> b \<and> b - t < 4096"
proof -
  assume "t mod 4096 = 0" and eq: "b div 4096 = t div 4096"
  then have "t = 4096 * (t div 4096)" by auto
  moreover have "b = 4096 * (b div 4096) + b mod 4096" by simp
  moreover have "b mod 4096 < 4096" by simp
  ultimately show ?thesis unfolding eq by linarith
qed

lemma unat_page_of: "unat (page_of a) = unat a div 4096"
  by (simp add: page_of_def unat_drop_bit_eq drop_bit_eq_div [where ?'a = nat])

lemma page_aligned_unat: "page_aligned a \<longleftrightarrow> unat a mod 4096 = 0"
proof -
  have "take_bit 12 a = 0 \<longleftrightarrow> unat (take_bit 12 a) = 0"
    by (rule unsigned_eq_0_iff [symmetric])
  also have "\<dots> \<longleftrightarrow> unat a mod 4096 = 0"
    by (simp only: unsigned_take_bit_eq take_bit_eq_mod [where ?'a = nat]) simp
  finally show ?thesis by (simp add: page_aligned_def)
qed

lemma page_offset_unat:
  assumes "page_aligned t" and "x < 4096"
  shows "unat (t + x) = unat t + unat x"
proof -
  have "unat t < 4096 * 4503599627370496" using unat_u64_lt [of t] by simp
  then have "unat t div 4096 < 4503599627370496"
    using less_mult_imp_div_less [of "unat t" 4503599627370496 4096] by (simp add: mult.commute)
  moreover have "unat t = 4096 * (unat t div 4096)"
    using assms(1) by (auto simp: page_aligned_unat)
  moreover have "unat x < 4096" using assms(2) by (simp add: word_less_nat_alt)
  ultimately have "unat t + unat x < 2 ^ 64" by simp
  then show ?thesis by (rule unat_add_no_wrap)
qed

lemma page_of_add:
  assumes "page_aligned t" and "x < 4096"
  shows "page_of (t + x) = page_of t"
proof -
  have "unat x < 4096" using assms(2) by (simp add: word_less_nat_alt)
  moreover have "unat t mod 4096 = 0" using assms(1) by (simp add: page_aligned_unat)
  ultimately have "(unat t + unat x) div 4096 = unat t div 4096"
    by (simp add: page_div_add)
  then have "unat (page_of (t + x)) = unat (page_of t)"
    by (simp add: unat_page_of page_offset_unat [OF assms])
  then show ?thesis by (simp add: word_unat_eq_iff)
qed

text \<open>An aligned address is determined by its page.\<close>

lemma page_aligned_eq: "page_aligned a \<Longrightarrow> page_aligned b \<Longrightarrow> page_of a = page_of b \<Longrightarrow> a = b"
proof -
  assume al: "page_aligned a" "page_aligned b" and "page_of a = page_of b"
  then have "unat a div 4096 = unat b div 4096" by (metis unat_page_of)
  with al have "unat a = unat b"
    unfolding page_aligned_unat by (metis mult_div_mod_eq add.right_neutral)
  then show "a = b" by (simp add: word_unat_eq_iff)
qed

lemma in_page_region: "page_aligned t \<Longrightarrow> in_region t 4096 b \<longleftrightarrow> page_of b = page_of t"
proof
  assume al: "page_aligned t" and "in_region t 4096 b"
  then have "b - t < 4096" by (simp add: in_region_def)
  with al have "page_of (t + (b - t)) = page_of t" by (rule page_of_add)
  then show "page_of b = page_of t" by simp
next
  assume al: "page_aligned t" and "page_of b = page_of t"
  then have "unat b div 4096 = unat t div 4096" by (metis unat_page_of)
  moreover have "unat t mod 4096 = 0" using al by (simp add: page_aligned_unat)
  ultimately have "unat t \<le> unat b \<and> unat b - unat t < 4096" by (rule page_div_bounds [rotated])
  then show "in_region t 4096 b"
    by (simp add: in_region_def word_less_nat_alt word_le_nat_alt unat_sub_le)
qed

section \<open>Slots of a page of 64 bit entries\<close>

text \<open>The slot \<open>i < 512\<close> of the page at \<open>t\<close>: the address of \<open>((uint64_t* )t)[i]\<close>.\<close>

definition slot :: "addr \<Rightarrow> u64 \<Rightarrow> addr" where
  "slot t i = t + 8 * i"

lemma slot_byte_unat:
  assumes "page_aligned t" and "i < 512" and "k < 8"
  shows "unat (slot t i + of_nat k) = unat t + 8 * unat i + k"
proof -
  have ui: "unat i < 512" using assms(2) by (simp add: word_less_nat_alt)
  have "unat (8 * i + of_nat k) = 8 * unat i + k"
    using ui assms(3) by (simp add: unat_word_ariths unat_of_nat)
  moreover from this have "8 * i + of_nat k < 4096"
    using ui assms(3) by (simp add: word_less_nat_alt)
  ultimately show ?thesis
    using page_offset_unat [OF assms(1), of "8 * i + of_nat k"]
    by (simp add: slot_def add.assoc)
qed

lemma slot_byte_page:
  assumes "page_aligned t" and "i < 512" and "k < 8"
  shows "page_of (slot t i + of_nat k) = page_of t"
proof -
  have "unat i < 512" using assms(2) by (simp add: word_less_nat_alt)
  moreover have "unat t mod 4096 = 0" using assms(1) by (simp add: page_aligned_unat)
  ultimately have "(unat t + 8 * unat i + k) div 4096 = unat t div 4096"
    using assms(3) page_div_add [of "unat t" "8 * unat i + k"] by (simp add: add.assoc)
  then show ?thesis
    by (simp add: word_unat_eq_iff unat_page_of slot_byte_unat [OF assms])
qed

lemma load64_slot_cong:
  assumes "page_aligned t" and "i < 512"
    and "\<And>b. page_of b = page_of t \<Longrightarrow> m b = m' b"
  shows "load64 m (slot t i) = load64 m' (slot t i)"
  using assms by (auto intro!: load64_cong simp: slot_byte_page)

lemma store64_slot_other_page:
  assumes "page_aligned t" and "i < 512" and "page_of b \<noteq> page_of t"
  shows "store64 m (slot t i) v b = m b"
  using assms slot_byte_page by (metis store64_other)

lemma load64_store64_slot:
  assumes "page_aligned t" and "page_aligned u" and "i < 512" and "j < 512"
    and "t \<noteq> u \<or> i \<noteq> j"
  shows "load64 (store64 m (slot u j) v) (slot t i) = load64 m (slot t i)"
proof (rule load64_cong, rule store64_other)
  fix k l :: nat assume k: "k < 8" and l: "l < 8"
  show "slot t i + of_nat k \<noteq> slot u j + of_nat l"
  proof
    assume eq: "slot t i + of_nat k = slot u j + of_nat l"
    have "page_of t = page_of u"
      using eq slot_byte_page [OF assms(1,3) k] slot_byte_page [OF assms(2,4) l] by metis
    then have tu: "t = u" using assms(1,2) by (simp add: page_aligned_eq)
    have "unat t + 8 * unat i + k = unat u + 8 * unat j + l"
      using eq slot_byte_unat [OF assms(1,3) k] slot_byte_unat [OF assms(2,4) l] by metis
    with tu k l have "unat i = unat j" by simp
    with tu assms(5) show False by (simp add: word_unat_eq_iff)
  qed
qed

lemma memset_page [simp]:
  "page_aligned t \<Longrightarrow> memset m t v 4096 b = (if page_of b = page_of t then v else m b)"
  by (simp add: memset_def in_page_region)

lemma load64_memset_page:
  assumes "page_aligned t" and "i < 512"
  shows "load64 (memset m t 0 4096) (slot t i) = 0"
  using assms by (auto intro!: load64_zero simp: slot_byte_page)

end
