(* ===== verification/Kernel_Macros.thy ===== *)
theory Kernel_Macros
  imports Machine
begin

text \<open>
  The macros every kernel file includes: \<^verbatim>\<open>kernel.h\<close> (\<open>ROUND_UP\<close>, \<open>SET_BIT\<close>, \<open>GET_BIT\<close>,
  \<open>KERNEL_PHYSICAL_ADDRESS\<close>) and \<^verbatim>\<open>memory/memory.h\<close> (page size, \<open>NEAREST_PAGE\<close>, the memory map
  handed over by the boot loader).  The arguments are the unsigned 64 bit values of the call
  sites; the shifted \<open>1\<close> of \<open>SET_BIT\<close> and \<open>GET_BIT\<close> is an \<open>int\<close>, so it is computed
  with 32 bits and sign extended.
\<close>

section \<open>kernel.h\<close>

definition RFLAGS :: u64 where
  "RFLAGS = 0x0202"

definition ROUND_UP :: "u64 \<Rightarrow> u64 \<Rightarrow> u64" where
  "ROUND_UP n multiple = (if n mod multiple = 0 then n else n - n mod multiple + multiple)"

text \<open>The \<open>int\<close> expression \<open>1 << bit\<close> converted to an unsigned 64 bit operand.\<close>

definition int_bit :: "nat \<Rightarrow> u64" where
  "int_bit b = signed (push_bit b (1 :: u32))"

definition SET_BIT :: "u64 \<Rightarrow> nat \<Rightarrow> bool \<Rightarrow> u64" where
  "SET_BIT n b value = n XOR ((- of_bool value) XOR n) AND int_bit b"

definition GET_BIT :: "u64 \<Rightarrow> nat \<Rightarrow> bool" where
  "GET_BIT n b = (int_bit b AND n > 0)"

definition KERNEL_PHYSICAL_ADDRESS :: "addr \<Rightarrow> addr \<Rightarrow> addr" where
  "KERNEL_PHYSICAL_ADDRESS virtual_base virtual_address = virtual_address - virtual_base"

section \<open>memory.h\<close>

definition MEMORY_PAGE_SIZE :: u64 where
  "MEMORY_PAGE_SIZE = 4096"

definition ROUND_UP_PAGE_SIZE :: "u64 \<Rightarrow> u64" where
  "ROUND_UP_PAGE_SIZE n = ROUND_UP n MEMORY_PAGE_SIZE"

definition NEAREST_PAGE :: "u64 \<Rightarrow> u64" where
  "NEAREST_PAGE n = ROUND_UP_PAGE_SIZE n div MEMORY_PAGE_SIZE"

datatype MemoryType = MEMORY_TYPE_UNUSABLE | MEMORY_TYPE_USABLE

record MemoryMapEntry =
  physical_base :: addr
  num_pages :: u64
  mtype :: MemoryType

definition MEMORY_MEMORYMAP_MAX_ENTRIES :: nat where
  "MEMORY_MEMORYMAP_MAX_ENTRIES = 256"

text \<open>
  The array \<open>entries[256]\<close> with its fill count \<open>entries_num\<close>; the model keeps the filled
  prefix, \<open>entries_num\<close> being its length.
\<close>

record MemoryMap =
  entries :: "MemoryMapEntry list"

abbreviation entries_num :: "MemoryMap \<Rightarrow> nat" where
  "entries_num mm \<equiv> length (entries mm)"

section \<open>What the macros compute\<close>

lemma bit_int_bit: "b < 31 \<Longrightarrow> bit (int_bit b) k \<longleftrightarrow> k = b"
  by (auto simp: int_bit_def bit_simps)

lemma bit_SET_BIT:
  assumes "b < 31"
  shows "bit (SET_BIT n b v) k \<longleftrightarrow> (if k = b then v else bit n k)"
  using assms by (cases v) (auto simp: SET_BIT_def bit_simps bit_int_bit dest: bit_imp_le_length)

lemma GET_BIT_bit:
  assumes "b < 31"
  shows "GET_BIT n b \<longleftrightarrow> bit n b"
proof -
  have "int_bit b AND n = (if bit n b then int_bit b else 0)"
    by (rule bit_word_eqI) (auto simp: bit_and_iff bit_int_bit assms)
  moreover have "int_bit b \<noteq> 0"
    using bit_int_bit [OF assms, of b] by auto
  ultimately show ?thesis by (simp add: GET_BIT_def word_greater_zero_iff)
qed

lemma GET_BIT_SET_BIT: "b < 31 \<Longrightarrow> c < 31 \<Longrightarrow> GET_BIT (SET_BIT n b v) c \<longleftrightarrow> (if b = c then v else GET_BIT n c)"
  by (simp add: GET_BIT_bit bit_SET_BIT)

lemma ROUND_UP_unat:
  assumes "0 < m" and "unat n + unat m \<le> 2 ^ 64"
  shows "unat (ROUND_UP n m) = (unat n + unat m - 1) div unat m * unat m"
proof -
  let ?n = "unat n" and ?m = "unat m"
  have m0: "0 < ?m" using assms(1) by (simp add: word_less_nat_alt)
  have modw: "unat (n mod m) = ?n mod ?m" by (simp add: unat_mod)
  have decomp: "?n = ?n div ?m * ?m + ?n mod ?m" by simp
  show ?thesis
  proof (cases "n mod m = 0")
    case True
    then have z: "?n mod ?m = 0" using modw by (metis unat_0)
    then obtain q where q: "?n = ?m * q" by (auto simp: mod_eq_0_iff_dvd)
    then have "?n + ?m - 1 = ?m * q + (?m - 1)" using m0 by simp
    then have "(?n + ?m - 1) div ?m = q" using m0 by (simp only: div_mult_self4) simp
    then have "(?n + ?m - 1) div ?m = ?n div ?m" using q m0 by simp
    with True z decomp show ?thesis by (simp add: ROUND_UP_def)
  next
    case False
    then have r: "0 < ?n mod ?m" using modw by (metis gr0I unat_eq_0)
    have le: "n mod m \<le> n" by (simp add: word_le_nat_alt modw)
    have sub: "unat (n - n mod m) = ?n - ?n mod ?m" using le by (simp add: unat_sub modw)
    have lt: "?n - ?n mod ?m + ?m < 2 ^ 64" using assms(2) r by simp
    have "unat (ROUND_UP n m) = ?n - ?n mod ?m + ?m"
      using False sub lt by (simp add: ROUND_UP_def unat_add_no_wrap)
    also have "\<dots> = (?n div ?m + 1) * ?m" using decomp by (simp add: minus_mod_eq_div_mult)
    also have "?n div ?m + 1 = (?n + ?m - 1) div ?m"
    proof -
      have "?n + ?m - 1 = ?n div ?m * ?m + ?m + (?n mod ?m - 1)"
        using decomp r by linarith
      then have "?n + ?m - 1 = (?n div ?m + 1) * ?m + (?n mod ?m - 1)"
        by (simp only: add_mult_distrib mult_1)
      moreover have "?n mod ?m - 1 < ?m" using m0 by (simp add: less_imp_diff_less)
      moreover have "((?n div ?m + 1) * ?m + (?n mod ?m - 1)) div ?m
          = ?n div ?m + 1 + (?n mod ?m - 1) div ?m"
        using m0 by (intro div_mult_self3) simp
      ultimately show ?thesis by (simp only: div_less add_0_right)
    qed
    finally show ?thesis .
  qed
qed

lemma NEAREST_PAGE_unat:
  assumes "unat n + 4096 \<le> 2 ^ 64"
  shows "unat (NEAREST_PAGE n) = (unat n + 4095) div 4096"
  using ROUND_UP_unat [of 4096 n] assms
  by (simp add: NEAREST_PAGE_def ROUND_UP_PAGE_SIZE_def MEMORY_PAGE_SIZE_def unat_div)

end
