(* ===== verification/Atomic.thy ===== *)
theory Atomic
  imports Kernel_Macros
begin

text \<open>
  \<^verbatim>\<open>x86_64/atomic.asm\<close>: bit locks in a 64 bit word and the fetch-and-add counter.  The first part is
  the sequential meaning of each routine, as one processor sees it; spinning on a bit that
  nobody clears is not returning, the value \<open>None\<close>.  The second part is the contract of a
  bit lock as a locale, which the page frame allocator, the scheduler queues and the process
  table instantiate with their own flag words.  The third part is the interleaved
  semantics: processors that take and release bit locks of one shared word, with the release
  (a \<open>btr\<close> without \<open>lock\<close> prefix) split into its read and its write.
\<close>

section \<open>One processor\<close>

text \<open>\<open>lock bts\<close> and \<open>btr\<close> return the old bit in the carry flag; \<open>CF_RESULT\<close> turns a clear
  carry into the result 1 for both routines.\<close>

definition atomic_lock :: "u64 \<Rightarrow> nat \<Rightarrow> u64 \<times> bool" where
  "atomic_lock mutex b = (set_bit b mutex, \<not> bit mutex b)"

definition atomic_unlock :: "u64 \<Rightarrow> nat \<Rightarrow> u64 \<times> bool" where
  "atomic_unlock mutex b = (unset_bit b mutex, \<not> bit mutex b)"

text \<open>The inner loop \<open>.spin\<close> (\<open>bt\<close>, \<open>jc .spin\<close>) and the outer loop \<open>.acquire\<close>.\<close>

partial_function (option) atomic_spin :: "u64 \<Rightarrow> nat \<Rightarrow> u64 option" where
  "atomic_spin mutex b = (if bit mutex b then atomic_spin mutex b else Some mutex)"

partial_function (option) atomic_spinlock :: "u64 \<Rightarrow> nat \<Rightarrow> u64 option" where
  "atomic_spinlock mutex b =
     (if \<not> bit mutex b then Some (set_bit b mutex)
      else do { mutex' \<leftarrow> atomic_spin mutex b; atomic_spinlock mutex' b })"

definition atomic_accumulate :: "u64 \<Rightarrow> u64 \<Rightarrow> u64 \<times> u64" where
  "atomic_accumulate accumulator amount = (accumulator + amount, accumulator)"

lemma atomic_spin_returns: "atomic_spin m b = Some m' \<Longrightarrow> \<not> bit m b \<and> m' = m"
proof (rule atomic_spin.raw_induct [where P = "\<lambda>m b m'. \<not> bit m b \<and> m' = m"])
  fix f m b m'
  assume "\<And>m b m'. f m b = Some m' \<Longrightarrow> \<not> bit m b \<and> m' = m"
    and "(if bit m b then f m b else Some m) = Some m'"
  then show "\<not> bit m b \<and> m' = m" by (auto split: if_splits)
qed

lemma atomic_spin_held: "bit m b \<Longrightarrow> atomic_spin m b = None"
  using atomic_spin_returns by (cases "atomic_spin m b") blast+

lemma atomic_spinlock_eq [code]: "atomic_spinlock m b = (if bit m b then None else Some (set_bit b m))"
  by (simp add: atomic_spinlock.simps [of m b] atomic_spin_held)

lemma bit_set_u64 [simp]: "b < 64 \<Longrightarrow> bit (set_bit b (m :: u64)) c \<longleftrightarrow> c = b \<or> bit m c"
  by (auto simp: bit_set_bit_iff)

lemma bit_unset_u64 [simp]: "bit (unset_bit b (m :: u64)) c \<longleftrightarrow> c \<noteq> b \<and> bit m c"
  by (auto simp: bit_unset_bit_iff)

lemma unset_set_bit [simp]: "\<not> bit m b \<Longrightarrow> unset_bit b (set_bit b m) = (m :: u64)"
  by (rule bit_word_eqI) (auto simp: bit_simps)

lemma bit_pow_u64 [simp]: "b < 64 \<Longrightarrow> bit (2 ^ b :: u64) c \<longleftrightarrow> c = b"
  by (auto simp: bit_exp_iff)

lemma unset_pow_u64 [simp]: "unset_bit b (2 ^ b :: u64) = 0"
  by (rule bit_word_eqI) (auto simp: bit_simps)

section \<open>The contract of a bit lock\<close>

locale bit_lock =
  fixes acquire :: "'s \<Rightarrow> 's option"
    and release :: "'s \<Rightarrow> 's"
    and held :: "'s \<Rightarrow> bool"
  assumes acquire_free: "\<not> held s \<Longrightarrow> \<exists>t. acquire s = Some t \<and> held t"
    and acquire_held: "held s \<Longrightarrow> acquire s = None"
    and release_free: "\<not> held (release s)"
    and release_acquire: "acquire s = Some t \<Longrightarrow> release t = s"
begin

text \<open>A critical section entered with the lock free runs to its end and leaves it free.\<close>

lemma acquire_SomeD: "acquire s = Some t \<Longrightarrow> \<not> held s \<and> held t"
  using acquire_free acquire_held by (cases "held s") fastforce+

lemma acquire_returns_iff: "acquire s \<noteq> None \<longleftrightarrow> \<not> held s"
  using acquire_free acquire_held by (cases "held s") fastforce+

lemma critical_section_returns:
  assumes "\<not> held s"
  shows "\<exists>t. acquire s = Some t \<and> acquire s \<bind> (\<lambda>t. Some (release (f t))) = Some (release (f t))
      \<and> \<not> held (release (f t))"
  using acquire_free [OF assms] release_free by auto

lemma nested_acquire_deadlocks: "acquire s \<bind> acquire = None"
proof (cases "acquire s")
  case (Some t)
  then have "held t" by (rule acquire_SomeD [THEN conjunct2])
  with Some show ?thesis by (simp add: acquire_held)
qed simp

lemma empty_critical_section: "\<not> held s \<Longrightarrow> acquire s \<bind> (\<lambda>t. Some (release t)) = Some s"
  using acquire_free release_acquire by fastforce

end

interpretation word_lock: bit_lock
  "\<lambda>m. atomic_spinlock m 0" "\<lambda>m. fst (atomic_unlock m 0)" "\<lambda>m. bit m 0"
  by unfold_locales (auto simp: atomic_spinlock_eq atomic_unlock_def split: if_splits)

section \<open>Several processors\<close>

datatype cpu_pc =
    Idle
  | Acquire nat        \<comment> \<open>before \<open>lock bts\<close>\<close>
  | Spin nat           \<comment> \<open>in the \<open>pause; bt; jc\<close> loop\<close>
  | Critical nat       \<comment> \<open>\<open>atomic_spinlock\<close> returned\<close>
  | Unlocking nat u64  \<comment> \<open>\<open>btr\<close> has read the word, its write is outstanding\<close>

record lock_sys =
  mutex :: u64
  pc :: "nat \<Rightarrow> cpu_pc"

definition lock_init :: lock_sys where
  "lock_init = \<lparr>mutex = 0, pc = (\<lambda>_. Idle)\<rparr>"

text \<open>One step of processor \<open>i\<close>; \<open>B\<close> is the set of lock bits in use in the shared word.\<close>

inductive lock_step :: "nat set \<Rightarrow> lock_sys \<Rightarrow> lock_sys \<Rightarrow> bool" for B where
  enter: "pc s i = Idle \<Longrightarrow> b \<in> B \<Longrightarrow> lock_step B s (s\<lparr>pc := (pc s)(i := Acquire b)\<rparr>)"
| take: "pc s i = Acquire b \<Longrightarrow> \<not> bit (mutex s) b \<Longrightarrow>
     lock_step B s (s\<lparr>mutex := set_bit b (mutex s), pc := (pc s)(i := Critical b)\<rparr>)"
| busy: "pc s i = Acquire b \<Longrightarrow> bit (mutex s) b \<Longrightarrow>
     lock_step B s (s\<lparr>pc := (pc s)(i := Spin b)\<rparr>)"
| spin: "pc s i = Spin b \<Longrightarrow> bit (mutex s) b \<Longrightarrow> lock_step B s s"
| retry: "pc s i = Spin b \<Longrightarrow> \<not> bit (mutex s) b \<Longrightarrow>
     lock_step B s (s\<lparr>pc := (pc s)(i := Acquire b)\<rparr>)"
| unlock_read: "pc s i = Critical b \<Longrightarrow>
     lock_step B s (s\<lparr>pc := (pc s)(i := Unlocking b (mutex s))\<rparr>)"
| unlock_write: "pc s i = Unlocking b v \<Longrightarrow>
     lock_step B s (s\<lparr>mutex := unset_bit b v, pc := (pc s)(i := Idle)\<rparr>)"

inductive lock_reachable :: "nat set \<Rightarrow> lock_sys \<Rightarrow> bool" for B where
  start: "lock_reachable B lock_init"
| step: "lock_reachable B s \<Longrightarrow> lock_step B s t \<Longrightarrow> lock_reachable B t"

fun owns :: "cpu_pc \<Rightarrow> nat \<Rightarrow> bool" where
  "owns (Critical c) b = (b = c)"
| "owns (Unlocking c v) b = (b = c)"
| "owns _ b = False"

fun pc_ok :: "nat \<Rightarrow> cpu_pc \<Rightarrow> bool" where
  "pc_ok b Idle = True"
| "pc_ok b (Acquire c) = (c = b)"
| "pc_ok b (Spin c) = (c = b)"
| "pc_ok b (Critical c) = (c = b)"
| "pc_ok b (Unlocking c v) = (c = b \<and> v = set_bit b 0)"

text \<open>
  The invariant for a word with one lock bit: there is at most one owner, the word has the
  bit set exactly while there is one, and a pending write-back carries no other bit.
\<close>

definition owner_inv :: "nat \<Rightarrow> nat option \<Rightarrow> lock_sys \<Rightarrow> bool" where
  "owner_inv b h s \<longleftrightarrow>
     (\<forall>i. owns (pc s i) b \<longleftrightarrow> h = Some i)
   \<and> mutex s = (case h of None \<Rightarrow> 0 | Some _ \<Rightarrow> set_bit b 0)
   \<and> (\<forall>i. pc_ok b (pc s i))"

definition single_lock_inv :: "nat \<Rightarrow> lock_sys \<Rightarrow> bool" where
  "single_lock_inv b s \<longleftrightarrow> (\<exists>h. owner_inv b h s)"

lemma single_lock_init: "single_lock_inv b lock_init"
  by (auto simp: single_lock_inv_def owner_inv_def lock_init_def intro!: exI [of _ None])

lemma owner_inv_step:
  assumes "lock_step {b} s t" and "owner_inv b h s" and b: "b < 64"
  shows "\<exists>h'. owner_inv b h' t"
  using assms(1,2)
proof (induction rule: lock_step.induct)
  case (take s i c)
  then have "c = b" by (metis owner_inv_def pc_ok.simps(2))
  with take b have "h = None" by (auto simp: owner_inv_def split: option.splits)
  with take \<open>c = b\<close> have "owner_inv b (Some i) (s\<lparr>mutex := set_bit c (mutex s), pc := (pc s)(i := Critical c)\<rparr>)"
    by (simp add: owner_inv_def)
  then show ?case by blast
next
  case (unlock_read s i c)
  then have c: "c = b" by (metis owner_inv_def pc_ok.simps(4))
  with unlock_read have h: "h = Some i" by (metis owner_inv_def owns.simps(1))
  then have "mutex s = set_bit b 0" using unlock_read by (simp add: owner_inv_def)
  then have "owner_inv b h (s\<lparr>pc := (pc s)(i := Unlocking c (mutex s))\<rparr>)"
    using unlock_read c h by (simp add: owner_inv_def)
  then show ?case by blast
next
  case (unlock_write s i c v)
  then have c: "c = b" and v: "v = set_bit b 0" by (metis owner_inv_def pc_ok.simps(5))+
  with unlock_write have "h = Some i" by (metis owner_inv_def owns.simps(2))
  then have "owner_inv b None (s\<lparr>mutex := unset_bit c v, pc := (pc s)(i := Idle)\<rparr>)"
    using unlock_write c v by (simp add: owner_inv_def)
  then show ?case by blast
next
  case (spin s i c)
  then show ?case by blast
next
  case (enter s i c)
  then have "owner_inv b h (s\<lparr>pc := (pc s)(i := Acquire c)\<rparr>)"
    by (simp add: owner_inv_def) (metis owns.simps(3))
  then show ?case by blast
next
  case (busy s i c)
  then have "owner_inv b h (s\<lparr>pc := (pc s)(i := Spin c)\<rparr>)"
    by (simp add: owner_inv_def) (metis owns.simps(4) pc_ok.simps(2))
  then show ?case by blast
next
  case (retry s i c)
  then have "owner_inv b h (s\<lparr>pc := (pc s)(i := Acquire c)\<rparr>)"
    by (simp add: owner_inv_def) (metis owns.simps(5) pc_ok.simps(3))
  then show ?case by blast
qed

lemma single_lock_step:
  "lock_step {b} s t \<Longrightarrow> single_lock_inv b s \<Longrightarrow> b < 64 \<Longrightarrow> single_lock_inv b t"
  unfolding single_lock_inv_def using owner_inv_step by blast

lemma single_lock_reachable:
  "lock_reachable {b} s \<Longrightarrow> b < 64 \<Longrightarrow> single_lock_inv b s"
proof (induction rule: lock_reachable.induct)
  case start
  show ?case by (rule single_lock_init)
next
  case (step s t)
  then show ?case using single_lock_step by blast
qed

text \<open>
  C3. A spin lock that is the only lock bit of its word gives mutual exclusion: in every
  reachable interleaving of any number of processors at most one of them is between the
  return of \<open>atomic_spinlock\<close> and the end of \<open>atomic_unlock\<close>, although the release is a
  separate read and write.
\<close>

theorem spinlock_mutual_exclusion:
  assumes "lock_reachable {b} s" and "b < 64" and "owns (pc s i) b" and "owns (pc s j) b"
  shows "i = j"
  using single_lock_reachable [OF assms(1,2)] assms(3,4)
  by (auto simp: single_lock_inv_def owner_inv_def)

lemmas lock_run_intros =
  lock_reachable.step [OF _ lock_step.enter] lock_reachable.step [OF _ lock_step.take]
  lock_reachable.step [OF _ lock_step.unlock_read] lock_reachable.step [OF _ lock_step.unlock_write]

theorem spinlock_mutual_exclusion_witness:
  "\<exists>s. lock_reachable {0} s \<and> owns (pc s 7) 0 \<and> (\<forall>i. owns (pc s i) 0 \<longrightarrow> i = 7)"
proof -
  let ?s1 = "lock_init\<lparr>pc := (pc lock_init)(7 := Acquire 0)\<rparr>"
  let ?s2 = "?s1\<lparr>mutex := set_bit 0 (mutex ?s1), pc := (pc ?s1)(7 := Critical 0)\<rparr>"
  have "lock_reachable {0} ?s1"
    by (rule lock_run_intros(1) [OF lock_reachable.start]) (simp_all add: lock_init_def)
  then have r: "lock_reachable {0} ?s2"
    by (rule lock_run_intros(2)) (simp_all add: lock_init_def)
  moreover have "owns (pc ?s2 7) 0" by simp
  moreover from this have "i = 7" if "owns (pc ?s2 i) 0" for i
    using spinlock_mutual_exclusion [OF r _ that] by simp
  ultimately show ?thesis by blast
qed

text \<open>
  C35. Two lock bits in one word break it: \<open>atomic_unlock\<close> writes back the word it read, and
  a \<open>lock bts\<close> of the other bit between its read and its write is lost.  From the initial
  state two processors reach their critical sections for bit 1 together.  This is the
  situation of \<open>s_mutex\<close> in the page frame allocator, which keeps three lock bits in one
  word.
\<close>

theorem shared_word_lock_violation:
  "\<exists>s. lock_reachable {0, 1} s \<and> pc s 1 = Critical 1 \<and> pc s 2 = Critical 1"
proof -
  have "lock_reachable {0, 1} \<lparr>mutex = 0, pc = (\<lambda>_. Idle)(0 := Acquire 0)\<rparr>"
    using lock_run_intros(1) [OF lock_reachable.start, of 0 0 "{0, 1}"] by (simp add: lock_init_def)
  then have "lock_reachable {0, 1} \<lparr>mutex = 1, pc = (\<lambda>_. Idle)(0 := Critical 0)\<rparr>"
    by (rule lock_run_intros(2) [where i = 0 and b = 0, THEN back_subst [where P = "lock_reachable _"]])
      (auto simp: set_bit_eq_or)
  then have "lock_reachable {0, 1} \<lparr>mutex = 1, pc = (\<lambda>_. Idle)(0 := Unlocking 0 1)\<rparr>"
    by (rule lock_run_intros(3) [where i = 0 and b = 0, THEN back_subst [where P = "lock_reachable _"]])
      auto
  then have "lock_reachable {0, 1} \<lparr>mutex = 1, pc = (\<lambda>_. Idle)(0 := Unlocking 0 1, 1 := Acquire 1)\<rparr>"
    by (rule lock_run_intros(1) [where i = 1 and b = 1, THEN back_subst [where P = "lock_reachable _"]])
      auto
  then have "lock_reachable {0, 1} \<lparr>mutex = 3, pc = (\<lambda>_. Idle)(0 := Unlocking 0 1, 1 := Critical 1)\<rparr>"
    by (rule lock_run_intros(2) [where i = 1 and b = 1, THEN back_subst [where P = "lock_reachable _"]])
      (auto simp: set_bit_eq_or)
  then have "lock_reachable {0, 1} \<lparr>mutex = 0, pc = (\<lambda>_. Idle)(1 := Critical 1)\<rparr>"
    by (rule lock_run_intros(4) [where i = 0 and b = 0 and v = 1, THEN back_subst [where P = "lock_reachable _"]])
      (auto simp: unset_bit_eq_and_not fun_eq_iff)
  then have "lock_reachable {0, 1} \<lparr>mutex = 0, pc = (\<lambda>_. Idle)(1 := Critical 1, 2 := Acquire 1)\<rparr>"
    by (rule lock_run_intros(1) [where i = 2 and b = 1, THEN back_subst [where P = "lock_reachable _"]])
      auto
  then have "lock_reachable {0, 1} \<lparr>mutex = 2, pc = (\<lambda>_. Idle)(1 := Critical 1, 2 := Critical 1)\<rparr>"
    by (rule lock_run_intros(2) [where i = 2 and b = 1, THEN back_subst [where P = "lock_reachable _"]])
      (auto simp: set_bit_eq_or)
  then show ?thesis by fastforce
qed

text \<open>
  The result of \<open>atomic_unlock\<close> is the opposite of what its header promises: it is true
  exactly when the mutex was not locked.
\<close>

lemma atomic_unlock_result:
  assumes "b < 64"
  shows "snd (atomic_unlock (fst (atomic_lock m b)) b) = False
       \<and> (\<not> bit m b \<longrightarrow> atomic_unlock m b = (m, True))"
  using assms
  by (auto simp: atomic_unlock_def atomic_lock_def intro!: bit_word_eqI)

end
