(* ===== verification/Bitmap.thy ===== *)
theory Bitmap
  imports Kernel_Macros
begin

text \<open>
  \<^verbatim>\<open>memory/bitmap.c\<close>: an array of bits stored in memory, most significant bit first.  The structure
  holds the address and the byte size of its buffer; the bits live in the machine's memory.
  The contract of a bit array is a locale; the operations of \<^verbatim>\<open>bitmap.c\<close> satisfy it for every
  index that passes their range check, which admits one index more than the buffer holds.
\<close>

section \<open>The operations\<close>

record Bitmap =
  bm_buffer :: addr
  bm_size :: u64

definition BITMAP_SCALE :: u64 where
  "BITMAP_SCALE = 8"

definition bitmap_initialize :: "memory \<Rightarrow> addr \<Rightarrow> u64 \<Rightarrow> memory \<times> Bitmap" where
  "bitmap_initialize m buf sz = (memset m buf 0 sz, \<lparr>bm_buffer = buf, bm_size = sz\<rparr>)"

definition bitmap_adjusted_size :: "Bitmap \<Rightarrow> u64" where
  "bitmap_adjusted_size bitmap = bm_size bitmap * BITMAP_SCALE"

text \<open>The address of the byte that holds a bit, and the selector of the bit in it.\<close>

definition byte_address :: "Bitmap \<Rightarrow> u64 \<Rightarrow> addr" where
  "byte_address bitmap index = bm_buffer bitmap + index div BITMAP_SCALE"

definition bit_selector :: "u64 \<Rightarrow> u8" where
  "bit_selector index = drop_bit (unat (index mod BITMAP_SCALE)) 0b10000000"

definition bitmap_get :: "memory \<Rightarrow> Bitmap \<Rightarrow> u64 \<Rightarrow> bool" where
  "bitmap_get m bitmap index =
     (if index > bitmap_adjusted_size bitmap then False
      else m (byte_address bitmap index) AND bit_selector index \<noteq> 0)"

definition bitmap_set :: "memory \<Rightarrow> Bitmap \<Rightarrow> u64 \<Rightarrow> bool \<Rightarrow> memory \<times> bool" where
  "bitmap_set m bitmap index value =
     (if index > bitmap_adjusted_size bitmap then (m, False)
      else let a = byte_address bitmap index in
        (m(a := (if value then m a OR bit_selector index else m a AND NOT (bit_selector index))),
         True))"

section \<open>The contract of a bit array\<close>

locale bit_array =
  fixes get :: "'m \<Rightarrow> u64 \<Rightarrow> bool"
    and put :: "'m \<Rightarrow> u64 \<Rightarrow> bool \<Rightarrow> 'm"
    and valid :: "u64 \<Rightarrow> bool"
  assumes get_put: "valid i \<Longrightarrow> get (put m i v) j = (if j = i then v else get m j)"
    and put_invalid: "\<not> valid i \<Longrightarrow> put m i v = m"
begin

lemma put_put_get: "valid i \<Longrightarrow> get (put (put m i v) i w) j = get (put m i w) j"
  by (simp add: get_put)

lemma put_commutes: "i \<noteq> j \<Longrightarrow> get (put (put m i v) j w) k = get (put (put m j w) i v) k"
  by (cases "valid i"; cases "valid j") (simp_all add: get_put put_invalid)

text \<open>Writing one value to a range of indices.\<close>

lemma get_fill:
  assumes "a \<le> n"
  shows "get (word_for a n (\<lambda>i m. put m i v) m) j
       = (if a \<le> j \<and> j < n \<and> valid j then v else get m j)"
proof -
  let ?P = "\<lambda>k t. \<forall>j. get t j = (if a \<le> j \<and> j < k \<and> valid j then v else get m j)"
  have "?P n (word_for a n (\<lambda>i m. put m i v) m)"
  proof (rule word_for_rule [where P = ?P])
    show "?P a m" by auto
    fix k t assume k: "a \<le> k" "k < n" and P: "?P k t"
    have step: "j < k + 1 \<longleftrightarrow> j < k \<or> j = k" for j
      using k(2) by unat_arith
    show "?P (k + 1) (put t k v)"
      using P k by (cases "valid k") (auto simp: step get_put put_invalid)
  qed (use assms in simp)
  then show ?thesis by blast
qed

lemma get_fill_empty: "n \<le> a \<Longrightarrow> word_for a n (\<lambda>i m. put m i v) m = m"
  by simp

end

section \<open>bitmap.c satisfies it\<close>

lemma bit_bit_selector:
  "bit (bit_selector i) k \<longleftrightarrow> k = 7 - unat i mod 8"
proof -
  have r: "unat i mod 8 < 8" by simp
  have top: "bit (128 :: u8) n \<longleftrightarrow> n = 7" for n
  proof -
    have "bit (128 :: u8) n \<longleftrightarrow> bit (2 ^ 7 :: u8) n" by simp
    also have "\<dots> \<longleftrightarrow> n = 7" by (subst bit_exp_iff) auto
    finally show ?thesis .
  qed
  have "bit (bit_selector i) k \<longleftrightarrow> bit (128 :: u8) (unat (i mod 8) + k)"
    by (simp only: bit_selector_def BITMAP_SCALE_def bit_drop_bit_eq o_def)
  also have "\<dots> \<longleftrightarrow> unat (i mod 8) + k = 7" by (rule top)
  also have "unat (i mod 8) = unat i mod 8" by (simp add: unat_mod)
  finally show ?thesis using r by linarith
qed

lemma and_selector: "x AND bit_selector i \<noteq> 0 \<longleftrightarrow> bit x (7 - unat i mod 8)"
proof -
  have "x AND bit_selector i = (if bit x (7 - unat i mod 8) then bit_selector i else 0)"
    by (rule bit_word_eqI) (auto simp: bit_and_iff bit_bit_selector)
  moreover have "bit_selector i \<noteq> 0"
    using bit_bit_selector [of i "7 - unat i mod 8"] by auto
  ultimately show ?thesis by simp
qed

lemma bitmap_get_bit:
  "bitmap_get m bm i \<longleftrightarrow>
     i \<le> bitmap_adjusted_size bm \<and> bit (m (byte_address bm i)) (7 - unat i mod 8)"
  by (auto simp: bitmap_get_def and_selector)

lemma byte_address_eq: "byte_address bm i = byte_address bm j \<longleftrightarrow> unat i div 8 = unat j div 8"
proof -
  have "byte_address bm i = byte_address bm j \<longleftrightarrow> i div 8 = j div 8"
    by (simp add: byte_address_def BITMAP_SCALE_def)
  also have "\<dots> \<longleftrightarrow> unat (i div 8) = unat (j div 8)" by (rule word_unat_eq_iff)
  finally show ?thesis by (simp add: unat_div)
qed

lemma bit_position_inj:
  assumes "unat (i :: u64) div 8 = unat j div 8" and "7 - unat i mod 8 = 7 - unat j mod 8"
  shows "i = j"
proof -
  have "unat i mod 8 \<le> 7" "unat j mod 8 \<le> 7" by (simp_all add: less_Suc_eq_le [symmetric])
  with assms(2) have "unat i mod 8 = unat j mod 8" by linarith
  with assms(1) have "unat i = unat j" by (metis mult_div_mod_eq)
  then show ?thesis by (simp add: word_unat_eq_iff)
qed

lemma bitmap_get_set:
  assumes "i \<le> bitmap_adjusted_size bm"
  shows "bitmap_get (fst (bitmap_set m bm i v)) bm j = (if j = i then v else bitmap_get m bm j)"
proof (cases "j = i")
  case True
  have "7 - unat i mod 8 < 8" by simp
  with assms True show ?thesis
    by (cases v) (auto simp: bitmap_get_bit bitmap_set_def Let_def bit_simps bit_bit_selector)
next
  case False
  show ?thesis
  proof (cases "byte_address bm j = byte_address bm i")
    case True
    then have "7 - unat j mod 8 \<noteq> 7 - unat i mod 8"
      using False bit_position_inj by (auto simp: byte_address_eq)
    with assms False True show ?thesis
      by (auto simp: bitmap_get_bit bitmap_set_def Let_def bit_simps bit_bit_selector)
  next
    case other: False
    with assms False show ?thesis by (auto simp: bitmap_get_bit bitmap_set_def Let_def)
  qed
qed

lemma bitmap_set_out_of_range: "\<not> i \<le> bitmap_adjusted_size bm \<Longrightarrow> bitmap_set m bm i v = (m, False)"
  by (simp add: bitmap_set_def not_le)

lemma bitmap_set_result: "snd (bitmap_set m bm i v) \<longleftrightarrow> i \<le> bitmap_adjusted_size bm"
  by (auto simp: bitmap_set_def Let_def)

text \<open>A write touches one byte of the buffer, or the byte behind it.\<close>

lemma bitmap_set_frame:
  "b \<noteq> byte_address bm i \<Longrightarrow> fst (bitmap_set m bm i v) b = m b"
  by (auto simp: bitmap_set_def Let_def)

interpretation bits: bit_array
  "\<lambda>m. bitmap_get m bm" "\<lambda>m i v. fst (bitmap_set m bm i v)"
  "\<lambda>i. i \<le> bitmap_adjusted_size bm" for bm
  by unfold_locales (simp_all add: bitmap_get_set bitmap_set_out_of_range)

lemma bitmap_get_initialize:
  assumes "unat sz * 8 < 2 ^ 64" and "unat i < unat sz * 8"
  shows "\<not> bitmap_get (fst (bitmap_initialize m buf sz)) (snd (bitmap_initialize m buf sz)) i"
proof -
  have "unat i div 8 < unat sz" using assms(2) by (simp add: less_mult_imp_div_less)
  then have "in_region buf sz (buf + i div 8)"
    by (simp add: in_region_def word_less_nat_alt unat_div)
  then show ?thesis
    by (simp add: bitmap_initialize_def bitmap_get_bit byte_address_def BITMAP_SCALE_def memset_def)
qed

lemma bitmap_set_same: "bitmap_get m bm i = v \<Longrightarrow> fst (bitmap_set m bm i v) = m"
proof -
  assume v: "bitmap_get m bm i = v"
  let ?x = "m (byte_address bm i)"
  have "?x OR bit_selector i = ?x" if "bit ?x (7 - unat i mod 8)"
    using that by (auto intro!: bit_word_eqI simp: bit_or_iff bit_bit_selector)
  moreover have "?x AND NOT (bit_selector i) = ?x" if "\<not> bit ?x (7 - unat i mod 8)"
    using that by (auto intro!: bit_word_eqI simp: bit_simps bit_bit_selector)
  ultimately show ?thesis
    using v by (auto simp: bitmap_set_def bitmap_get_bit Let_def fun_eq_iff)
qed

lemma byte_address_in_buffer:
  assumes "unat (bm_size bm) * 8 < 2 ^ 64" and "i < bitmap_adjusted_size bm"
  shows "in_region (bm_buffer bm) (bm_size bm) (byte_address bm i)"
proof -
  have "unat (bitmap_adjusted_size bm) = unat (bm_size bm) * 8"
    using assms(1) by (simp add: bitmap_adjusted_size_def BITMAP_SCALE_def unat_mult_no_wrap)
  with assms(2) have "unat i < unat (bm_size bm) * 8" by (simp add: word_less_nat_alt)
  then have "unat i div 8 < unat (bm_size bm)" by (simp add: less_mult_imp_div_less)
  then show ?thesis
    by (simp add: in_region_def byte_address_def BITMAP_SCALE_def word_less_nat_alt unat_div)
qed

section \<open>Properties\<close>

text \<open>
  C33. Reading after writing: for every index that passes the range check the written bit is
  read back and every other bit of the map is unchanged.
\<close>

theorem bitmap_read_after_write:
  assumes "i \<le> bitmap_adjusted_size bm"
  shows "snd (bitmap_set m bm i v)
       \<and> bitmap_get (fst (bitmap_set m bm i v)) bm i = v
       \<and> (\<forall>j. j \<noteq> i \<longrightarrow> bitmap_get (fst (bitmap_set m bm i v)) bm j = bitmap_get m bm j)"
  using assms by (simp add: bitmap_get_set bitmap_set_result)

theorem bitmap_read_after_write_witness:
  "bitmap_get (fst (bitmap_set (\<lambda>_. 0) \<lparr>bm_buffer = 0x1000, bm_size = 4\<rparr> 11 True))
     \<lparr>bm_buffer = 0x1000, bm_size = 4\<rparr> 11"
  using bitmap_read_after_write [of 11 "\<lparr>bm_buffer = 0x1000, bm_size = 4\<rparr>" "\<lambda>_. 0" True]
  by (simp add: bitmap_adjusted_size_def BITMAP_SCALE_def)

text \<open>
  The range check \<open>index > bitmap_adjusted_size\<close> lets the index equal to the number of bits
  through: \<open>bitmap_set\<close> then reports success and changes the byte behind the buffer.
\<close>

lemma bitmap_set_overruns_buffer:
  assumes "unat (bm_size bm) * 8 < 2 ^ 64"
  shows "\<not> in_region (bm_buffer bm) (bm_size bm) (bm_buffer bm + bm_size bm)
       \<and> bitmap_set m bm (bitmap_adjusted_size bm) True
         = (m(bm_buffer bm + bm_size bm := m (bm_buffer bm + bm_size bm) OR 0x80), True)"
proof -
  have "unat (bm_size bm * 8) = unat (bm_size bm) * 8" using assms by (simp add: unat_mult_no_wrap)
  then have "bm_size bm * 8 div 8 = bm_size bm" and "bm_size bm * 8 mod 8 = 0"
    by (simp_all add: word_unat_eq_iff unat_div unat_mod)
  then show ?thesis
    by (simp add: in_region_def bitmap_set_def byte_address_def bit_selector_def
        bitmap_adjusted_size_def BITMAP_SCALE_def Let_def)
qed

end
