(* ===== verification/Pageframe.thy ===== *)
theory Pageframe
  imports Atomic Bitmap
begin

text \<open>
  \<^verbatim>\<open>memory/pageframe.c\<close>: the allocator of physical page frames.  The static variables of the file are
  the fields of \<open>pageframe_state\<close>, which extends the machine; the bitmap's bits live in the
  machine's memory.  An operation that may not return (it spins on a lock that is held, or
  scans forever) has an \<open>option\<close> result, \<open>None\<close> standing for not returning.
\<close>

section \<open>State\<close>

datatype PageframeMutexBit =
  PAGEFRAME_MUTEX_REQUEST | PAGEFRAME_MUTEX_LOCK | PAGEFRAME_MUTEX_FREE

primrec mutex_bit :: "PageframeMutexBit \<Rightarrow> nat" where
  "mutex_bit PAGEFRAME_MUTEX_REQUEST = 0"
| "mutex_bit PAGEFRAME_MUTEX_LOCK = 1"
| "mutex_bit PAGEFRAME_MUTEX_FREE = 2"

record pageframe_state = machine +
  s_memory_total_size :: u64
  s_memory_used_size :: u64
  s_memory_reserved_size :: u64
  s_pageframemap :: Bitmap
  s_current_index :: u64
  s_mutex :: u64

type_synonym 'a pf = "'a pageframe_state_scheme"

definition PAGEFRAME_INITIAL_RESERVE_PAGES :: u64 where
  "PAGEFRAME_INITIAL_RESERVE_PAGES = 256"

section \<open>Operations\<close>

definition pageframe_spinlock :: "PageframeMutexBit \<Rightarrow> 'a pf \<Rightarrow> 'a pf option" where
  "pageframe_spinlock b s =
     map_option (\<lambda>m. s\<lparr>s_mutex := m\<rparr>) (atomic_spinlock (s_mutex s) (mutex_bit b))"

definition pageframe_unlock :: "PageframeMutexBit \<Rightarrow> 'a pf \<Rightarrow> 'a pf" where
  "pageframe_unlock b s = s\<lparr>s_mutex := fst (atomic_unlock (s_mutex s) (mutex_bit b))\<rparr>"

definition pageframe_manipulate :: "u64 \<Rightarrow> bool \<Rightarrow> 'a pf \<Rightarrow> bool \<times> 'a pf" where
  "pageframe_manipulate index state s =
     (if bitmap_get (mem s) (s_pageframemap s) index = state then (True, s)
      else let (m, r) = bitmap_set (mem s) (s_pageframemap s) index state
           in (r, s\<lparr>mem := m\<rparr>))"

text \<open>The loop bodies of \<open>pageframe_lock\<close>, \<open>pageframe_free\<close>, \<open>pageframe_reserve\<close> and
  \<open>pageframe_unreserve\<close>.\<close>

definition lock_frame :: "u64 \<Rightarrow> 'a pf \<Rightarrow> 'a pf" where
  "lock_frame i s =
     (let (ok, s) = pageframe_manipulate i True s in
      if ok then s\<lparr>s_memory_used_size := s_memory_used_size s + MEMORY_PAGE_SIZE\<rparr> else s)"

definition free_frame :: "u64 \<Rightarrow> 'a pf \<Rightarrow> 'a pf" where
  "free_frame i s =
     (let (ok, s) = pageframe_manipulate i False s in
      if ok then
        let s = (if s_memory_used_size s \<ge> MEMORY_PAGE_SIZE
                 then s\<lparr>s_memory_used_size := s_memory_used_size s - MEMORY_PAGE_SIZE\<rparr> else s)
        in if s_current_index s > i then s\<lparr>s_current_index := i\<rparr> else s
      else s)"

definition reserve_frame :: "u64 \<Rightarrow> 'a pf \<Rightarrow> 'a pf" where
  "reserve_frame i s =
     (let (ok, s) = pageframe_manipulate i True s in
      if ok then s\<lparr>s_memory_reserved_size := s_memory_reserved_size s + MEMORY_PAGE_SIZE\<rparr> else s)"

definition unreserve_frame :: "u64 \<Rightarrow> 'a pf \<Rightarrow> 'a pf" where
  "unreserve_frame i s =
     (let (ok, s) = pageframe_manipulate i False s in
      if ok then
        let s = (if s_memory_reserved_size s \<ge> MEMORY_PAGE_SIZE
                 then s\<lparr>s_memory_reserved_size := s_memory_reserved_size s - MEMORY_PAGE_SIZE\<rparr> else s)
        in if s_current_index s > i then s\<lparr>s_current_index := i\<rparr> else s
      else s)"

definition pageframe_free :: "addr \<Rightarrow> u64 \<Rightarrow> 'a pf \<Rightarrow> 'a pf option" where
  "pageframe_free physical_address pages s = do {
     s \<leftarrow> pageframe_spinlock PAGEFRAME_MUTEX_FREE s;
     let start = physical_address div MEMORY_PAGE_SIZE;
     Some (pageframe_unlock PAGEFRAME_MUTEX_FREE (word_for start (start + pages) free_frame s)) }"

definition pageframe_lock :: "addr \<Rightarrow> u64 \<Rightarrow> 'a pf \<Rightarrow> 'a pf option" where
  "pageframe_lock physical_address pages s = do {
     s \<leftarrow> pageframe_spinlock PAGEFRAME_MUTEX_LOCK s;
     let start = physical_address div MEMORY_PAGE_SIZE;
     Some (pageframe_unlock PAGEFRAME_MUTEX_LOCK (word_for start (start + pages) lock_frame s)) }"

definition pageframe_unreserve :: "addr \<Rightarrow> u64 \<Rightarrow> 'a pf \<Rightarrow> 'a pf option" where
  "pageframe_unreserve physical_address pages s = do {
     s \<leftarrow> pageframe_spinlock PAGEFRAME_MUTEX_FREE s;
     let start = physical_address div MEMORY_PAGE_SIZE;
     Some (pageframe_unlock PAGEFRAME_MUTEX_FREE (word_for start (start + pages) unreserve_frame s)) }"

definition pageframe_reserve :: "addr \<Rightarrow> u64 \<Rightarrow> 'a pf \<Rightarrow> 'a pf option" where
  "pageframe_reserve physical_address pages s = do {
     s \<leftarrow> pageframe_spinlock PAGEFRAME_MUTEX_LOCK s;
     let start = physical_address div MEMORY_PAGE_SIZE;
     Some (pageframe_unlock PAGEFRAME_MUTEX_LOCK (word_for start (start + pages) reserve_frame s)) }"

definition pageframe_reserve_size :: "addr \<Rightarrow> u64 \<Rightarrow> 'a pf \<Rightarrow> 'a pf option" where
  "pageframe_reserve_size physical_address sz s =
     pageframe_reserve physical_address (NEAREST_PAGE sz) s"

text \<open>The scan of \<open>pageframe_request\<close>: it moves \<open>s_current_index\<close> to the next free frame.\<close>

function request_scan :: "'a pf \<Rightarrow> bool \<times> 'a pf" where
  "request_scan s =
     (if s_current_index s < bitmap_adjusted_size (s_pageframemap s)
      then if bitmap_get (mem s) (s_pageframemap s) (s_current_index s)
           then request_scan (s\<lparr>s_current_index := s_current_index s + 1\<rparr>)
           else (True, s)
      else (False, s))"
  by pat_completeness auto
termination
  by (relation "measure (\<lambda>s. unat (bitmap_adjusted_size (s_pageframemap s)) - unat (s_current_index s))")
    (auto simp: unat_plus_one word_less_nat_alt)

declare request_scan.simps [simp del]

definition pageframe_request :: "'a pf \<Rightarrow> (addr \<times> 'a pf) option" where
  "pageframe_request s = do {
     s \<leftarrow> pageframe_spinlock PAGEFRAME_MUTEX_REQUEST s;
     let (found, s) = request_scan s;
     if found then do {
       let page = s_current_index s * MEMORY_PAGE_SIZE;
       let s = s\<lparr>s_current_index := s_current_index s + 1\<rparr>;
       s \<leftarrow> pageframe_lock page 1 s;
       Some (page, pageframe_unlock PAGEFRAME_MUTEX_REQUEST s) }
     else Some (0, pageframe_unlock PAGEFRAME_MUTEX_REQUEST s) }"

text \<open>The inner loop of \<open>pageframe_request_pages\<close>: the first used frame of the block, if any.\<close>

function first_used :: "'a pf \<Rightarrow> u64 \<Rightarrow> u64 \<Rightarrow> u64 option" where
  "first_used s j pages =
     (if j < pages
      then if bitmap_get (mem s) (s_pageframemap s) (s_current_index s + j) then Some j
           else first_used s (j + 1) pages
      else None)"
  by pat_completeness auto
termination
  by (relation "measure (\<lambda>(s, j, pages). unat pages - unat j)")
    (auto simp: unat_plus_one word_less_nat_alt)

declare first_used.simps [simp del]

partial_function (option) request_pages_scan :: "u64 \<Rightarrow> u64 \<Rightarrow> 'a pf \<Rightarrow> (bool \<times> 'a pf) option" where
  "request_pages_scan pages limit s =
     (if s_current_index s < limit
      then case first_used s 0 pages of
             Some j \<Rightarrow> request_pages_scan pages limit (s\<lparr>s_current_index := s_current_index s + (j + 1)\<rparr>)
           | None \<Rightarrow> Some (True, s)
      else Some (False, s))"

declare request_pages_scan.simps [code]

definition pageframe_request_pages :: "u64 \<Rightarrow> 'a pf \<Rightarrow> (addr \<times> 'a pf) option" where
  "pageframe_request_pages pages s = do {
     s \<leftarrow> pageframe_spinlock PAGEFRAME_MUTEX_REQUEST s;
     (found, s) \<leftarrow> request_pages_scan pages (bitmap_adjusted_size (s_pageframemap s)) s;
     if found then do {
       let page = s_current_index s * MEMORY_PAGE_SIZE;
       let s = s\<lparr>s_current_index := s_current_index s + pages\<rparr>;
       s \<leftarrow> pageframe_lock page pages s;
       Some (page, pageframe_unlock PAGEFRAME_MUTEX_REQUEST s) }
     else Some (0, pageframe_unlock PAGEFRAME_MUTEX_REQUEST s) }"

definition memory_get_total_size :: "'a pf \<Rightarrow> u64" where
  "memory_get_total_size s = s_memory_total_size s"
definition memory_get_used_size :: "'a pf \<Rightarrow> u64" where
  "memory_get_used_size s = s_memory_used_size s"
definition memory_get_reserved_size :: "'a pf \<Rightarrow> u64" where
  "memory_get_reserved_size s = s_memory_reserved_size s"
definition memory_get_free :: "'a pf \<Rightarrow> u64" where
  "memory_get_free s = s_memory_total_size s - s_memory_used_size s - s_memory_reserved_size s"

section \<open>Initialisation\<close>

text \<open>The first loop of \<open>pageframe_init\<close>: the largest usable region and the total size.\<close>

fun find_largest :: "MemoryMapEntry list \<Rightarrow> MemoryMapEntry option \<Rightarrow> u64 \<Rightarrow> MemoryMapEntry option \<times> u64" where
  "find_largest [] largest total_size = (largest, total_size)"
| "find_largest (e # es) largest total_size =
     find_largest es
       (if mtype e = MEMORY_TYPE_USABLE \<and> (case largest of None \<Rightarrow> True | Some l \<Rightarrow> num_pages e > num_pages l)
        then Some e else largest)
       (total_size + num_pages e * MEMORY_PAGE_SIZE)"

text \<open>The second loop: the usable regions are given back.\<close>

fun unreserve_usable :: "MemoryMapEntry list \<Rightarrow> 'a pf \<Rightarrow> 'a pf option" where
  "unreserve_usable [] s = Some s"
| "unreserve_usable (e # es) s =
     (if mtype e \<noteq> MEMORY_TYPE_USABLE then unreserve_usable es s
      else do {
        let reserved_size = num_pages e * MEMORY_PAGE_SIZE;
        s \<leftarrow> pageframe_unreserve (physical_base e) (reserved_size div MEMORY_PAGE_SIZE) s;
        unreserve_usable es s })"

text \<open>
  The linker symbols \<open>_virtual_base\<close>, \<open>_kernel_start\<close> and \<open>_kernel_end\<close> are parameters.
  Without a usable region \<open>largest_primary\<close> is \<open>NULL\<close> and its dereference faults.
\<close>

definition pageframe_init ::
  "addr \<Rightarrow> addr \<Rightarrow> addr \<Rightarrow> MemoryMap \<Rightarrow> 'a pf \<Rightarrow> 'a pf option" where
  "pageframe_init virtual_base kernel_start kernel_end memorymap s = do {
     let (largest_primary, total_size) = find_largest (entries memorymap) None (s_memory_total_size s);
     let s = s\<lparr>s_memory_total_size := total_size\<rparr>;
     largest \<leftarrow> largest_primary;
     let (m, bitmap) = bitmap_initialize (mem s) (physical_base largest)
           (s_memory_total_size s div MEMORY_PAGE_SIZE div BITMAP_SCALE);
     let s = s\<lparr>mem := m, s_pageframemap := bitmap\<rparr>;
     s \<leftarrow> pageframe_reserve 0 (s_memory_total_size s div MEMORY_PAGE_SIZE) s;
     s \<leftarrow> unreserve_usable (entries memorymap) s;
     let pageframemap_pages = NEAREST_PAGE (bm_size (s_pageframemap s));
     s \<leftarrow> pageframe_lock (bm_buffer (s_pageframemap s)) pageframemap_pages s;
     let kernel_pages = NEAREST_PAGE (kernel_end - kernel_start);
     s \<leftarrow> pageframe_lock (KERNEL_PHYSICAL_ADDRESS virtual_base kernel_start) kernel_pages s;
     pageframe_reserve 0 PAGEFRAME_INITIAL_RESERVE_PAGES s }"

section \<open>The lock bits\<close>

lemma mutex_bit_less [simp]: "mutex_bit b < 64"
  by (cases b) simp_all

lemma mutex_bit_inj [simp]: "mutex_bit b = mutex_bit c \<longleftrightarrow> b = c"
  by (cases b; cases c) simp_all

abbreviation pf_held :: "PageframeMutexBit \<Rightarrow> 'a pf \<Rightarrow> bool" where
  "pf_held b s \<equiv> bit (s_mutex s) (mutex_bit b)"

lemma pageframe_spinlock_eq:
  "pageframe_spinlock b s =
     (if pf_held b s then None else Some (s\<lparr>s_mutex := set_bit (mutex_bit b) (s_mutex s)\<rparr>))"
  by (simp add: pageframe_spinlock_def atomic_spinlock_eq)

lemma pageframe_unlock_eq:
  "pageframe_unlock b s = s\<lparr>s_mutex := unset_bit (mutex_bit b) (s_mutex s)\<rparr>"
  by (simp add: pageframe_unlock_def atomic_unlock_def)

interpretation pf_mutex: bit_lock "pageframe_spinlock b" "pageframe_unlock b" "pf_held b" for b
  by unfold_locales
    (auto simp: pageframe_spinlock_eq pageframe_unlock_eq split: if_splits)

section \<open>Frames\<close>

text \<open>The frames the map describes, and which of them are in use.\<close>

abbreviation frames :: "'a pf \<Rightarrow> u64" where
  "frames s \<equiv> bitmap_adjusted_size (s_pageframemap s)"

definition frame_used :: "'a pf \<Rightarrow> u64 \<Rightarrow> bool" where
  "frame_used s i = bitmap_get (mem s) (s_pageframemap s) i"

lemma frame_used_cong:
  "mem t = mem s \<Longrightarrow> s_pageframemap t = s_pageframemap s \<Longrightarrow> frame_used t i = frame_used s i"
  by (simp add: frame_used_def)

lemma frame_used_simps [simp]:
  "frame_used (s\<lparr>s_memory_total_size := x\<rparr>) i = frame_used s i"
  "frame_used (s\<lparr>s_memory_used_size := x\<rparr>) i = frame_used s i"
  "frame_used (s\<lparr>s_memory_reserved_size := x\<rparr>) i = frame_used s i"
  "frame_used (s\<lparr>s_current_index := x\<rparr>) i = frame_used s i"
  "frame_used (s\<lparr>s_mutex := x\<rparr>) i = frame_used s i"
  by (simp_all add: frame_used_def)

lemma frame_used_in_range: "frame_used s i \<Longrightarrow> i \<le> frames s"
  by (simp add: frame_used_def bitmap_get_bit)

lemma pageframe_manipulate_state:
  "snd (pageframe_manipulate i v s) = s\<lparr>mem := fst (bitmap_set (mem s) (s_pageframemap s) i v)\<rparr>"
  by (auto simp: pageframe_manipulate_def bitmap_set_same split: prod.split)

text \<open>It only reports failure for setting a bit out of range: an out of range bit reads as
  clear, so clearing it is \<^emph>\<open>already in state\<close>.\<close>

lemma pageframe_manipulate_result: "fst (pageframe_manipulate i v s) \<longleftrightarrow> i \<le> frames s \<or> \<not> v"
  by (auto simp: pageframe_manipulate_def bitmap_get_bit bitmap_set_def Let_def)

lemma pageframe_manipulate_eq:
  "pageframe_manipulate i v s =
     (i \<le> frames s \<or> \<not> v, s\<lparr>mem := fst (bitmap_set (mem s) (s_pageframemap s) i v)\<rparr>)"
  by (intro prod_eqI) (simp_all add: pageframe_manipulate_state pageframe_manipulate_result)

section \<open>Updating a range of frames\<close>

text \<open>What the loop bodies share: each sets the bit of one frame to a fixed value and touches
  neither the map's descriptor nor the mutex.\<close>

locale frame_update =
  fixes body :: "u64 \<Rightarrow> 'a pf \<Rightarrow> 'a pf" and v :: bool
  assumes mem_body: "mem (body i s) = fst (bitmap_set (mem s) (s_pageframemap s) i v)"
    and map_body: "s_pageframemap (body i s) = s_pageframemap s"
    and mutex_body: "s_mutex (body i s) = s_mutex s"
    and mutex_commute: "body i (s\<lparr>s_mutex := m\<rparr>) = (body i s)\<lparr>s_mutex := m\<rparr>"
    and index_le_body: "s_current_index (body i s) \<le> s_current_index s"
    and total_body: "s_memory_total_size (body i s) = s_memory_total_size s"
    and more_body: "pageframe_state.more (body i s) = pageframe_state.more s"
begin

lemma used_body:
  "frame_used (body i s) j = (if j = i \<and> i \<le> frames s then v else frame_used s j)"
  by (cases "i \<le> frames s")
    (simp_all add: frame_used_def mem_body map_body bitmap_get_set bitmap_set_out_of_range)

lemma map_loop: "s_pageframemap (word_for a n body s) = s_pageframemap s"
  by (rule word_for_frame) (rule map_body)

lemma mutex_loop: "s_mutex (word_for a n body s) = s_mutex s"
  by (rule word_for_frame) (rule mutex_body)

lemma index_le_loop: "s_current_index (word_for a n body s) \<le> s_current_index s"
  by (rule word_for_inv [where P = "\<lambda>t. s_current_index t \<le> s_current_index s"])
    (auto intro: order.trans [OF index_le_body])

lemma more_loop: "pageframe_state.more (word_for a n body s) = pageframe_state.more s"
  by (rule word_for_frame) (rule more_body)

lemma total_loop: "s_memory_total_size (word_for a n body s) = s_memory_total_size s"
  by (rule word_for_frame) (rule total_body)

lemma mutex_commute_loop:
  "word_for a n body (s\<lparr>s_mutex := m\<rparr>) = (word_for a n body s)\<lparr>s_mutex := m\<rparr>"
  using word_for_project [where h = "\<lambda>s. s\<lparr>s_mutex := m\<rparr>" and P = "\<lambda>_. True" and f = body and g = body]
  by (simp add: mutex_commute)

lemma mem_loop:
  "mem (word_for a n body s)
 = word_for a n (\<lambda>i m. fst (bitmap_set m (s_pageframemap s) i v)) (mem s)"
  by (rule word_for_project [where P = "\<lambda>t. s_pageframemap t = s_pageframemap s"])
    (simp_all add: map_body mem_body)

lemma used_loop:
  assumes "a \<le> n"
  shows "frame_used (word_for a n body s) j
       = (if a \<le> j \<and> j < n \<and> j \<le> frames s then v else frame_used s j)"
  using bits.get_fill [OF assms] by (simp add: frame_used_def map_loop mem_loop)

text \<open>Outside the bytes of the map that hold the frames' bits, memory is unchanged.\<close>

lemma mem_loop_frame:
  assumes "\<And>i. a \<le> i \<Longrightarrow> i < n \<Longrightarrow> i \<le> frames s \<Longrightarrow> b \<noteq> byte_address (s_pageframemap s) i"
  shows "mem (word_for a n body s) b = mem s b"
  unfolding mem_loop
proof (rule word_for_frame [where g = "\<lambda>m. m b"])
  fix i m assume "a \<le> i" "i < n"
  with assms have "i \<le> frames s \<Longrightarrow> b \<noteq> byte_address (s_pageframemap s) i" by blast
  then show "fst (bitmap_set m (s_pageframemap s) i v) b = m b"
    by (cases "i \<le> frames s") (simp_all add: bitmap_set_frame bitmap_set_out_of_range)
qed

end

interpretation lock_body: frame_update lock_frame True
  by unfold_locales (simp_all add: lock_frame_def pageframe_manipulate_eq)

interpretation free_body: frame_update free_frame False
  by unfold_locales (auto simp: free_frame_def pageframe_manipulate_eq Let_def)

interpretation reserve_body: frame_update reserve_frame True
  by unfold_locales (simp_all add: reserve_frame_def pageframe_manipulate_eq)

interpretation unreserve_body: frame_update unreserve_frame False
  by unfold_locales (auto simp: unreserve_frame_def pageframe_manipulate_eq Let_def)

text \<open>
  A whole operation: the loop under one of the lock bits.  The range of the loop is
  \<open>[start, start + pages)\<close>; it does not wrap when \<open>pages < 2 ^ 63\<close>, because the start is below \<open>2 ^ 52\<close>.
\<close>

definition page_range :: "addr \<Rightarrow> u64 \<Rightarrow> u64 set" where
  "page_range physical_address pages =
     {i. physical_address div 4096 \<le> i \<and> i < physical_address div 4096 + pages}"

locale range_operation = frame_update body v
  for body :: "u64 \<Rightarrow> 'a pf \<Rightarrow> 'a pf" and v +
  fixes op :: "addr \<Rightarrow> u64 \<Rightarrow> 'a pf \<Rightarrow> 'a pf option" and b :: PageframeMutexBit
  assumes op_eq: "op pa n s = do {
     s \<leftarrow> pageframe_spinlock b s;
     Some (pageframe_unlock b (word_for (pa div 4096) (pa div 4096 + n) body s)) }"
begin

lemma op_held: "pf_held b s \<Longrightarrow> op pa n s = None"
  by (simp add: op_eq pf_mutex.acquire_held)

text \<open>The lock is transparent to a single processor: the loop runs on the caller's state.\<close>

lemma op_result:
  "\<not> pf_held b s \<Longrightarrow> op pa n s = Some (word_for (pa div 4096) (pa div 4096 + n) body s)"
  by (simp add: op_eq pageframe_spinlock_eq pageframe_unlock_eq mutex_loop mutex_commute_loop)

lemma op_SomeD:
  "op pa n s = Some t \<Longrightarrow>
     \<not> pf_held b s \<and> t = word_for (pa div 4096) (pa div 4096 + n) body s"
  by (cases "pf_held b s") (simp_all add: op_held op_result)

lemma op_frame:
  assumes "op pa n s = Some t"
  shows "s_mutex t = s_mutex s" "s_pageframemap t = s_pageframemap s"
    "s_memory_total_size t = s_memory_total_size s" "s_current_index t \<le> s_current_index s"
    "pageframe_state.more t = pageframe_state.more s"
  using op_SomeD [OF assms] by (simp_all add: mutex_loop map_loop total_loop index_le_loop more_loop)

lemma op_used:
  assumes "op pa n s = Some t" and "pa div 4096 \<le> pa div 4096 + n"
  shows "frame_used t j = (if j \<in> page_range pa n \<and> j \<le> frames s then v else frame_used s j)"
  using op_SomeD [OF assms(1)] used_loop [OF assms(2)] by (simp add: page_range_def)

lemma op_mem:
  assumes "op pa n s = Some t"
    and "\<And>i. i \<in> page_range pa n \<Longrightarrow> i \<le> frames s \<Longrightarrow> a \<noteq> byte_address (s_pageframemap s) i"
  shows "mem t a = mem s a"
  using op_SomeD [OF assms(1)] assms(2) by (auto simp: page_range_def intro!: mem_loop_frame)

end

lemmas pf_op_defs =
  pageframe_lock_def pageframe_free_def pageframe_reserve_def pageframe_unreserve_def
  MEMORY_PAGE_SIZE_def Let_def

interpretation lock_op: range_operation lock_frame True pageframe_lock PAGEFRAME_MUTEX_LOCK
  by unfold_locales (simp add: pf_op_defs)

interpretation free_op: range_operation free_frame False pageframe_free PAGEFRAME_MUTEX_FREE
  by unfold_locales (simp add: pf_op_defs)

interpretation reserve_op: range_operation reserve_frame True pageframe_reserve PAGEFRAME_MUTEX_LOCK
  by unfold_locales (simp add: pf_op_defs)

interpretation unreserve_op:
  range_operation unreserve_frame False pageframe_unreserve PAGEFRAME_MUTEX_FREE
  by unfold_locales (simp add: pf_op_defs)

lemma lock_loop_index: "s_current_index (word_for a n lock_frame s) = s_current_index s"
  by (rule word_for_frame) (simp add: lock_frame_def pageframe_manipulate_eq)

lemma lock_op_index: "pageframe_lock pa n s = Some t \<Longrightarrow> s_current_index t = s_current_index s"
  by (auto dest!: lock_op.op_SomeD simp: lock_loop_index)

section \<open>Requesting one frame\<close>

text \<open>A descriptor small enough that frame numbers are page numbers of the address space; the
  initialisation divides a 64 bit size by \<open>4096 * 8\<close>, which gives it.\<close>

definition pf_wf :: "'a pf \<Rightarrow> bool" where
  "pf_wf s \<longleftrightarrow> bm_size (s_pageframemap s) < 2 ^ 49"

lemma pf_wf_frames: "pf_wf s \<Longrightarrow> unat (frames s) = 8 * unat (bm_size (s_pageframemap s))"
  "pf_wf s \<Longrightarrow> frames s < 2 ^ 52"
proof -
  assume "pf_wf s"
  then have lt: "unat (bm_size (s_pageframemap s)) < 2 ^ 49"
    by (simp add: pf_wf_def word_less_nat_alt)
  then show eq: "unat (frames s) = 8 * unat (bm_size (s_pageframemap s))"
    by (simp add: bitmap_adjusted_size_def BITMAP_SCALE_def unat_mult_no_wrap)
  show "frames s < 2 ^ 52" using lt by (simp add: eq word_less_nat_alt)
qed

lemma frame_page:
  assumes "i < (2 ^ 52 :: u64)"
  shows "unat (i * 4096) = unat i * 4096" "i * 4096 div 4096 = i" "i * 4096 = 0 \<longleftrightarrow> i = 0"
    "i < i + 1" "j < i + 1 \<longleftrightarrow> j \<le> i"
proof -
  have lt: "unat i < 2 ^ 52" using assms by (simp add: word_less_nat_alt)
  then show eq: "unat (i * 4096) = unat i * 4096" by (simp add: unat_mult_no_wrap)
  then have "unat (i * 4096 div 4096) = unat i" by (simp add: unat_div)
  then show "i * 4096 div 4096 = i" by (simp add: word_unat_eq_iff)
  show "i * 4096 = 0 \<longleftrightarrow> i = 0" using eq by (metis mult_eq_0_iff unsigned_eq_0_iff zero_neq_numeral)
  show "i < i + 1" using assms by (rule word_inc_bounds)
  show "j < i + 1 \<longleftrightarrow> j \<le> i" using assms by (rule word_less_inc)
qed

lemma request_scan_found:
  assumes "request_scan s = (True, t)"
  shows "\<exists>k. t = s\<lparr>s_current_index := k\<rparr> \<and> s_current_index s \<le> k \<and> k < frames s
      \<and> \<not> frame_used s k \<and> (\<forall>j. s_current_index s \<le> j \<and> j < k \<longrightarrow> frame_used s j)"
  using assms
proof (induction s rule: request_scan.induct)
  case (1 s)
  let ?c = "s_current_index s"
  show ?case
  proof (cases "?c < frames s \<and> frame_used s ?c")
    case True
    then have le: "?c \<le> j \<longleftrightarrow> j = ?c \<or> ?c + 1 \<le> j" for j using word_le_split by blast
    from True "1.prems" have "request_scan (s\<lparr>s_current_index := ?c + 1\<rparr>) = (True, t)"
      by (simp add: request_scan.simps [of s] frame_used_def)
    from "1.IH" [OF _ _ this] True show ?thesis by (auto simp: frame_used_def le)
  next
    case False
    with "1.prems" show ?thesis
      by (auto simp: request_scan.simps [of s] frame_used_def split: if_splits intro!: exI [of _ ?c])
  qed
qed

lemma request_scan_full:
  assumes "request_scan s = (False, t)"
  shows "t = s\<lparr>s_current_index := max (s_current_index s) (frames s)\<rparr>
      \<and> (\<forall>j. s_current_index s \<le> j \<and> j < frames s \<longrightarrow> frame_used s j)"
  using assms
proof (induction s rule: request_scan.induct)
  case (1 s)
  let ?c = "s_current_index s"
  show ?case
  proof (cases "?c < frames s")
    case True
    then have le: "?c \<le> j \<longleftrightarrow> j = ?c \<or> ?c + 1 \<le> j" for j using word_le_split by blast
    from True "1.prems" have u: "frame_used s ?c" and "request_scan (s\<lparr>s_current_index := ?c + 1\<rparr>) = (False, t)"
      by (auto simp: request_scan.simps [of s] frame_used_def split: if_splits)
    from "1.IH" [OF _ _ this(2)] True u show ?thesis
      by (auto simp: frame_used_def le max_def word_inc_bounds)
  next
    case False
    with "1.prems" show ?thesis
      by (auto simp: request_scan.simps [of s] max_def)
  qed
qed

text \<open>The frames a request can still hand out: the free ones from the current index on.\<close>

definition free_ahead :: "'a pf \<Rightarrow> u64 set" where
  "free_ahead s = {i. s_current_index s \<le> i \<and> i < frames s \<and> \<not> frame_used s i}"

lemma free_ahead_simps [simp]:
  "free_ahead (s\<lparr>s_mutex := m\<rparr>) = free_ahead s"
  by (simp add: free_ahead_def)

lemma request_scan_Min:
  "request_scan s =
     (if free_ahead s = {} then (False, s\<lparr>s_current_index := max (s_current_index s) (frames s)\<rparr>)
      else (True, s\<lparr>s_current_index := Min (free_ahead s)\<rparr>))"
proof (cases "request_scan s")
  case (Pair found t)
  show ?thesis
  proof (cases found)
    case True
    with Pair obtain k where k: "t = s\<lparr>s_current_index := k\<rparr>" "s_current_index s \<le> k" "k < frames s"
      "\<not> frame_used s k" "\<And>j. s_current_index s \<le> j \<Longrightarrow> j < k \<Longrightarrow> frame_used s j"
      using request_scan_found [of s t] by auto
    then have "k \<in> free_ahead s" by (simp add: free_ahead_def)
    moreover have "Min (free_ahead s) = k"
      by (rule Min_eqI) (use k in \<open>auto simp: free_ahead_def not_le [symmetric]\<close>)
    ultimately show ?thesis using Pair True k(1) by auto
  next
    case False
    with Pair show ?thesis using request_scan_full [of s t] by (auto simp: free_ahead_def)
  qed
qed

lemma pageframe_request_empty:
  assumes "\<not> pf_held PAGEFRAME_MUTEX_REQUEST s" and "free_ahead s = {}"
  shows "pageframe_request s = Some (0, s\<lparr>s_current_index := max (s_current_index s) (frames s)\<rparr>)"
  using assms
  by (simp add: pageframe_request_def pageframe_spinlock_eq pageframe_unlock_eq request_scan_Min)


text \<open>The state after handing out frame \<open>k\<close>.\<close>

definition take_frame :: "u64 \<Rightarrow> 'a pf \<Rightarrow> 'a pf" where
  "take_frame k s = s\<lparr>mem := fst (bitmap_set (mem s) (s_pageframemap s) k True),
     s_memory_used_size := s_memory_used_size s + 4096, s_current_index := k + 1\<rparr>"

lemma pageframe_request_take:
  assumes "pf_wf s" and "\<not> pf_held PAGEFRAME_MUTEX_REQUEST s" and "\<not> pf_held PAGEFRAME_MUTEX_LOCK s"
    and ne: "free_ahead s \<noteq> {}"
  shows "pageframe_request s = Some (Min (free_ahead s) * 4096, take_frame (Min (free_ahead s)) s)"
proof -
  let ?k = "Min (free_ahead s)"
  have "?k \<in> free_ahead s" using ne by (simp add: Min_in)
  then have k: "?k < frames s" by (simp add: free_ahead_def)
  then have k52: "?k < 2 ^ 52" using pf_wf_frames(2) [OF assms(1)] by (rule order.strict_trans)
  show ?thesis
    using assms k frame_page [OF k52]
    by (simp add: pageframe_request_def pageframe_spinlock_eq pageframe_unlock_eq request_scan_Min
        lock_op.op_result word_for_one lock_frame_def pageframe_manipulate_eq take_frame_def
        MEMORY_PAGE_SIZE_def)
qed

lemma take_frame_simps [simp]:
  "s_pageframemap (take_frame k s) = s_pageframemap s"
  "s_mutex (take_frame k s) = s_mutex s"
  "s_current_index (take_frame k s) = k + 1"
  "s_memory_total_size (take_frame k s) = s_memory_total_size s"
  "s_memory_used_size (take_frame k s) = s_memory_used_size s + 4096"
  "s_memory_reserved_size (take_frame k s) = s_memory_reserved_size s"
  by (simp_all add: take_frame_def)

lemma take_frame_used:
  "k \<le> frames s \<Longrightarrow> frame_used (take_frame k s) j \<longleftrightarrow> j = k \<or> frame_used s j"
  by (simp add: take_frame_def frame_used_def bitmap_get_set)

lemma take_frame_mem:
  assumes "pf_wf s" and "k < frames s"
    and "\<not> in_region (bm_buffer (s_pageframemap s)) (bm_size (s_pageframemap s)) a"
  shows "mem (take_frame k s) a = mem s a"
proof -
  have "unat (bm_size (s_pageframemap s)) * 8 < 2 ^ 64"
    using pf_wf_frames(1) [OF assms(1)] unat_u64_lt [of "frames s"] by simp
  then have "a \<noteq> byte_address (s_pageframemap s) k"
    using byte_address_in_buffer [OF _ assms(2)] assms(3) by blast
  then show ?thesis by (simp add: take_frame_def bitmap_set_frame)
qed

lemma take_frame_free_ahead:
  assumes "k \<in> free_ahead s" and k: "k = Min (free_ahead s)"
  shows "free_ahead (take_frame k s) = free_ahead s - {k}"
proof -
  have lt: "k < frames s" and ge: "s_current_index s \<le> k" using assms(1) by (simp_all add: free_ahead_def)
  have least: "k \<le> i" if "i \<in> free_ahead s" for i using that k by simp
  have "k + 1 \<le> i \<longleftrightarrow> k \<le> i \<and> i \<noteq> k" for i
    using word_le_split [OF lt] word_inc_bounds(2) [OF lt] by auto
  moreover have "s_current_index s \<le> i" if "k \<le> i" for i using ge that by simp
  moreover have "i \<in> free_ahead (take_frame k s) \<longleftrightarrow>
      k + 1 \<le> i \<and> i < frames s \<and> i \<noteq> k \<and> \<not> frame_used s i" for i
    using lt by (simp add: free_ahead_def take_frame_used)
  ultimately have "i \<in> free_ahead (take_frame k s) \<longleftrightarrow> i \<in> free_ahead s \<and> i \<noteq> k" for i
    using least [of i] unfolding free_ahead_def by blast
  then show ?thesis by blast
qed

definition pf_idle :: "'a pf \<Rightarrow> bool" where
  "pf_idle s \<longleftrightarrow> (\<forall>b. \<not> pf_held b s)"

lemma pf_idleD: "pf_idle s \<Longrightarrow> \<not> pf_held b s"
  by (simp add: pf_idle_def)

text \<open>The result of a request, in the terms the callers rely on.\<close>

lemma pageframe_request_cases:
  assumes "pf_wf s" "pf_idle s"
  obtains (none) "free_ahead s = {}"
      "pageframe_request s = Some (0, s\<lparr>s_current_index := max (s_current_index s) (frames s)\<rparr>)"
  | (frame) k where "k \<in> free_ahead s" "k = Min (free_ahead s)"
      "pageframe_request s = Some (k * 4096, take_frame k s)" "k < frames s" "k < 2 ^ 52"
proof (cases "free_ahead s = {}")
  case True
  then show thesis using none pageframe_request_empty pf_idleD [OF assms(2)] by blast
next
  case False
  then have k: "Min (free_ahead s) \<in> free_ahead s" by simp
  then have lt: "Min (free_ahead s) < frames s" by (simp add: free_ahead_def)
  then have "Min (free_ahead s) < 2 ^ 52" using pf_wf_frames(2) [OF assms(1)] by (rule order.strict_trans)
  with frame [OF k refl] show thesis
    using lt False assms pageframe_request_take pf_idleD by blast
qed

lemma request_scan_more:
  "pageframe_state.more (snd (request_scan s)) = pageframe_state.more s"
  "s_memory_total_size (snd (request_scan s)) = s_memory_total_size s"
  "s_pageframemap (snd (request_scan s)) = s_pageframemap s"
  by (simp_all add: request_scan_Min)

lemma pageframe_request_more:
  assumes "pageframe_request s = Some (p, t)"
  shows "pageframe_state.more t = pageframe_state.more s"
    "s_memory_total_size t = s_memory_total_size s" "s_pageframemap t = s_pageframemap s"
proof -
  let ?s = "s\<lparr>s_mutex := set_bit 0 (s_mutex s)\<rparr>"
  note more = request_scan_more [of ?s]
  show "pageframe_state.more t = pageframe_state.more s"
    "s_memory_total_size t = s_memory_total_size s" "s_pageframemap t = s_pageframemap s"
    using assms more
    by (auto simp: pageframe_request_def pageframe_spinlock_eq pageframe_unlock_eq Let_def
        split: Option.bind_splits prod.splits if_splits dest: lock_op.op_frame(2,3,5))
qed

section \<open>Nothing free is left behind\<close>

text \<open>The current index is a lower bound of the free frames.\<close>

definition index_inv :: "'a pf \<Rightarrow> bool" where
  "index_inv s \<longleftrightarrow> (\<forall>i. i < s_current_index s \<and> i < frames s \<longrightarrow> frame_used s i)"

lemma index_inv_free_ahead:
  "index_inv s \<Longrightarrow> free_ahead s = {i. i < frames s \<and> \<not> frame_used s i}"
  by (auto simp: index_inv_def free_ahead_def not_le [symmetric])

lemma frame_used_body:
  "frame_used (lock_frame i s) j \<longleftrightarrow> j = i \<and> i \<le> frames s \<or> frame_used s j"
  "frame_used (reserve_frame i s) j \<longleftrightarrow> j = i \<and> i \<le> frames s \<or> frame_used s j"
  "frame_used (free_frame i s) j \<longleftrightarrow> j \<noteq> i \<and> frame_used s j"
  "frame_used (unreserve_frame i s) j \<longleftrightarrow> j \<noteq> i \<and> frame_used s j"
  using frame_used_in_range [of s i]
  by (auto simp: lock_body.used_body reserve_body.used_body free_body.used_body unreserve_body.used_body)

lemma index_body:
  "s_current_index (lock_frame i s) = s_current_index s"
  "s_current_index (reserve_frame i s) = s_current_index s"
  "s_current_index (free_frame i s) = min (s_current_index s) i"
  "s_current_index (unreserve_frame i s) = min (s_current_index s) i"
  by (auto simp: lock_frame_def reserve_frame_def free_frame_def unreserve_frame_def
      pageframe_manipulate_eq Let_def min_def)

lemmas map_bodies = lock_body.map_body reserve_body.map_body free_body.map_body unreserve_body.map_body

lemma index_inv_body:
  assumes "index_inv s"
  shows "index_inv (lock_frame i s)" "index_inv (reserve_frame i s)"
    "index_inv (free_frame i s)" "index_inv (unreserve_frame i s)"
  using assms by (auto simp: index_inv_def frame_used_body index_body map_bodies)

lemma index_inv_ops:
  assumes "index_inv s"
  shows "pageframe_lock pa n s = Some t \<Longrightarrow> index_inv t"
    "pageframe_reserve pa n s = Some t \<Longrightarrow> index_inv t"
    "pageframe_free pa n s = Some t \<Longrightarrow> index_inv t"
    "pageframe_unreserve pa n s = Some t \<Longrightarrow> index_inv t"
  using assms
  by (auto dest!: lock_op.op_SomeD reserve_op.op_SomeD free_op.op_SomeD unreserve_op.op_SomeD
      intro!: word_for_inv [where P = index_inv] index_inv_body)

end
