(* ===== verification/Pageframe_Blocks.thy ===== *)
theory Pageframe_Blocks
  imports Pageframe
begin

text \<open>
  The block allocator \<open>pageframe_request_pages\<close> and the initialisation \<open>pageframe_init\<close>.  The scan of the
  block allocator is total for block sizes below \<open>2 ^ 63\<close>, and finds the least start from the
  current index on whose block holds no used frame; frames behind the end of the map read
  as free, so a block may reach over the end.
\<close>

section \<open>The scan for a block\<close>

definition block_free :: "'a pf \<Rightarrow> u64 \<Rightarrow> u64 \<Rightarrow> bool" where
  "block_free s k n \<longleftrightarrow> (\<forall>j < n. \<not> frame_used s (k + j))"

lemma block_free_index [simp]: "block_free (s\<lparr>s_current_index := c\<rparr>) k n = block_free s k n"
  by (simp add: block_free_def)

lemma block_free_mutex [simp]: "block_free (s\<lparr>s_mutex := m\<rparr>) k n = block_free s k n"
  by (simp add: block_free_def)

lemma first_used_Some:
  "first_used s j n = Some i \<Longrightarrow> j \<le> i \<and> i < n \<and> frame_used s (s_current_index s + i)"
proof (induction s j n rule: first_used.induct)
  case (1 s j n)
  then show ?case
    using word_inc_bounds(3) [of j n i]
    by (auto simp: first_used.simps [of s j n] frame_used_def split: if_splits)
qed

lemma first_used_None:
  "first_used s j n = None \<Longrightarrow> j \<le> i \<Longrightarrow> i < n \<Longrightarrow> \<not> frame_used s (s_current_index s + i)"
proof (induction s j n rule: first_used.induct)
  case (1 s j n)
  then show ?case
    using word_le_split [of j n i]
    by (auto simp: first_used.simps [of s j n] frame_used_def split: if_splits)
qed

lemma block_free_first_used:
  "first_used s 0 n = None \<Longrightarrow> block_free s (s_current_index s) n"
  by (simp add: block_free_def first_used_None)

text \<open>A used frame at offset \<open>j\<close> rules out every start up to it.\<close>

lemma used_blocks_starts:
  assumes "frame_used s (c + j)" and "j < n" and "c \<le> k" and "k \<le> c + j"
    and "unat c + unat j < 2 ^ 64"
  shows "\<not> block_free s k n"
proof -
  have "unat (c + j) = unat c + unat j" using assms(5) by (rule unat_add_no_wrap)
  then have "unat (c + j - k) \<le> unat j"
    using assms(3,4) by (simp add: unat_sub_le word_le_nat_alt)
  then have "c + j - k < n" using assms(2) by (simp add: word_less_nat_alt)
  moreover have "frame_used s (k + (c + j - k))" using assms(1) by simp
  ultimately show ?thesis unfolding block_free_def by blast
qed

text \<open>The state the scan ends in.\<close>

definition scan_result :: "'a pf \<Rightarrow> u64 \<Rightarrow> bool \<Rightarrow> 'a pf \<Rightarrow> bool" where
  "scan_result s n found t \<longleftrightarrow> (\<exists>k. t = s\<lparr>s_current_index := k\<rparr> \<and> s_current_index s \<le> k
     \<and> (\<forall>k'. s_current_index s \<le> k' \<and> k' < k \<and> k' < frames s \<longrightarrow> \<not> block_free s k' n)
     \<and> (found \<longrightarrow> k < frames s \<and> block_free s k n) \<and> (\<not> found \<longrightarrow> frames s \<le> k))"

lemma request_pages_scan_step:
  assumes "frames s < 2 ^ 52" and "n < 2 ^ 63" and "s_current_index s < frames s"
    and "first_used s 0 n = Some j"
  shows "s_current_index s < s_current_index s + (j + 1)"
    and "s_current_index s \<le> k \<Longrightarrow> k < s_current_index s + (j + 1) \<Longrightarrow> \<not> block_free s k n"
proof -
  let ?c = "s_current_index s"
  from first_used_Some [OF assms(4)] have j: "j < n" "frame_used s (?c + j)" by simp_all
  from assms have lt: "unat ?c < 2 ^ 52" "unat j < 2 ^ 63"
    using j(1) by (auto simp: word_less_nat_alt)
  then have sum: "unat (?c + j) = unat ?c + unat j" by (simp add: unat_add_no_wrap)
  have inc: "unat (?c + j + 1) = unat ?c + unat j + 1"
    using lt sum by (simp add: unat_add_no_wrap)
  then show "?c < ?c + (j + 1)" by (simp add: word_less_nat_alt add.assoc)
  assume "?c \<le> k" "k < ?c + (j + 1)"
  then have "k \<le> ?c + j" using inc sum by (simp add: word_less_nat_alt word_le_nat_alt add.assoc)
  then show "\<not> block_free s k n"
    using used_blocks_starts [OF j(2,1) \<open>?c \<le> k\<close>] lt by simp
qed

lemma request_pages_scan_result:
  assumes "frames s < 2 ^ 52" and "n < 2 ^ 63"
  shows "\<exists>found t. request_pages_scan n (frames s) s = Some (found, t) \<and> scan_result s n found t"
  using assms(1)
proof (induction "unat (frames s) - unat (s_current_index s)" arbitrary: s rule: less_induct)
  case less
  let ?c = "s_current_index s"
  note unfold = request_pages_scan.simps [of n "frames s" s]
  show ?case
  proof (cases "?c < frames s")
    case False
    then have "scan_result s n False s" unfolding scan_result_def
      by (intro exI [of _ ?c]) auto
    then show ?thesis using False unfold by auto
  next
    case True
    show ?thesis
    proof (cases "first_used s 0 n")
      case None
      then have "scan_result s n True s" unfolding scan_result_def
        using True block_free_first_used [of s n] by (intro exI [of _ ?c]) auto
      then show ?thesis using True None unfold by auto
    next
      case (Some j)
      let ?t = "s\<lparr>s_current_index := ?c + (j + 1)\<rparr>"
      note step = request_pages_scan_step [OF less.prems assms(2) True Some]
      have "unat (frames ?t) - unat (s_current_index ?t) < unat (frames s) - unat ?c"
        using step(1) True by (simp add: word_less_nat_alt)
      from less.hyps [OF this] less.prems obtain found t where
        t: "request_pages_scan n (frames s) ?t = Some (found, t)" "scan_result ?t n found t"
        by auto
      from t(2) obtain k where k: "t = s\<lparr>s_current_index := k\<rparr>" "?c + (j + 1) \<le> k"
        "\<And>k'. ?c + (j + 1) \<le> k' \<Longrightarrow> k' < k \<Longrightarrow> k' < frames s \<Longrightarrow> \<not> block_free s k' n"
        "found \<Longrightarrow> k < frames s \<and> block_free s k n" "\<not> found \<Longrightarrow> frames s \<le> k"
        by (auto simp: scan_result_def)
      have "\<not> block_free s k' n" if "?c \<le> k'" "k' < k" "k' < frames s" for k'
        using k(3) step(2) that by (cases "k' < ?c + (j + 1)") (simp_all add: not_less)
      then have "scan_result s n found t" unfolding scan_result_def
        using k step(1) by (intro exI [of _ k]) auto
      then show ?thesis using t(1) True Some unfold by auto
    qed
  qed
qed

lemma lock_frame_index_commute:
  "lock_frame i (s\<lparr>s_current_index := c\<rparr>) = (lock_frame i s)\<lparr>s_current_index := c\<rparr>"
  by (rule pageframe_state.equality) (simp_all add: lock_frame_def pageframe_manipulate_eq)

lemma lock_index_commute:
  "word_for a n lock_frame (s\<lparr>s_current_index := c\<rparr>) = (word_for a n lock_frame s)\<lparr>s_current_index := c\<rparr>"
  by (rule word_for_project [symmetric, where h = "\<lambda>s. s\<lparr>s_current_index := c\<rparr>" and P = "\<lambda>_. True"])
    (simp_all add: lock_frame_index_commute)

lemma add_no_wrap_le: "k < (2 ^ 52 :: u64) \<Longrightarrow> n < 2 ^ 63 \<Longrightarrow> k \<le> k + n"
  by (simp add: word_le_nat_alt word_less_nat_alt unat_add_no_wrap)

lemma pageframe_request_pages_cases:
  assumes "pf_wf s" "pf_idle s" "n < 2 ^ 63"
  obtains (none) k where "pageframe_request_pages n s = Some (0, s\<lparr>s_current_index := k\<rparr>)"
      "frames s \<le> k" "s_current_index s \<le> k"
      "\<And>k'. s_current_index s \<le> k' \<Longrightarrow> k' < frames s \<Longrightarrow> \<not> block_free s k' n"
  | (block) k t where "pageframe_request_pages n s = Some (k * 4096, t)"
      "s_current_index s \<le> k" "k < frames s" "block_free s k n"
      "\<And>k'. s_current_index s \<le> k' \<Longrightarrow> k' < k \<Longrightarrow> \<not> block_free s k' n"
      "t = (word_for k (k + n) lock_frame s)\<lparr>s_current_index := k + n\<rparr>"
proof -
  let ?s = "s\<lparr>s_mutex := set_bit 0 (s_mutex s)\<rparr>"
  have acq: "pageframe_spinlock PAGEFRAME_MUTEX_REQUEST s = Some ?s"
    using pf_idleD [OF assms(2), of PAGEFRAME_MUTEX_REQUEST] by (simp add: pageframe_spinlock_eq)
  have lck: "\<not> bit (s_mutex s) 1" "\<not> bit (s_mutex s) 0"
    using pf_idleD [OF assms(2), of PAGEFRAME_MUTEX_LOCK]
      pf_idleD [OF assms(2), of PAGEFRAME_MUTEX_REQUEST] by simp_all
  obtain found t where scan: "request_pages_scan n (frames s) ?s = Some (found, t)"
    and "scan_result ?s n found t"
    using request_pages_scan_result [of ?s n] pf_wf_frames(2) [OF assms(1)] assms(3) by auto
  then obtain k where k: "t = ?s\<lparr>s_current_index := k\<rparr>" "s_current_index s \<le> k"
    "\<And>k'. s_current_index s \<le> k' \<Longrightarrow> k' < k \<Longrightarrow> k' < frames s \<Longrightarrow> \<not> block_free s k' n"
    "found \<Longrightarrow> k < frames s \<and> block_free s k n" "\<not> found \<Longrightarrow> frames s \<le> k"
    by (auto simp: scan_result_def)
  note defs = pageframe_request_pages_def acq scan k(1) pageframe_unlock_eq MEMORY_PAGE_SIZE_def
  show thesis
  proof (cases found)
    case False
    then have "pageframe_request_pages n s = Some (0, s\<lparr>s_current_index := k\<rparr>)"
      using lck by (simp add: defs)
    then show thesis using none k False by force
  next
    case True
    then have lt: "k < frames s" using k by simp
    then have "k < 2 ^ 52" using pf_wf_frames(2) [OF assms(1)] by (rule order.strict_trans)
    then have "k * 4096 div 4096 = k" by (rule frame_page)
    with True lck have "pageframe_request_pages n s =
        Some (k * 4096, (word_for k (k + n) lock_frame s)\<lparr>s_current_index := k + n\<rparr>)"
      by (simp add: defs lock_op.op_result lock_index_commute lock_body.mutex_commute_loop
          lock_body.mutex_loop)
    then show thesis using block [OF _ k(2) lt] k lt True by (auto intro: order.strict_trans)
  qed
qed

section \<open>Initialisation\<close>

lemma page_number_less: "(a :: u64) div 4096 < 2 ^ 52"
proof -
  have "unat a < 2 ^ 52 * 4096" using unat_u64_lt [of a] by simp
  then have "unat a div 4096 < 2 ^ 52" by (rule less_mult_imp_div_less)
  then show ?thesis by (simp add: word_less_nat_alt unat_div)
qed

lemma page_sum_no_wrap: "(a :: u64) div 4096 \<le> a div 4096 + b div 4096"
proof -
  have "b div 4096 < (2 ^ 63 :: u64)"
    by (rule order.strict_trans [OF page_number_less]) (simp add: word_less_nat_alt)
  then show ?thesis by (intro add_no_wrap_le page_number_less)
qed

lemma nearest_page_no_wrap: "(a :: u64) div 4096 \<le> a div 4096 + NEAREST_PAGE n"
  unfolding NEAREST_PAGE_def MEMORY_PAGE_SIZE_def by (rule page_sum_no_wrap)

lemma find_largest_total:
  "snd (find_largest es l t) = t + (\<Sum>e\<leftarrow>es. num_pages e * 4096)"
  by (induction es l t rule: find_largest.induct) (simp_all add: MEMORY_PAGE_SIZE_def)

text \<open>The region chosen is a usable one, and no usable region is larger.\<close>

lemma find_largest_some:
  assumes "find_largest es l t = (r, t')"
  shows "(r = None \<longleftrightarrow> l = None \<and> (\<forall>e \<in> set es. mtype e \<noteq> MEMORY_TYPE_USABLE))
       \<and> (\<forall>x. r = Some x \<longrightarrow> (l = Some x \<or> x \<in> set es \<and> mtype x = MEMORY_TYPE_USABLE)
            \<and> (\<forall>e \<in> set es. mtype e = MEMORY_TYPE_USABLE \<longrightarrow> num_pages e \<le> num_pages x)
            \<and> (\<forall>y. l = Some y \<longrightarrow> num_pages y \<le> num_pages x))"
  using assms
proof (induction es l t rule: find_largest.induct)
  case (2 e es l t)
  then show ?case
    by (cases l; cases "mtype e = MEMORY_TYPE_USABLE"; cases "num_pages e > num_pages (the l)") auto
qed auto

text \<open>What an operation on a range does to a state with no lock held, in one elimination rule.\<close>

context range_operation
begin

lemma op_idleE:
  assumes "pf_idle s" and "pa div 4096 \<le> pa div 4096 + n"
  obtains t where "op pa n s = Some t" "pf_idle t" "s_pageframemap t = s_pageframemap s"
    "s_memory_total_size t = s_memory_total_size s" "s_current_index t \<le> s_current_index s"
    "\<And>j. frame_used t j = (if j \<in> page_range pa n \<and> j \<le> frames s then v else frame_used s j)"
proof -
  obtain t where t: "op pa n s = Some t" using op_result pf_idleD [OF assms(1)] by blast
  with assms(1) have "pf_idle t" by (simp add: pf_idle_def op_frame)
  with t show thesis by (rule that) (simp_all add: op_frame [OF t] op_used [OF t assms(2)])
qed

end

definition usable_frames :: "MemoryMapEntry list \<Rightarrow> u64 set" where
  "usable_frames es = (\<Union>e \<in> {e \<in> set es. mtype e = MEMORY_TYPE_USABLE}.
     page_range (physical_base e) (num_pages e * 4096 div 4096))"

lemma usable_frames_Cons:
  "usable_frames (e # es) =
     (if mtype e = MEMORY_TYPE_USABLE then page_range (physical_base e) (num_pages e * 4096 div 4096) else {})
     \<union> usable_frames es"
  by (auto simp: usable_frames_def)

lemma unreserve_usableE:
  assumes "pf_idle s"
  obtains t where "unreserve_usable es s = Some t" "pf_idle t"
    "s_pageframemap t = s_pageframemap s" "s_memory_total_size t = s_memory_total_size s"
    "s_current_index t \<le> s_current_index s"
    "\<And>j. frame_used t j \<longleftrightarrow> frame_used s j \<and> j \<notin> usable_frames es"
  using assms
proof (induction es arbitrary: s thesis)
  case Nil
  then show ?case by (simp add: usable_frames_def)
next
  case (Cons e es)
  show ?case
  proof (cases "mtype e = MEMORY_TYPE_USABLE")
    case False
    then show ?thesis
      using Cons.prems(1) Cons.IH [OF _ Cons.prems(2)]
      by (simp add: usable_frames_Cons) blast
  next
    case True
    obtain u where u: "pageframe_unreserve (physical_base e) (num_pages e * 4096 div 4096) s = Some u"
      "pf_idle u" "s_pageframemap u = s_pageframemap s" "s_memory_total_size u = s_memory_total_size s"
      "s_current_index u \<le> s_current_index s" "\<And>j. frame_used u j = (if j \<in> page_range (physical_base e) (num_pages e * 4096 div 4096)
         \<and> j \<le> frames s then False else frame_used s j)"
      by (rule unreserve_op.op_idleE
          [OF Cons.prems(2) page_sum_no_wrap [of "physical_base e" "num_pages e * 4096"]]) (rule that)
    obtain t where t: "unreserve_usable es u = Some t" "pf_idle t"
      "s_pageframemap t = s_pageframemap u" "s_memory_total_size t = s_memory_total_size u"
      "s_current_index t \<le> s_current_index u" "\<And>j. frame_used t j \<longleftrightarrow> frame_used u j \<and> j \<notin> usable_frames es"
      using Cons.IH [OF _ u(2)] by blast
    show ?thesis
    proof (rule Cons.prems(1))
      show "unreserve_usable (e # es) s = Some t" using True u(1) t(1) by (simp add: MEMORY_PAGE_SIZE_def)
      show "frame_used t j \<longleftrightarrow> frame_used s j \<and> j \<notin> usable_frames (e # es)" for j
        using True frame_used_in_range [of s j] by (auto simp: t(6) u(6) usable_frames_Cons)
    qed (use t u in simp_all)
  qed
qed

lemma init_bitmap_frames:
  assumes "bm = \<lparr>bm_buffer = b, bm_size = (n :: u64) div 4096 div 8\<rparr>"
  shows "bm_size bm < 2 ^ 49" and "bitmap_adjusted_size bm \<le> n div 4096"
    and "unat (n div 4096 div 8) * 8 < 2 ^ 64"
proof -
  have size: "unat (bm_size bm) = unat n div 4096 div 8" using assms by (simp add: unat_div)
  also have "unat n div 4096 div 8 < 2 ^ 49"
    using unat_u64_lt [of n] by (simp add: less_mult_imp_div_less flip: div_mult2_eq)
  finally have lt: "unat (bm_size bm) < 2 ^ 49" .
  then show "bm_size bm < 2 ^ 49" by (simp add: word_less_nat_alt)
  show "unat (n div 4096 div 8) * 8 < 2 ^ 64" using lt size by (simp add: unat_div)
  have "unat (bitmap_adjusted_size bm) = unat n div 4096 div 8 * 8"
    using lt by (simp add: bitmap_adjusted_size_def BITMAP_SCALE_def unat_mult_no_wrap size)
  also have "\<dots> \<le> unat n div 4096" by (rule div_times_less_eq_dividend)
  finally show "bitmap_adjusted_size bm \<le> n div 4096" by (simp add: word_le_nat_alt unat_div)
qed

lemma pageframe_init_result:
  assumes "pf_idle s" and l: "find_largest (entries mm) None (s_memory_total_size s) = (Some l, n)"
  shows "\<exists>t. pageframe_init vb ks ke mm s = Some t \<and> pf_idle t \<and> pf_wf t
    \<and> s_current_index t \<le> s_current_index s \<and> s_memory_total_size t = n
    \<and> s_pageframemap t = \<lparr>bm_buffer = physical_base l, bm_size = n div 4096 div 8\<rparr>
    \<and> (\<forall>i < frames t. frame_used t i \<longleftrightarrow> i \<notin> usable_frames (entries mm)
        \<or> i \<in> page_range (physical_base l) (NEAREST_PAGE (n div 4096 div 8))
        \<or> i \<in> page_range (ks - vb) (NEAREST_PAGE (ke - ks)) \<or> i < 256)"
proof -
  define bm where "bm = \<lparr>bm_buffer = physical_base l, bm_size = n div 4096 div 8\<rparr>"
  note bm_frames = init_bitmap_frames [OF bm_def]
  have buffer: "bm_buffer bm = physical_base l" by (simp add: bm_def)
  define s1 where "s1 = s\<lparr>s_memory_total_size := n, mem := memset (mem s) (physical_base l) 0 (n div 4096 div 8),
     s_pageframemap := bm\<rparr>"
  have s1: "pf_idle s1" "s_pageframemap s1 = bm" "s_memory_total_size s1 = n"
    "s_current_index s1 = s_current_index s"
    using assms(1) by (simp_all add: s1_def pf_idle_def)
  obtain s2 where s2: "pageframe_reserve 0 (n div 4096) s1 = Some s2" "pf_idle s2"
    "s_pageframemap s2 = s_pageframemap s1" "s_memory_total_size s2 = s_memory_total_size s1"
    "s_current_index s2 \<le> s_current_index s1" "\<And>j. frame_used s2 j = (if j \<in> page_range 0 (n div 4096)
       \<and> j \<le> frames s1 then True else frame_used s1 j)"
    by (rule reserve_op.op_idleE [OF s1(1) page_sum_no_wrap [of 0 n]]) (rule that)
  obtain s3 where s3: "unreserve_usable (entries mm) s2 = Some s3" "pf_idle s3"
    "s_pageframemap s3 = s_pageframemap s2" "s_memory_total_size s3 = s_memory_total_size s2"
    "s_current_index s3 \<le> s_current_index s2"
    "\<And>j. frame_used s3 j \<longleftrightarrow> frame_used s2 j \<and> j \<notin> usable_frames (entries mm)"
    using unreserve_usableE [OF s2(2)] by blast
  obtain s4 where s4: "pageframe_lock (physical_base l) (NEAREST_PAGE (bm_size bm)) s3 = Some s4"
    "pf_idle s4" "s_pageframemap s4 = s_pageframemap s3" "s_memory_total_size s4 = s_memory_total_size s3"
    "s_current_index s4 \<le> s_current_index s3" "\<And>j. frame_used s4 j = (if j \<in>
       page_range (physical_base l) (NEAREST_PAGE (bm_size bm)) \<and> j \<le> frames s3 then True else frame_used s3 j)"
    by (rule lock_op.op_idleE [OF s3(2) nearest_page_no_wrap [of "physical_base l" "bm_size bm"]]) (rule that)
  obtain s5 where s5: "pageframe_lock (ks - vb) (NEAREST_PAGE (ke - ks)) s4 = Some s5"
    "pf_idle s5" "s_pageframemap s5 = s_pageframemap s4" "s_memory_total_size s5 = s_memory_total_size s4"
    "s_current_index s5 \<le> s_current_index s4" "\<And>j. frame_used s5 j = (if j \<in>
       page_range (ks - vb) (NEAREST_PAGE (ke - ks)) \<and> j \<le> frames s4 then True else frame_used s4 j)"
    by (rule lock_op.op_idleE [OF s4(2) nearest_page_no_wrap [of "ks - vb" "ke - ks"]]) (rule that)
  obtain s6 where s6: "pageframe_reserve 0 256 s5 = Some s6" "pf_idle s6"
    "s_pageframemap s6 = s_pageframemap s5" "s_memory_total_size s6 = s_memory_total_size s5"
    "s_current_index s6 \<le> s_current_index s5" "\<And>j. frame_used s6 j = (if j \<in> page_range 0 256
       \<and> j \<le> frames s5 then True else frame_used s5 j)"
    by (rule reserve_op.op_idleE [OF s5(2), of 0 256]) (simp, rule that)
  note chain = s1(1,2,3) s2(1-4) s3(1-4) s4(1-4) s5(1-4) s6(1-4)
  have "pageframe_init vb ks ke mm s = Some s6"
    using chain buffer by (simp add: pageframe_init_def l bitmap_initialize_def bm_def [symmetric] s1_def [symmetric]
        MEMORY_PAGE_SIZE_def BITMAP_SCALE_def KERNEL_PHYSICAL_ADDRESS_def
        PAGEFRAME_INITIAL_RESERVE_PAGES_def)
  moreover have "s_current_index s6 \<le> s_current_index s"
    using s1(4) s2(5) s3(5) s4(5) s5(5) s6(5) by simp
  moreover have "pf_wf s6" using chain bm_frames(1) by (simp add: pf_wf_def)
  moreover have "frame_used s6 i \<longleftrightarrow> i \<notin> usable_frames (entries mm)
        \<or> i \<in> page_range (physical_base l) (NEAREST_PAGE (n div 4096 div 8))
        \<or> i \<in> page_range (ks - vb) (NEAREST_PAGE (ke - ks)) \<or> i < 256" if "i < frames s6" for i
  proof -
    have i: "i < bitmap_adjusted_size bm" using that chain by simp
    then have "i \<in> page_range 0 (n div 4096)" using bm_frames(2) by (simp add: page_range_def)
    then show ?thesis
      using i chain by (simp add: s6(6) s5(6) s4(6) s3(6) s2(6)) (auto simp: page_range_def bm_def)
  qed
  ultimately show ?thesis using chain bm_def by auto
qed

end
