(* ===== verification/Pageframe_Props.thy ===== *)
theory Pageframe_Props
  imports Pageframe_Blocks
begin

text \<open>
  What the page frame allocator promises: sequences of its operations as a step relation,
  with the invariants they keep, and the properties of the component with their witnesses.
\<close>

section \<open>Sequences of operations\<close>







text \<open>A number of requests in a row, with the pages they return.\<close>

primrec requests :: "nat \<Rightarrow> 'a pf \<Rightarrow> (addr list \<times> 'a pf) option" where
  "requests 0 s = Some ([], s)"
| "requests (Suc n) s = do {
     (p, s) \<leftarrow> pageframe_request s;
     (ps, s) \<leftarrow> requests n s;
     Some (p # ps, s) }"

lemma requests_result:
  assumes "pf_wf s" "pf_idle s" "n \<le> card (free_ahead s)"
  shows "\<exists>ks t. requests n s = Some (map (\<lambda>k. k * 4096) ks, t) \<and> length ks = n \<and> distinct ks
     \<and> set ks \<subseteq> free_ahead s \<and> (\<forall>j. frame_used t j \<longleftrightarrow> frame_used s j \<or> j \<in> set ks)"
  using assms
proof (induction n arbitrary: s)
  case (Suc n)
  from Suc.prems(1,2) show ?case
  proof (cases rule: pageframe_request_cases)
    case (frame k)
    let ?t = "take_frame k s"
    have ahead: "free_ahead ?t = free_ahead s - {k}" using frame by (intro take_frame_free_ahead)
    moreover have "pf_wf ?t" "pf_idle ?t" using Suc.prems by (simp_all add: pf_wf_def pf_idle_def)
    moreover have "n \<le> card (free_ahead ?t)" using ahead Suc.prems(3) frame(1) by simp
    ultimately obtain ks u where "requests n ?t = Some (map (\<lambda>k. k * 4096) ks, u)" "length ks = n"
      "distinct ks" "set ks \<subseteq> free_ahead s - {k}"
      "\<And>j. frame_used u j \<longleftrightarrow> frame_used ?t j \<or> j \<in> set ks"
      using Suc.IH by metis
    then show ?thesis
      using frame by (intro exI [of _ "k # ks"] exI [of _ u]) (auto simp: take_frame_used)
  qed (use Suc.prems in simp)
qed simp

section \<open>Accounting\<close>

lemma lock_loop_accounting:
  assumes "a \<le> n" and "n \<le> frames s"
  shows "s_memory_used_size (word_for a n lock_frame s) = s_memory_used_size s + (n - a) * 4096"
proof -
  let ?P = "\<lambda>j t. s_pageframemap t = s_pageframemap s
     \<and> s_memory_used_size t = s_memory_used_size s + (j - a) * 4096"
  have "?P n (word_for a n lock_frame s)"
  proof (rule word_for_rule [where P = ?P])
    fix j t assume j: "a \<le> j" "j < n" and P: "?P j t"
    have "j \<le> frames s" using j(2) assms(2) by simp
    with P show "?P (j + 1) (lock_frame j t)"
      by (simp add: lock_frame_def pageframe_manipulate_eq MEMORY_PAGE_SIZE_def algebra_simps)
  qed (use assms in simp_all)
  then show ?thesis by blast
qed

section \<open>Properties\<close>

definition used_set :: "'a pf \<Rightarrow> u64 set" where
  "used_set s = {i. frame_used s i}"

text \<open>A small allocator: eight frames, described by one byte at \<open>0x1000\<close>.\<close>

definition example_pf :: "u8 \<Rightarrow> 'a \<Rightarrow> 'a pf" where
  "example_pf bits x = \<lparr>mem = (\<lambda>_. 0)(0x1000 := bits), ports = [], s_memory_total_size = 0x8000,
     s_memory_used_size = 0, s_memory_reserved_size = 0,
     s_pageframemap = \<lparr>bm_buffer = 0x1000, bm_size = 1\<rparr>, s_current_index = 0, s_mutex = 0, \<dots> = x\<rparr>"

lemma example_pf_good: "pf_wf (example_pf b x)" "pf_idle (example_pf b x)" "index_inv (example_pf b x)"
  by (simp_all add: example_pf_def pf_wf_def pf_idle_def index_inv_def)

lemma example_pf_simps: "s_current_index (example_pf b x) = 0"
  "s_pageframemap (example_pf b x) = \<lparr>bm_buffer = 0x1000, bm_size = 1\<rparr>"
  "bitmap_adjusted_size \<lparr>bm_buffer = 0x1000, bm_size = 1\<rparr> = 8"
  by (simp_all add: example_pf_def bitmap_adjusted_size_def BITMAP_SCALE_def)

lemma example_pf_used:
  "frame_used (example_pf b x) i \<longleftrightarrow> i < 8 \<and> bit b (7 - unat i)"
proof -
  consider "i < 8" | "i = 8" | "8 < i" by (rule linorder_cases)
  then show ?thesis
  proof cases
    case 1
    then have lt: "unat i < 8" by (simp add: word_less_nat_alt)
    then have "unat (i div 8) = 0" by (simp add: unat_div)
    then have "i div 8 = 0" by (simp add: unsigned_eq_0_iff)
    moreover have "i \<le> 8" using 1 by (rule order.strict_implies_order)
    ultimately show ?thesis
      using lt 1 by (simp add: frame_used_def bitmap_get_bit example_pf_def bitmap_adjusted_size_def
          byte_address_def BITMAP_SCALE_def)
  qed (auto simp: frame_used_def bitmap_get_bit example_pf_def bitmap_adjusted_size_def
      byte_address_def BITMAP_SCALE_def)
qed

text \<open>
  C4. A request for one frame returns, with the lock word as before.  It returns \<open>NULL\<close> exactly
  when no frame from the current index on is free; otherwise the page of the least such
  frame, which was free and is the only frame that becomes used.
\<close>

theorem pageframe_request_fresh:
  assumes "pf_wf s" and "pf_idle s" and "frame_used s 0"
  shows "\<exists>p t. pageframe_request s = Some (p, t) \<and> s_mutex t = s_mutex s
     \<and> (p = 0 \<longleftrightarrow> free_ahead s = {})
     \<and> (p = 0 \<longrightarrow> (\<forall>j. frame_used t j = frame_used s j))
     \<and> (p \<noteq> 0 \<longrightarrow> page_aligned p \<and> p div 4096 < frames s \<and> \<not> frame_used s (p div 4096)
         \<and> (\<forall>j. frame_used t j \<longleftrightarrow> frame_used s j \<or> j = p div 4096)
         \<and> (\<forall>j. s_current_index s \<le> j \<and> j < p div 4096 \<longrightarrow> frame_used s j))"
  using assms(1,2)
proof (cases rule: pageframe_request_cases)
  case none
  then show ?thesis by simp
next
  case (frame k)
  have "\<not> frame_used s k" using frame(1) by (simp add: free_ahead_def)
  with assms(3) have "k \<noteq> 0" by auto
  moreover have "frame_used s j" if "s_current_index s \<le> j" "j < k" for j
  proof -
    have "j \<notin> free_ahead s" using that(2) frame(2) by (metis Min_le finite leD)
    with that frame(4) show ?thesis by (auto simp: free_ahead_def)
  qed
  moreover have "page_aligned (k * 4096)"
    using frame_page(1) [OF frame(5)] by (simp add: page_aligned_unat)
  ultimately show ?thesis
    using frame frame_page [OF frame(5)] \<open>\<not> frame_used s k\<close> by (auto simp: take_frame_used)
qed

theorem pageframe_request_fresh_witness:
  "\<exists>p t. pageframe_request (example_pf 0xC0 ()) = Some (p, t) \<and> p \<noteq> 0
     \<and> \<not> frame_used (example_pf 0xC0 ()) (p div 4096) \<and> frame_used t (p div 4096)"
proof -
  have "2 \<in> free_ahead (example_pf 0xC0 ())"
    by (simp add: free_ahead_def example_pf_simps example_pf_used)
  then show ?thesis
    using pageframe_request_fresh [OF example_pf_good(1,2) [of "0xC0" "()"]]
    by (auto simp: example_pf_used)
qed

text \<open>
  C17. Successive requests hand out different frames: as many requests as there are free
  frames ahead return pairwise different pages of frames that were free, and exactly
  those frames become used.
\<close>

theorem pageframe_requests_distinct:
  assumes "pf_wf s" and "pf_idle s" and "n \<le> card (free_ahead s)"
  shows "\<exists>ps t. requests n s = Some (ps, t) \<and> length ps = n \<and> distinct ps
     \<and> (\<forall>p \<in> set ps. \<not> frame_used s (p div 4096) \<and> p div 4096 < frames s)
     \<and> (\<forall>j. frame_used t j \<longleftrightarrow> frame_used s j \<or> j \<in> (\<lambda>p. p div 4096) ` set ps)"
proof -
  obtain ks t where ks: "requests n s = Some (map (\<lambda>k. k * 4096) ks, t)" "length ks = n"
    "distinct ks" "set ks \<subseteq> free_ahead s"
    "\<And>j. frame_used t j \<longleftrightarrow> frame_used s j \<or> j \<in> set ks"
    using requests_result [OF assms] by blast
  have lt: "k < 2 ^ 52" if "k \<in> set ks" for k
    using that ks(4) pf_wf_frames(2) [OF assms(1)] by (auto simp: free_ahead_def)
  have inv: "k * 4096 div 4096 = k" if "k \<in> set ks" for k
    using lt [OF that] by (rule frame_page)
  then have "inj_on (\<lambda>k. k * 4096) (set ks)"
    by (rule inj_on_inverseI [where g = "\<lambda>p. p div 4096"])
  moreover have "(\<lambda>p. p div 4096) ` (\<lambda>k. k * 4096) ` set ks = set ks"
    using inv by (force simp: image_image)
  ultimately show ?thesis
    using ks inv by (intro exI [of _ "map (\<lambda>k. k * 4096) ks"] exI [of _ t])
      (auto simp: distinct_map free_ahead_def)
qed

theorem pageframe_requests_distinct_witness:
  "\<exists>ps t. requests 3 (example_pf 0xC0 ()) = Some (ps, t) \<and> length ps = 3 \<and> distinct ps"
proof -
  have "{2, 3, 4} \<subseteq> free_ahead (example_pf 0xC0 ())"
    by (simp add: free_ahead_def example_pf_simps example_pf_used)
  from card_mono [OF _ this] have "3 \<le> card (free_ahead (example_pf 0xC0 ()))" by simp
  from pageframe_requests_distinct [OF example_pf_good(1,2) this] show ?thesis by auto
qed



text \<open>
  C18. The range operations implement union and difference on the set of used frames, as far
  as the range lies in the map, and leave the lock word as they found it.  The range of an
  operation wraps only when its end exceeds the 64 bit range.
\<close>

theorem range_operations_refine_sets:
  assumes "pf_idle s" and "pa div 4096 \<le> pa div 4096 + n"
  shows "\<exists>t1 t2 t3 t4. pageframe_lock pa n s = Some t1 \<and> pageframe_reserve pa n s = Some t2
     \<and> pageframe_free pa n s = Some t3 \<and> pageframe_unreserve pa n s = Some t4
     \<and> used_set t1 = used_set s \<union> (page_range pa n \<inter> {..frames s}) \<and> used_set t2 = used_set t1
     \<and> used_set t3 = used_set s - page_range pa n \<and> used_set t4 = used_set t3
     \<and> s_mutex t1 = s_mutex s \<and> s_mutex t2 = s_mutex s \<and> s_mutex t3 = s_mutex s
     \<and> s_mutex t4 = s_mutex s"
proof -
  obtain t1 t2 t3 t4 where t: "pageframe_lock pa n s = Some t1" "pageframe_reserve pa n s = Some t2"
    "pageframe_free pa n s = Some t3" "pageframe_unreserve pa n s = Some t4"
    using lock_op.op_result reserve_op.op_result free_op.op_result unreserve_op.op_result
      pf_idleD [OF assms(1)] by blast
  have "used_set t1 = used_set s \<union> (page_range pa n \<inter> {..frames s})"
    by (auto simp: used_set_def lock_op.op_used [OF t(1) assms(2)])
  moreover have "used_set t2 = used_set t1"
    by (auto simp: used_set_def lock_op.op_used [OF t(1) assms(2)] reserve_op.op_used [OF t(2) assms(2)])
  moreover have "used_set t3 = used_set s - page_range pa n"
    using frame_used_in_range by (auto simp: used_set_def free_op.op_used [OF t(3) assms(2)])
  moreover have "used_set t4 = used_set t3"
    by (auto simp: used_set_def free_op.op_used [OF t(3) assms(2)] unreserve_op.op_used [OF t(4) assms(2)])
  ultimately show ?thesis
    using t lock_op.op_frame(1) [OF t(1)] reserve_op.op_frame(1) [OF t(2)]
      free_op.op_frame(1) [OF t(3)] unreserve_op.op_frame(1) [OF t(4)] by blast
qed

theorem range_operations_refine_sets_witness:
  "\<exists>t1 t3. pageframe_lock 0x2000 3 (example_pf 0x81 ()) = Some t1
     \<and> pageframe_free 0x2000 3 (example_pf 0x81 ()) = Some t3
     \<and> used_set t3 = used_set (example_pf 0x81 ()) - page_range 0x2000 3 \<and> 4 \<in> used_set t1"
proof -
  have "4 \<in> page_range 0x2000 3" by (simp add: page_range_def)
  then show ?thesis
    using range_operations_refine_sets [OF example_pf_good(2) [of "0x81" "()"], of "0x2000" 3]
    by (auto simp: example_pf_simps)
qed

text \<open>
  C19. A request for a block of fewer than \<open>2 ^ 63\<close> frames returns.  It returns the least start from
  the current index on whose block has no used frame and marks the block, as far as it lies
  in the map; or \<open>NULL\<close> when every start in the map meets a used frame.
\<close>

theorem pageframe_request_pages_least:
  assumes "pf_wf s" and "pf_idle s" and "n < 2 ^ 63"
  shows "\<exists>p t. pageframe_request_pages n s = Some (p, t) \<and> s_mutex t = s_mutex s
     \<and> ((p = 0 \<and> used_set t = used_set s
          \<and> (\<forall>k. s_current_index s \<le> k \<and> k < frames s \<longrightarrow> (\<exists>j < n. frame_used s (k + j))))
      \<or> (\<exists>k. p = k * 4096 \<and> s_current_index s \<le> k \<and> k < frames s
          \<and> (\<forall>j < n. \<not> frame_used s (k + j))
          \<and> (\<forall>k'. s_current_index s \<le> k' \<and> k' < k \<longrightarrow> (\<exists>j < n. frame_used s (k' + j)))
          \<and> used_set t = used_set s \<union> ({k..<k + n} \<inter> {..frames s})))"
  using assms
proof (cases rule: pageframe_request_pages_cases)
  case (none k)
  then show ?thesis by (auto simp: block_free_def used_set_def)
next
  case (block k t)
  have "k < 2 ^ 52" using block(3) pf_wf_frames(2) [OF assms(1)] by (rule order.strict_trans)
  then have "k \<le> k + n" using assms(3) by (rule add_no_wrap_le)
  then have "used_set t = used_set s \<union> ({k..<k + n} \<inter> {..frames s})"
    by (auto simp: used_set_def block(6) lock_body.used_loop)
  moreover have "s_mutex t = s_mutex s" by (simp add: block(6) lock_body.mutex_loop)
  ultimately show ?thesis using block unfolding block_free_def by (intro exI [of _ "k * 4096"] exI [of _ t]) auto
qed

theorem pageframe_request_pages_least_witness:
  "\<exists>p t. pageframe_request_pages 2 (example_pf 0xA0 ()) = Some (p, t) \<and> s_mutex t = 0"
  using pageframe_request_pages_least [OF example_pf_good(1,2) [of "0xA0" "()"], of 2]
  by (auto simp: example_pf_def)

text \<open>
  C39. After a failed request for a block every request for one frame fails as well, whatever
  frames are free: the scan leaves the current index behind the end of the map.
\<close>

theorem failed_block_request_exhausts:
  assumes "pf_wf s" and "pf_idle s" and "n < 2 ^ 63" and "frame_used s 0" and "0 < n"
    and "pageframe_request_pages n s = Some (0, t)"
  shows "used_set t = used_set s \<and> (\<exists>u. pageframe_request t = Some (0, u))"
  using assms(1,2,3)
proof (cases rule: pageframe_request_pages_cases)
  case (none k)
  with assms(6) have t: "t = s\<lparr>s_current_index := k\<rparr>" by simp
  with none have "free_ahead t = {}" by (auto simp: free_ahead_def)
  then have "\<exists>u. pageframe_request t = Some (0, u)"
    using pageframe_request_empty [of t] pf_idleD [OF assms(2), of PAGEFRAME_MUTEX_REQUEST] t by simp
  then show ?thesis using t by (simp add: used_set_def)
next
  case (block k u)
  have "k < 2 ^ 52" using block(3) pf_wf_frames(2) [OF assms(1)] by (rule order.strict_trans)
  with block assms(6) have "k = 0" using frame_page(3) by auto
  with block(4) assms(4,5) show ?thesis by (auto simp: block_free_def)
qed

lemma example_block_fails:
  "map_option fst (pageframe_request_pages 2 (example_pf 0xBF ())) = Some 0"
  by code_simp

theorem failed_block_request_exhausts_witness:
  "\<exists>t u. pageframe_request_pages 2 (example_pf 0xBF ()) = Some (0, t) \<and> \<not> frame_used t 1
     \<and> pageframe_request t = Some (0, u)"
proof -
  obtain t where t: "pageframe_request_pages 2 (example_pf 0xBF ()) = Some (0, t)"
    using example_block_fails by auto
  have "frame_used (example_pf 0xBF ()) 0" "\<not> frame_used (example_pf 0xBF ()) 1"
    by (simp_all add: example_pf_used)
  then show ?thesis
    using failed_block_request_exhausts [OF example_pf_good(1,2) _ _ _ t] t
    by (auto simp: used_set_def set_eq_iff)
qed



text \<open>
  C21. Initialisation succeeds when some region is usable.  Then the map lies at the base of
  the largest usable region, and a frame of the map is used exactly when it belongs to no
  usable region, or to the map itself, to the kernel image or to the first 256 frames.
\<close>

theorem pageframe_init_map:
  assumes "pf_idle s" and "s_memory_total_size s = 0"
    and "\<exists>e \<in> set (entries mm). mtype e = MEMORY_TYPE_USABLE"
  shows "\<exists>l t. l \<in> set (entries mm) \<and> mtype l = MEMORY_TYPE_USABLE
     \<and> (\<forall>e \<in> set (entries mm). mtype e = MEMORY_TYPE_USABLE \<longrightarrow> num_pages e \<le> num_pages l)
     \<and> pageframe_init vb ks ke mm s = Some t \<and> pf_idle t \<and> pf_wf t
     \<and> memory_get_total_size t = (\<Sum>e\<leftarrow>entries mm. num_pages e * 4096)
     \<and> bm_buffer (s_pageframemap t) = physical_base l
     \<and> (\<forall>i < frames t. frame_used t i \<longleftrightarrow> i \<notin> usable_frames (entries mm)
        \<or> i \<in> page_range (bm_buffer (s_pageframemap t)) (NEAREST_PAGE (bm_size (s_pageframemap t)))
        \<or> i \<in> page_range (KERNEL_PHYSICAL_ADDRESS vb ks) (NEAREST_PAGE (ke - ks)) \<or> i < 256)"
proof -
  obtain r n where fl: "find_largest (entries mm) None (s_memory_total_size s) = (r, n)" by fastforce
  with find_largest_some [OF fl] assms(3) obtain l where l: "r = Some l" "l \<in> set (entries mm)"
    "mtype l = MEMORY_TYPE_USABLE"
    "\<forall>e \<in> set (entries mm). mtype e = MEMORY_TYPE_USABLE \<longrightarrow> num_pages e \<le> num_pages l"
    by auto
  have n: "n = (\<Sum>e\<leftarrow>entries mm. num_pages e * 4096)"
    using find_largest_total [of "entries mm" None 0] fl assms(2) by simp
  show ?thesis
    using pageframe_init_result [OF assms(1), of mm l n vb ks ke] fl l n
    by (auto simp: KERNEL_PHYSICAL_ADDRESS_def memory_get_total_size_def)
qed

theorem pageframe_init_map_witness:
  "\<exists>t. pageframe_init 0xFFFFFFFF80000000 0xFFFFFFFF80100000 0xFFFFFFFF80200000
      \<lparr>entries = [\<lparr>physical_base = 0, num_pages = 256, mtype = MEMORY_TYPE_UNUSABLE\<rparr>,
        \<lparr>physical_base = 0x100000, num_pages = 768, mtype = MEMORY_TYPE_USABLE\<rparr>]\<rparr> (example_pf 0 ()
          \<lparr>s_memory_total_size := 0\<rparr>) = Some t
     \<and> memory_get_total_size t = 0x400000"
  using pageframe_init_map [of "example_pf 0 ()\<lparr>s_memory_total_size := 0\<rparr>" "\<lparr>entries =
      [\<lparr>physical_base = 0, num_pages = 256, mtype = MEMORY_TYPE_UNUSABLE\<rparr>,
       \<lparr>physical_base = 0x100000, num_pages = 768, mtype = MEMORY_TYPE_USABLE\<rparr>]\<rparr>"
      "0xFFFFFFFF80000000" "0xFFFFFFFF80100000" "0xFFFFFFFF80200000"]
  by (auto simp: pf_idle_def example_pf_def)

text \<open>
  Accounting: locking a range inside the map adds its size to the used size, whether or
  not the frames were in use before, so the used size counts a frame once per lock.
\<close>

lemma pageframe_lock_accounting:
  assumes "pf_idle s" and "pa div 4096 \<le> pa div 4096 + n" and "pa div 4096 + n \<le> frames s"
  shows "\<exists>t u. pageframe_lock pa n s = Some t \<and> pageframe_lock pa n t = Some u
     \<and> used_set u = used_set t
     \<and> memory_get_used_size t = memory_get_used_size s + n * 4096
     \<and> memory_get_used_size u = memory_get_used_size s + 2 * (n * 4096)"
proof -
  obtain t where t: "pageframe_lock pa n s = Some t"
    using lock_op.op_result pf_idleD [OF assms(1)] by blast
  then have idle: "pf_idle t" using assms(1) by (simp add: pf_idle_def lock_op.op_frame)
  obtain u where u: "pageframe_lock pa n t = Some u"
    using lock_op.op_result pf_idleD [OF idle] by blast
  have "memory_get_used_size t = memory_get_used_size s + n * 4096"
    using lock_op.op_SomeD [OF t] lock_loop_accounting [OF assms(2,3)] by (simp add: memory_get_used_size_def)
  moreover have "memory_get_used_size u = memory_get_used_size t + n * 4096"
    using lock_op.op_SomeD [OF u] lock_loop_accounting [OF assms(2), of t] assms(3)
    by (simp add: memory_get_used_size_def lock_op.op_frame(2) [OF t])
  moreover have "used_set u = used_set t"
    by (auto simp: used_set_def lock_op.op_used [OF u assms(2)] lock_op.op_used [OF t assms(2)]
        lock_op.op_frame(2) [OF t])
  ultimately show ?thesis using t u by simp
qed

end
