(* ===== verification/Framebuffer.thy ===== *)
theory Framebuffer
  imports Machine
begin

text \<open>\<^verbatim>\<open>framebuffer.h\<close>: the description of the linear framebuffer and the store of one pixel.\<close>

type_synonym framebuffer_dim = u16

record Framebuffer =
  fb_base :: addr
  fb_width :: framebuffer_dim
  fb_height :: framebuffer_dim
  fb_pitch :: framebuffer_dim
  fb_bpp :: framebuffer_dim

text \<open>The operands are promoted to \<open>int\<close>: the index is computed in 32 bits and sign extended.\<close>

definition framebuffer_putpix32 ::
  "Framebuffer \<Rightarrow> framebuffer_dim \<Rightarrow> framebuffer_dim \<Rightarrow> u32 \<Rightarrow> memory \<Rightarrow> memory" where
  "framebuffer_putpix32 fb x y pix m =
     store32 m (fb_base fb + 4 * signed (ucast y * ucast (fb_width fb) + ucast x :: u32)) pix"

end
