(* ===== verification/Paging.thy ===== *)
theory Paging
  imports Pageframe_Blocks Framebuffer
begin

text \<open>
  \<^verbatim>\<open>memory/paging.c\<close>: the four level page tables of x86-64.  A page table is a page of 512 entries in the
  machine's memory, addressed by \<open>slot\<close>; frames for new tables come from the page frame
  allocator, whose state this component extends by the pointer to the kernel's level 4
  table.  A loop over pages that can run forever, because its pointer wraps, is a partial
  function into \<open>option\<close>.
\<close>

section \<open>Entries\<close>

datatype PageDirectoryFlagBit =
  PAGE_DIRECTORY_PRESENT | PAGE_DIRECTORY_WRITABLE | PAGE_DIRECTORY_USERSPACE
| PAGE_DIRECTORY_WRITETHROUGH | PAGE_DIRECTORY_NOCACHE | PAGE_DIRECTORY_ACCESSED
| PAGE_DIRECTORY_LARGERPAGES | PAGE_DIRECTORY_OS_AVAILABLE | PAGE_DIRECTORY_NOEXECUTE

primrec directory_bit :: "PageDirectoryFlagBit \<Rightarrow> nat" where
  "directory_bit PAGE_DIRECTORY_PRESENT = 0"
| "directory_bit PAGE_DIRECTORY_WRITABLE = 1"
| "directory_bit PAGE_DIRECTORY_USERSPACE = 2"
| "directory_bit PAGE_DIRECTORY_WRITETHROUGH = 3"
| "directory_bit PAGE_DIRECTORY_NOCACHE = 4"
| "directory_bit PAGE_DIRECTORY_ACCESSED = 5"
| "directory_bit PAGE_DIRECTORY_LARGERPAGES = 7"
| "directory_bit PAGE_DIRECTORY_OS_AVAILABLE = 11"
| "directory_bit PAGE_DIRECTORY_NOEXECUTE = 63"

datatype PageTableFlagBit =
  PAGE_TABLE_PRESENT | PAGE_TABLE_WRITABLE | PAGE_TABLE_USERSPACE
| PAGE_TABLE_WRITETHROUGH | PAGE_TABLE_NOCACHE | PAGE_TABLE_ACCESSED
| PAGE_TABLE_PAT | PAGE_TABLE_GLOBAL | PAGE_TABLE_OS_AVAILABLE | PAGE_TABLE_NOEXECUTE

primrec table_bit :: "PageTableFlagBit \<Rightarrow> nat" where
  "table_bit PAGE_TABLE_PRESENT = directory_bit PAGE_DIRECTORY_PRESENT"
| "table_bit PAGE_TABLE_WRITABLE = directory_bit PAGE_DIRECTORY_WRITABLE"
| "table_bit PAGE_TABLE_USERSPACE = directory_bit PAGE_DIRECTORY_USERSPACE"
| "table_bit PAGE_TABLE_WRITETHROUGH = 3"
| "table_bit PAGE_TABLE_NOCACHE = 4"
| "table_bit PAGE_TABLE_ACCESSED = directory_bit PAGE_DIRECTORY_ACCESSED"
| "table_bit PAGE_TABLE_PAT = 7"
| "table_bit PAGE_TABLE_GLOBAL = 8"
| "table_bit PAGE_TABLE_OS_AVAILABLE = directory_bit PAGE_DIRECTORY_OS_AVAILABLE"
| "table_bit PAGE_TABLE_NOEXECUTE = directory_bit PAGE_DIRECTORY_NOEXECUTE"

datatype PagePATMode =
  PAGE_PAT_UNCACHED | PAGE_PAT_WRITE_COMBINE | PAGE_PAT_WRITE_THROUGH
| PAGE_PAT_WRITE_PROTECTED | PAGE_PAT_WRITE_BACK | PAGE_PAT_UC_MINUS

primrec pat_value :: "PagePATMode \<Rightarrow> u32" where
  "pat_value PAGE_PAT_UNCACHED = 0"
| "pat_value PAGE_PAT_WRITE_COMBINE = 1"
| "pat_value PAGE_PAT_WRITE_THROUGH = 4"
| "pat_value PAGE_PAT_WRITE_PROTECTED = 5"
| "pat_value PAGE_PAT_WRITE_BACK = 6"
| "pat_value PAGE_PAT_UC_MINUS = 7"

record PageLevelIndexes =
  L4_i :: u16
  L3_i :: u16
  L2_i :: u16
  L1_i :: u16

definition paging_get_indexes :: "addr \<Rightarrow> PageLevelIndexes" where
  "paging_get_indexes address =
     (let a1 = drop_bit 12 address; a2 = drop_bit 9 a1; a3 = drop_bit 9 a2; a4 = drop_bit 9 a3
      in \<lparr>L4_i = ucast (a4 AND 0x01ff), L3_i = ucast (a3 AND 0x01ff),
          L2_i = ucast (a2 AND 0x01ff), L1_i = ucast (a1 AND 0x01ff)\<rparr>)"

definition paging_set_entry_address :: "u64 \<Rightarrow> addr \<Rightarrow> u64" where
  "paging_set_entry_address entry address =
     (entry AND 0xfff0000000000fff) OR push_bit 12 (address AND 0x000000ffffffffff)"

definition paging_get_entry_address :: "u64 \<Rightarrow> addr" where
  "paging_get_entry_address entry = drop_bit 12 (entry AND 0x000ffffffffff000)"

section \<open>State\<close>

record paging_state = pageframe_state +
  s_pagetable_l4 :: addr

type_synonym 'a pg = "'a paging_state_scheme"

definition paging_get_pagetable_l4 :: "'a pg \<Rightarrow> addr" where
  "paging_get_pagetable_l4 s = s_pagetable_l4 s"

section \<open>Mapping\<close>

text \<open>
  One of the three descents of \<open>paging_map_page\<close>: the table the entry \<open>index\<close> of the table
  \<open>t\<close> refers to; a table that is not present is requested, cleared and entered.
\<close>

definition paging_next_table :: "addr \<Rightarrow> u16 \<Rightarrow> 'a pf \<Rightarrow> (addr \<times> 'a pf) option" where
  "paging_next_table t index s = (
     let entry = load64 (mem s) (slot t (ucast index)) in
     if \<not> GET_BIT entry (directory_bit PAGE_DIRECTORY_PRESENT) then do {
       (table, s) \<leftarrow> pageframe_request s;
       let s = s\<lparr>mem := memset (mem s) table 0 MEMORY_PAGE_SIZE\<rparr>;
       let entry = paging_set_entry_address entry (drop_bit 12 table);
       let entry = entry OR int_bit (directory_bit PAGE_DIRECTORY_PRESENT);
       Some (table, s\<lparr>mem := store64 (mem s) (slot t (ucast index)) entry\<rparr>) }
     else Some (push_bit 12 (paging_get_entry_address entry), s))"

definition paging_map_page :: "addr \<Rightarrow> addr \<Rightarrow> addr \<Rightarrow> 'a pf \<Rightarrow> 'a pf option" where
  "paging_map_page pagetable_l4 virtual_address physical_address s = do {
     let indexes = paging_get_indexes virtual_address;
     (pagetable_l3, s) \<leftarrow> paging_next_table pagetable_l4 (L4_i indexes) s;
     (pagetable_l2, s) \<leftarrow> paging_next_table pagetable_l3 (L3_i indexes) s;
     (pagetable_l1, s) \<leftarrow> paging_next_table pagetable_l2 (L2_i indexes) s;
     let a = slot pagetable_l1 (ucast (L1_i indexes));
     let entry = load64 (mem s) a;
     let entry = paging_set_entry_address entry (drop_bit 12 physical_address);
     let entry = entry OR int_bit (table_bit PAGE_TABLE_PRESENT);
     Some (s\<lparr>mem := store64 (mem s) a entry\<rparr>) }"

text \<open>The offset of page \<open>i\<close> in \<open>paging_map\<close>: the product of two values of type \<open>int\<close>, wrapping at 32
  bits, converted to \<open>size_t\<close>.\<close>

definition map_offset :: "u64 \<Rightarrow> u64" where
  "map_offset i = signed (ucast i * 4096 :: u32)"

definition paging_map :: "addr \<Rightarrow> addr \<Rightarrow> addr \<Rightarrow> u64 \<Rightarrow> 'a pf \<Rightarrow> 'a pf option" where
  "paging_map pagetable_l4 virtual_address physical_address pages s =
     word_for_opt 0 pages (\<lambda>i s. let offset = map_offset i in
       paging_map_page pagetable_l4 (virtual_address + offset) (physical_address + offset) s) s"

text \<open>The loop of \<open>paging_identity_map\<close>; the pointer may wrap around.\<close>

partial_function (option) identity_map_loop :: "addr \<Rightarrow> addr \<Rightarrow> addr \<Rightarrow> 'a pf \<Rightarrow> 'a pf option" where
  "identity_map_loop l4 limit ptr s =
     (if ptr < limit
      then do { s \<leftarrow> paging_map_page l4 ptr ptr s; identity_map_loop l4 limit (ptr + MEMORY_PAGE_SIZE) s }
      else Some s)"

definition paging_identity_map :: "addr \<Rightarrow> u64 \<Rightarrow> 'a pg \<Rightarrow> 'a pg option" where
  "paging_identity_map address pages s =
     identity_map_loop (s_pagetable_l4 s) (address + pages * MEMORY_PAGE_SIZE) address s"

definition paging_identity_map_size :: "addr \<Rightarrow> u64 \<Rightarrow> 'a pg \<Rightarrow> 'a pg option" where
  "paging_identity_map_size address sz s = paging_identity_map address (NEAREST_PAGE sz) s"

section \<open>Attributes\<close>

text \<open>Read an entry, set one flag, write it back; the result is the table it refers to.\<close>

definition set_entry_flag :: "addr \<Rightarrow> u16 \<Rightarrow> nat \<Rightarrow> bool \<Rightarrow> memory \<Rightarrow> addr \<times> memory" where
  "set_entry_flag t index attribute enabled m =
     (let a = slot t (ucast index);
          entry = SET_BIT (load64 m a) attribute enabled
      in (push_bit 12 (paging_get_entry_address entry), store64 m a entry))"

definition set_attribute_page :: "addr \<Rightarrow> addr \<Rightarrow> nat \<Rightarrow> bool \<Rightarrow> memory \<Rightarrow> memory" where
  "set_attribute_page pagetable_l4 virtual_address attribute enabled m =
     (let indexes = paging_get_indexes virtual_address;
          (pagetable_l3, m) = set_entry_flag pagetable_l4 (L4_i indexes) attribute enabled m;
          (pagetable_l2, m) = set_entry_flag pagetable_l3 (L3_i indexes) attribute enabled m;
          (pagetable_l1, m) = set_entry_flag pagetable_l2 (L2_i indexes) attribute enabled m
      in snd (set_entry_flag pagetable_l1 (L1_i indexes) attribute enabled m))"

definition paging_set_attribute ::
  "addr \<Rightarrow> addr \<Rightarrow> u64 \<Rightarrow> PageDirectoryFlagBit \<Rightarrow> bool \<Rightarrow> 'a pf \<Rightarrow> 'a pf" where
  "paging_set_attribute pagetable_l4 virtual_address pages attribute enabled s =
     word_for 0 pages (\<lambda>i s. s\<lparr>mem := set_attribute_page pagetable_l4
       (virtual_address + i * MEMORY_PAGE_SIZE) (directory_bit attribute) enabled (mem s)\<rparr>) s"

text \<open>The body of \<open>paging_set_cache\<close>, which writes back the entries of the upper levels unchanged.\<close>

definition reload_entry :: "addr \<Rightarrow> u16 \<Rightarrow> memory \<Rightarrow> addr \<times> memory" where
  "reload_entry t index m =
     (let a = slot t (ucast index); entry = load64 m a
      in (push_bit 12 (paging_get_entry_address entry), store64 m a entry))"

definition set_cache_page :: "addr \<Rightarrow> addr \<Rightarrow> PagePATMode \<Rightarrow> memory \<Rightarrow> memory" where
  "set_cache_page pagetable_l4 virtual_address mode m =
     (let bit_pat = (drop_bit 2 (pat_value mode) AND 1 \<noteq> 0);
          bit_pcd = (drop_bit 1 (pat_value mode) AND 1 \<noteq> 0);
          bit_pwt = (drop_bit 0 (pat_value mode) AND 1 \<noteq> 0);
          indexes = paging_get_indexes virtual_address;
          (pagetable_l3, m) = reload_entry pagetable_l4 (L4_i indexes) m;
          (pagetable_l2, m) = reload_entry pagetable_l3 (L3_i indexes) m;
          (pagetable_l1, m) = reload_entry pagetable_l2 (L2_i indexes) m;
          a = slot pagetable_l1 (ucast (L1_i indexes));
          entry = load64 m a;
          entry = SET_BIT entry (table_bit PAGE_TABLE_PAT) bit_pat;
          entry = SET_BIT entry (table_bit PAGE_TABLE_NOCACHE) bit_pcd;
          entry = SET_BIT entry (table_bit PAGE_TABLE_WRITETHROUGH) bit_pwt
      in store64 m a entry)"

definition paging_set_cache :: "addr \<Rightarrow> u64 \<Rightarrow> PagePATMode \<Rightarrow> 'a pg \<Rightarrow> 'a pg" where
  "paging_set_cache virtual_address pages mode s =
     word_for 0 pages (\<lambda>i t. t\<lparr>mem := set_cache_page (s_pagetable_l4 s)
       (virtual_address + i * MEMORY_PAGE_SIZE) mode (mem t)\<rparr>) s"

definition paging_set_cache_size :: "addr \<Rightarrow> u64 \<Rightarrow> PagePATMode \<Rightarrow> 'a pg \<Rightarrow> 'a pg" where
  "paging_set_cache_size virtual_address sz mode s = paging_set_cache virtual_address (NEAREST_PAGE sz) mode s"

definition paging_set_writable :: "addr \<Rightarrow> u64 \<Rightarrow> 'a pg \<Rightarrow> 'a pg" where
  "paging_set_writable virtual_address pages s =
     paging_set_attribute (s_pagetable_l4 s) virtual_address pages PAGE_DIRECTORY_WRITABLE True s"

definition paging_set_writable_size :: "addr \<Rightarrow> u64 \<Rightarrow> 'a pg \<Rightarrow> 'a pg" where
  "paging_set_writable_size virtual_address sz s = paging_set_writable virtual_address (NEAREST_PAGE sz) s"

section \<open>Initialisation\<close>

text \<open>The loop that maps the kernel image; \<open>ws\<close> and \<open>we\<close> bound its writable part.\<close>

partial_function (option) map_kernel_loop ::
  "addr \<Rightarrow> addr \<Rightarrow> addr \<Rightarrow> addr \<Rightarrow> addr \<Rightarrow> 'a pg \<Rightarrow> 'a pg option" where
  "map_kernel_loop base limit ws we ptr s =
     (if ptr < limit
      then do {
        let virtual_address = ptr + base;
        s \<leftarrow> paging_map_page (s_pagetable_l4 s) virtual_address ptr s;
        let s = (if ptr \<ge> ws \<and> ptr < we then paging_set_writable virtual_address 1 s else s);
        map_kernel_loop base limit ws we (ptr + MEMORY_PAGE_SIZE) s }
      else Some s)"

fun map_usable :: "MemoryMapEntry list \<Rightarrow> 'a pg \<Rightarrow> 'a pg option" where
  "map_usable [] s = Some s"
| "map_usable (e # es) s =
     (if mtype e \<noteq> MEMORY_TYPE_USABLE then map_usable es s
      else do {
        s \<leftarrow> paging_identity_map (physical_base e) (num_pages e) s;
        map_usable es (paging_set_writable (physical_base e) (num_pages e) s) })"

text \<open>The linker symbols are parameters.\<close>

definition paging_init ::
  "addr \<Rightarrow> addr \<Rightarrow> addr \<Rightarrow> addr \<Rightarrow> addr \<Rightarrow> MemoryMap \<Rightarrow> 'a pg \<Rightarrow> 'a pg option" where
  "paging_init virtual_base kernel_start kernel_end kernel_writable_start kernel_writable_end memorymap s = do {
     (l4, s) \<leftarrow> pageframe_request s;
     let s = s\<lparr>s_pagetable_l4 := l4, mem := memset (mem s) l4 0 MEMORY_PAGE_SIZE\<rparr>;
     s \<leftarrow> map_kernel_loop virtual_base
       (KERNEL_PHYSICAL_ADDRESS virtual_base kernel_end)
       (KERNEL_PHYSICAL_ADDRESS virtual_base kernel_writable_start)
       (KERNEL_PHYSICAL_ADDRESS virtual_base kernel_writable_end)
       (KERNEL_PHYSICAL_ADDRESS virtual_base kernel_start) s;
     s \<leftarrow> map_usable (entries memorymap) s;
     paging_identity_map_size 0 (memory_get_total_size s) s }"

text \<open>The framebuffer is the one of the boot information; its size is an \<open>int\<close> product.\<close>

definition paging_init_pat :: "Framebuffer \<Rightarrow> 'a pg \<Rightarrow> 'a pg" where
  "paging_init_pat framebuffer s =
     paging_set_cache_size (fb_base framebuffer)
       (signed (ucast (fb_pitch framebuffer) * ucast (fb_height framebuffer) :: u32)) PAGE_PAT_UNCACHED s"

end
