(* ===== verification/Page_Walk.thy ===== *)
theory Page_Walk
  imports Machine
begin

text \<open>
  The translation the processor performs on a tree of page tables, as the specification of
  \<^verbatim>\<open>memory/paging.c\<close>.  A path is a list of table indices; \<open>descend\<close> follows it from the level 4
  table, and the translation of an address follows the path of its four indices.  The tree
  is the partial function from paths to the addresses they lead to: entering a new table or
  a page is an update of that function at one path, provided that no table is reached along
  two paths.
\<close>

section \<open>Descending\<close>

definition entry_address :: "u64 \<Rightarrow> addr" where
  "entry_address e = e AND push_bit 12 (mask 40)"

definition entry_next :: "memory \<Rightarrow> addr \<Rightarrow> u64 \<Rightarrow> addr option" where
  "entry_next m t i = (let e = load64 m (slot t i) in if bit e 0 then Some (entry_address e) else None)"

fun descend :: "memory \<Rightarrow> addr \<Rightarrow> u64 list \<Rightarrow> addr option" where
  "descend m t [] = Some t"
| "descend m t (i # is) = do { u \<leftarrow> entry_next m t i; descend m u is }"

definition path_of :: "addr \<Rightarrow> u64 list" where
  "path_of va = map (\<lambda>k. take_bit 9 (drop_bit k va)) [39, 30, 21, 12]"

definition walk :: "memory \<Rightarrow> addr \<Rightarrow> addr \<Rightarrow> addr option" where
  "walk m l4 va = descend m l4 (path_of va)"

definition valid_path :: "u64 list \<Rightarrow> bool" where
  "valid_path p \<longleftrightarrow> (\<forall>i \<in> set p. i < 512)"

lemma valid_path_simps [simp]:
  "valid_path []" "valid_path (i # p) \<longleftrightarrow> i < 512 \<and> valid_path p"
  "valid_path (p @ q) \<longleftrightarrow> valid_path p \<and> valid_path q"
  by (auto simp: valid_path_def)

lemma take_bit_9_less: "take_bit 9 (x :: u64) < 512"
proof -
  have "unat (take_bit 9 x) = unat x mod 512"
    by (simp add: unsigned_take_bit_eq take_bit_eq_mod [where ?'a = nat])
  then show ?thesis by (simp add: word_less_nat_alt)
qed

lemma valid_path_of [simp]: "valid_path (path_of va)"
  by (simp add: path_of_def take_bit_9_less)

lemma descend_append: "descend m t (p @ q) = do { u \<leftarrow> descend m t p; descend m u q }"
  by (induction p arbitrary: t) auto

lemma descend_snoc: "descend m t (p @ [i]) = do { u \<leftarrow> descend m t p; entry_next m u i }"
  by (simp add: descend_append)

lemma entry_address_aligned [simp]: "page_aligned (entry_address e)"
  unfolding page_aligned_def entry_address_def
  by (rule bit_word_eqI) (auto simp: bit_simps)

lemma entry_next_aligned: "entry_next m t i = Some u \<Longrightarrow> page_aligned u"
  by (auto simp: entry_next_def Let_def split: if_splits)

lemma descend_aligned: "page_aligned t \<Longrightarrow> descend m t p = Some u \<Longrightarrow> page_aligned u"
  by (induction p arbitrary: t) (auto split: Option.bind_splits dest: entry_next_aligned)

section \<open>The tree of tables\<close>

text \<open>
  Up to depth 3 a path leads to a table.  In a tree of tables every table lies on a page
  that is in use and not part of the allocator's own data, and only one path leads to it.
\<close>

definition table_at :: "memory \<Rightarrow> addr \<Rightarrow> u64 list \<Rightarrow> addr \<Rightarrow> bool" where
  "table_at m l4 p t \<longleftrightarrow> valid_path p \<and> length p \<le> 3 \<and> descend m l4 p = Some t"

definition table_tree :: "(u64 \<Rightarrow> bool) \<Rightarrow> (addr \<Rightarrow> bool) \<Rightarrow> memory \<Rightarrow> addr \<Rightarrow> bool" where
  "table_tree used own m l4 \<longleftrightarrow> page_aligned l4
     \<and> (\<forall>p t. table_at m l4 p t \<longrightarrow> used (page_of t) \<and> (\<forall>a. own a \<longrightarrow> page_of a \<noteq> page_of t))
     \<and> (\<forall>p q t. table_at m l4 p t \<longrightarrow> table_at m l4 q t \<longrightarrow> p = q)"

lemma table_tree_aligned: "table_tree used own m l4 \<Longrightarrow> table_at m l4 p t \<Longrightarrow> page_aligned t"
  by (auto simp: table_tree_def table_at_def intro: descend_aligned)

lemma table_tree_used:
  "table_tree used own m l4 \<Longrightarrow> table_at m l4 p t \<Longrightarrow> used (page_of t)"
  "table_tree used own m l4 \<Longrightarrow> table_at m l4 p t \<Longrightarrow> own a \<Longrightarrow> page_of a \<noteq> page_of t"
  by (auto simp: table_tree_def)

lemma table_tree_inj: "table_tree used own m l4 \<Longrightarrow> table_at m l4 p t \<Longrightarrow> table_at m l4 q t \<Longrightarrow> p = q"
  by (auto simp: table_tree_def)

text \<open>
  A memory that agrees with \<open>m\<close> on all entries of all tables but entry \<open>i\<close> of the table at
  \<open>p\<close> has the same tree outside the paths through that entry.
\<close>

definition same_but :: "memory \<Rightarrow> memory \<Rightarrow> addr \<Rightarrow> u64 list \<Rightarrow> u64 \<Rightarrow> bool" where
  "same_but m m' l4 p i \<longleftrightarrow> (\<forall>q t j. table_at m l4 q t \<and> j < 512 \<and> (q, j) \<noteq> (p, i)
     \<longrightarrow> load64 m' (slot t j) = load64 m (slot t j))"

lemma descend_same_but:
  assumes "same_but m m' l4 p i"
  shows "valid_path q \<Longrightarrow> length q \<le> 4 \<Longrightarrow> (\<nexists>r. q = p @ i # r) \<Longrightarrow> descend m' l4 q = descend m l4 q"
proof (induction q rule: rev_induct)
  case Nil
  then show ?case by simp
next
  case (snoc j q)
  have "\<nexists>r. q = p @ i # r" using snoc.prems(3) by auto
  then have IH: "descend m' l4 q = descend m l4 q" using snoc by simp
  show ?case
  proof (cases "descend m l4 q")
    case None
    then show ?thesis using IH by (simp add: descend_snoc)
  next
    case (Some t)
    then have "table_at m l4 q t" using snoc.prems by (simp add: table_at_def)
    moreover have "(q, j) \<noteq> (p, i)" using snoc.prems(3) by auto
    ultimately have "load64 m' (slot t j) = load64 m (slot t j)"
      using assms snoc.prems(1) by (simp add: same_but_def)
    then show ?thesis using IH Some by (simp add: descend_snoc entry_next_def)
  qed
qed

lemma descend_through:
  assumes "same_but m m' l4 p i" and "valid_path p" "length p \<le> 3" and "descend m l4 p = Some u"
  shows "descend m' l4 (p @ i # r) = do { t \<leftarrow> entry_next m' u i; descend m' t r }"
proof -
  have "descend m' l4 p = Some u" using descend_same_but [OF assms(1), of p] assms(2-4) by simp
  then show ?thesis by (simp add: descend_append)
qed

text \<open>A memory whose tables have the same entries up to the flags has the same tree.\<close>

definition same_tables :: "memory \<Rightarrow> memory \<Rightarrow> addr \<Rightarrow> bool" where
  "same_tables m m' l4 \<longleftrightarrow> (\<forall>q t j. table_at m l4 q t \<and> j < 512 \<longrightarrow> entry_next m' t j = entry_next m t j)"

lemma descend_same_tables:
  assumes "same_tables m m' l4"
  shows "valid_path q \<Longrightarrow> length q \<le> 4 \<Longrightarrow> descend m' l4 q = descend m l4 q"
proof (induction q rule: rev_induct)
  case (snoc j q)
  then have IH: "descend m' l4 q = descend m l4 q" by simp
  show ?case
  proof (cases "descend m l4 q")
    case (Some t)
    then have "table_at m l4 q t" using snoc.prems by (simp add: table_at_def)
    then have "entry_next m' t j = entry_next m t j" using assms snoc.prems(1) by (simp add: same_tables_def)
    then show ?thesis using IH Some by (simp add: descend_snoc)
  qed (simp add: IH descend_snoc)
qed simp

lemma table_tree_same_tables:
  assumes "same_tables m m' l4" and "table_tree used own m l4"
  shows "table_tree used own m' l4"
proof -
  have "table_at m' l4 q t = table_at m l4 q t" for q t
    using descend_same_tables [OF assms(1)] by (auto simp: table_at_def)
  with assms(2) show ?thesis unfolding table_tree_def by simp
qed

text \<open>A tree that grew: its tables are still there and their entries have the same flags.\<close>

definition tree_grows :: "memory \<Rightarrow> memory \<Rightarrow> addr \<Rightarrow> bool" where
  "tree_grows m m' l4 \<longleftrightarrow> (\<forall>q t. table_at m l4 q t \<longrightarrow> table_at m' l4 q t
     \<and> (\<forall>j b. j < 512 \<and> 0 < b \<and> b < 12 \<longrightarrow> bit (load64 m' (slot t j)) b = bit (load64 m (slot t j)) b))"

lemma tree_grows_refl [simp]: "tree_grows m m l4"
  by (simp add: tree_grows_def)

lemma tree_grows_trans: "tree_grows m m' l4 \<Longrightarrow> tree_grows m' m'' l4 \<Longrightarrow> tree_grows m m'' l4"
  unfolding tree_grows_def by metis

lemma tree_grows_entry:
  assumes tree: "table_tree used own m l4" and same: "same_but m m' l4 p i" and u: "table_at m l4 p u"
    and flags: "\<And>b. 0 < b \<Longrightarrow> b < 12 \<Longrightarrow> bit (load64 m' (slot u i)) b = bit (load64 m (slot u i)) b"
    and desc: "\<And>q. valid_path q \<Longrightarrow> length q \<le> 4 \<Longrightarrow> q \<noteq> p @ [i] \<Longrightarrow> descend m' l4 q = descend m l4 q"
    and new: "length p = 3 \<or> descend m l4 (p @ [i]) = None"
  shows "tree_grows m m' l4"
  unfolding tree_grows_def
proof (intro allI impI conjI)
  fix q t assume q: "table_at m l4 q t"
  then have "q \<noteq> p @ [i]" using new by (auto simp: table_at_def)
  then show "table_at m' l4 q t" using q desc [of q] by (simp add: table_at_def)
  fix j :: u64 and b :: nat assume j: "j < 512 \<and> 0 < b \<and> b < 12"
  show "bit (load64 m' (slot t j)) b = bit (load64 m (slot t j)) b"
  proof (cases "(q, j) = (p, i)")
    case True
    then show ?thesis using q u flags j by (simp add: table_at_def)
  next
    case False
    then show ?thesis using same q j by (simp add: same_but_def)
  qed
qed

section \<open>Entering a page and entering a table\<close>

text \<open>Writing an entry of the table at \<open>p\<close> touches no other entry of any table.\<close>

lemma store_same_but:
  assumes tree: "table_tree used own m l4" and p: "table_at m l4 p u" and "i < 512"
  shows "same_but m (store64 m (slot u i) e) l4 p i"
  unfolding same_but_def
proof (intro allI impI)
  fix q t j assume q: "table_at m l4 q t \<and> j < 512 \<and> (q, j) \<noteq> (p, i)"
  then have "t \<noteq> u \<or> j \<noteq> i" using table_tree_inj [OF tree _ p] by auto
  then show "load64 (store64 m (slot u i) e) (slot t j) = load64 m (slot t j)"
    using q p assms(3) table_tree_aligned [OF tree] by (auto intro: load64_store64_slot)
qed

lemma descend_enter_page:
  assumes tree: "table_tree used own m l4" and p: "table_at m l4 p u" and "length p = 3" and "i < 512"
    and e: "bit e 0" and q: "valid_path q" "length q \<le> 4"
  shows "descend (store64 m (slot u i) e) l4 q = (if q = p @ [i] then Some (entry_address e) else descend m l4 q)"
proof -
  note same = store_same_but [OF tree p \<open>i < 512\<close>, of e]
  show ?thesis
  proof (cases "\<exists>r. q = p @ i # r")
    case True
    then have "q = p @ [i]" using q(2) \<open>length p = 3\<close> by auto
    then show ?thesis
      using descend_through [OF same, of u "[]"] p e by (simp add: table_at_def entry_next_def)
  next
    case False
    then show ?thesis using descend_same_but [OF same] q by auto
  qed
qed

lemma table_tree_enter_page:
  assumes tree: "table_tree used own m l4" and p: "table_at m l4 p u" and "length p = 3" and "i < 512"
    and e: "bit e 0"
  shows "table_tree used own (store64 m (slot u i) e) l4"
proof -
  have "descend (store64 m (slot u i) e) l4 q = descend m l4 q" if "valid_path q" "length q \<le> 3" for q
    using descend_enter_page [OF assms, of q] that \<open>length p = 3\<close> by auto
  then have "table_at (store64 m (slot u i) e) l4 q t = table_at m l4 q t" for q t
    by (auto simp: table_at_def)
  with tree show ?thesis unfolding table_tree_def by simp
qed

text \<open>
  Entering a fresh frame \<open>f\<close> as a table: \<open>m1\<close> is the memory after the allocation, which changed
  the allocator's own data only; the frame is cleared and entered.
\<close>

definition can_link ::
  "(u64 \<Rightarrow> bool) \<Rightarrow> (addr \<Rightarrow> bool) \<Rightarrow> memory \<Rightarrow> memory \<Rightarrow> addr \<Rightarrow> u64 list \<Rightarrow> addr \<Rightarrow> u64 \<Rightarrow> addr \<Rightarrow> u64 \<Rightarrow> bool" where
  "can_link used own m m1 l4 p u i f e \<longleftrightarrow> table_tree used own m l4
     \<and> table_at m l4 p u \<and> length p \<le> 2 \<and> i < 512 \<and> entry_next m u i = None
     \<and> (\<forall>a. \<not> own a \<longrightarrow> m1 a = m a) \<and> page_aligned f \<and> \<not> used (page_of f)
     \<and> (\<forall>a. own a \<longrightarrow> used (page_of a)) \<and> bit e 0 \<and> entry_address e = f"

definition link_table :: "memory \<Rightarrow> addr \<Rightarrow> u64 \<Rightarrow> addr \<Rightarrow> u64 \<Rightarrow> memory" where
  "link_table m1 u i f e = store64 (memset m1 f 0 4096) (slot u i) e"

lemma can_linkD:
  assumes "can_link used own m m1 l4 p u i f e"
  shows "table_tree used own m l4" "table_at m l4 p u" "length p \<le> 2" "i < 512"
    "entry_next m u i = None" "\<not> own a \<Longrightarrow> m1 a = m a" "page_aligned f" "\<not> used (page_of f)"
    "own a \<Longrightarrow> used (page_of a)" "bit e 0" "entry_address e = f"
  using assms by (simp_all add: can_link_def)

lemma can_link_distinct:
  "can_link used own m m1 l4 p u i f e \<Longrightarrow> table_at m l4 q t \<Longrightarrow> page_of t \<noteq> page_of f"
  using can_linkD(1,8) table_tree_used(1) by metis

lemma same_but_link:
  assumes link: "can_link used own m m1 l4 p u i f e"
  shows "same_but m (link_table m1 u i f e) l4 p i"
  unfolding same_but_def
proof (intro allI impI)
  note D = can_linkD [OF link]
  fix q t j assume q: "table_at m l4 q t \<and> j < 512 \<and> (q, j) \<noteq> (p, i)"
  then have "t \<noteq> u \<or> j \<noteq> i" using table_tree_inj [OF D(1) _ D(2)] by auto
  then have "load64 (link_table m1 u i f e) (slot t j) = load64 (memset m1 f 0 4096) (slot t j)"
    unfolding link_table_def using q D(2,4) table_tree_aligned [OF D(1)]
    by (auto intro: load64_store64_slot)
  also have "\<dots> = load64 m (slot t j)"
  proof (rule load64_slot_cong)
    fix b assume b: "page_of b = page_of t"
    then have "\<not> own b" "page_of b \<noteq> page_of f"
      using q table_tree_used(2) [OF D(1)] can_link_distinct [OF link] by auto
    then show "memset m1 f 0 4096 b = m b" using D(6,7) by simp
  qed (use q table_tree_aligned [OF D(1)] in auto)
  finally show "load64 (link_table m1 u i f e) (slot t j) = load64 m (slot t j)" .
qed

lemma linked_entries_absent:
  assumes link: "can_link used own m m1 l4 p u i f e" and j: "j < 512"
  shows "entry_next (link_table m1 u i f e) f j = None"
proof -
  note D = can_linkD [OF link]
  have "f \<noteq> u" using can_link_distinct [OF link D(2)] by auto
  then have "load64 (link_table m1 u i f e) (slot f j) = load64 (memset m1 f 0 4096) (slot f j)"
    unfolding link_table_def using j D(4,7) table_tree_aligned [OF D(1,2)]
    by (auto intro: load64_store64_slot)
  also have "\<dots> = 0" using D(7) j by (rule load64_memset_page)
  finally show ?thesis by (simp add: entry_next_def)
qed

lemma descend_link_table:
  assumes link: "can_link used own m m1 l4 p u i f e" and q: "valid_path q" "length q \<le> 4"
  shows "descend (link_table m1 u i f e) l4 q = (if q = p @ [i] then Some f else descend m l4 q)"
proof (cases "\<exists>r. q = p @ i # r")
  case True
  note D = can_linkD [OF link]
  from True obtain r where r: "q = p @ i # r" by blast
  have "entry_next (link_table m1 u i f e) u i = Some f"
    using D(10,11) by (simp add: link_table_def entry_next_def)
  then have "descend (link_table m1 u i f e) l4 q = descend (link_table m1 u i f e) f r"
    using descend_through [OF same_but_link [OF link]] D(2) by (simp add: r table_at_def)
  moreover have "descend (link_table m1 u i f e) f r = None" if "r \<noteq> []"
    using that q(1) linked_entries_absent [OF link] by (cases r) (auto simp: r)
  moreover have "descend m l4 q = None" using D(2,5) by (simp add: r table_at_def descend_append)
  ultimately show ?thesis using r by (cases r) auto
next
  case False
  then show ?thesis using descend_same_but [OF same_but_link [OF link]] q by auto
qed

lemma table_at_link_table:
  assumes link: "can_link used own m m1 l4 p u i f e"
  shows "table_at (link_table m1 u i f e) l4 q t \<longleftrightarrow> (if q = p @ [i] then t = f else table_at m l4 q t)"
  using descend_link_table [OF link, of q] can_linkD(2-4) [OF link] by (auto simp: table_at_def)

lemma table_tree_link_table:
  assumes link: "can_link used own m m1 l4 p u i f e"
  shows "table_tree (\<lambda>j. used j \<or> j = page_of f) own (link_table m1 u i f e) l4"
  unfolding table_tree_def
proof (intro conjI allI impI)
  note D = can_linkD [OF link] and T = table_at_link_table [OF link]
  show "page_aligned l4" using D(1) by (simp add: table_tree_def)
  fix q t assume q: "table_at (link_table m1 u i f e) l4 q t"
  then show "used (page_of t) \<or> page_of t = page_of f"
    using T table_tree_used(1) [OF D(1)] by (auto split: if_splits)
  show "page_of a \<noteq> page_of t" if "own a" for a
    using q that T D(8) D(9) [OF that] table_tree_used(2) [OF D(1)] by (auto split: if_splits)
  fix r assume "table_at (link_table m1 u i f e) l4 r t"
  with q show "q = r"
    using T can_link_distinct [OF link] table_tree_inj [OF D(1)] by (auto split: if_splits)
qed

end
