(* ===== verification/Frame_Allocator.thy ===== *)
theory Frame_Allocator
  imports Page_Walk
begin

text \<open>
  The interface between the page frame allocator and the page tables: what a client that
  builds tables relies on.  A request hands out an aligned frame of physical memory that is
  not in use and changes only the allocator's own data; stores outside these data leave the
  allocator's state alone.  The client's lemma, proved once from the interface, is that
  a table entry can be filled with a fresh table without disturbing the tree.
\<close>

locale frame_allocator =
  fixes request :: "'s \<Rightarrow> (addr \<times> 's) option"
    and inv :: "'s \<Rightarrow> bool"
    and used :: "'s \<Rightarrow> u64 \<Rightarrow> bool"
    and avail :: "'s \<Rightarrow> nat"
    and own :: "'s \<Rightarrow> addr \<Rightarrow> bool"
    and get_mem :: "'s \<Rightarrow> memory"
    and put_mem :: "memory \<Rightarrow> 's \<Rightarrow> 's"
  assumes request_frame: "inv s \<Longrightarrow> 0 < avail s \<Longrightarrow> \<exists>f t. request s = Some (f, t) \<and> inv t
      \<and> page_aligned f \<and> f < 2 ^ 52 \<and> f \<noteq> 0 \<and> \<not> used s (page_of f)
      \<and> used t = (\<lambda>j. used s j \<or> j = page_of f) \<and> Suc (avail t) = avail s
      \<and> own t = own s \<and> (\<forall>a. \<not> own s a \<longrightarrow> get_mem t a = get_mem s a)"
    and own_used: "inv s \<Longrightarrow> own s a \<Longrightarrow> used s (page_of a)"
    and put_frame: "inv s \<Longrightarrow> (\<And>a. own s a \<Longrightarrow> m a = get_mem s a) \<Longrightarrow>
      inv (put_mem m s) \<and> used (put_mem m s) = used s \<and> avail (put_mem m s) = avail s
      \<and> own (put_mem m s) = own s"
    and get_put: "get_mem (put_mem m s) = m"
begin

text \<open>The tree of tables in a state of the allocator.\<close>

definition tree :: "'s \<Rightarrow> addr \<Rightarrow> bool" where
  "tree s l4 \<longleftrightarrow> inv s \<and> table_tree (used s) (own s) (get_mem s) l4"

text \<open>
  A page of other data is in use, holds no table and no byte of the allocator.  What the client
  does to the tree keeps the contents of all these pages.
\<close>

definition data_page :: "'s \<Rightarrow> addr \<Rightarrow> u64 \<Rightarrow> bool" where
  "data_page s l4 j \<longleftrightarrow> used s j \<and> (\<forall>a. own s a \<longrightarrow> page_of a \<noteq> j)
     \<and> (\<forall>p t. table_at (get_mem s) l4 p t \<longrightarrow> page_of t \<noteq> j)"

definition keeps_data :: "addr \<Rightarrow> 's \<Rightarrow> 's \<Rightarrow> bool" where
  "keeps_data l4 s t \<longleftrightarrow> (\<forall>j. data_page s l4 j \<longrightarrow> data_page t l4 j
     \<and> (\<forall>a. page_of a = j \<longrightarrow> get_mem t a = get_mem s a))"

lemma put_page:
  assumes "inv s" and "page_aligned t" and "i < 512"
    and "\<And>a. own s a \<Longrightarrow> page_of a \<noteq> page_of t"
    and "\<And>a. own s a \<Longrightarrow> m a = get_mem s a"
  shows "own s a \<Longrightarrow> store64 m (slot t i) e a = get_mem s a"
  using store64_slot_other_page [OF assms(2,3)] assms(4,5) by simp

lemma link_fresh_table:
  assumes s: "tree s l4" and av: "0 < avail s" and at: "table_at (get_mem s) l4 p u"
    and p: "length p \<le> 2" and i: "i < 512" and absent: "entry_next (get_mem s) u i = None"
    and ent: "\<And>f. page_aligned f \<Longrightarrow> f < 2 ^ 52 \<Longrightarrow> bit (ent f) 0 \<and> entry_address (ent f) = f"
    and flags: "\<And>f b. 0 < b \<Longrightarrow> b < 12 \<Longrightarrow> bit (ent f) b = bit (load64 (get_mem s) (slot u i)) b"
  shows "\<exists>f t s'. request s = Some (f, t)
    \<and> s' = put_mem (store64 (memset (get_mem t) f 0 4096) (slot u i) (ent f)) t
    \<and> tree s' l4 \<and> Suc (avail s') = avail s \<and> own s' = own s
    \<and> used s' = (\<lambda>j. used s j \<or> j = page_of f) \<and> \<not> used s (page_of f)
    \<and> table_at (get_mem s') l4 (p @ [i]) f \<and> tree_grows (get_mem s) (get_mem s') l4
    \<and> (\<forall>q. valid_path q \<longrightarrow> length q \<le> 4 \<longrightarrow>
        descend (get_mem s') l4 q = (if q = p @ [i] then Some f else descend (get_mem s) l4 q))
    \<and> keeps_data l4 s s'"
proof -
  from s have inv: "inv s" and tt: "table_tree (used s) (own s) (get_mem s) l4" by (simp_all add: tree_def)
  obtain f t where f: "request s = Some (f, t)" "inv t" "page_aligned f" "f < 2 ^ 52"
      "\<not> used s (page_of f)" "used t = (\<lambda>j. used s j \<or> j = page_of f)" "Suc (avail t) = avail s"
      "own t = own s" "\<And>a. \<not> own s a \<Longrightarrow> get_mem t a = get_mem s a"
    using request_frame [OF inv av] by blast
  let ?m = "link_table (get_mem t) u i f (ent f)"
  have link: "can_link (used s) (own s) (get_mem s) (get_mem t) l4 p u i f (ent f)"
    using tt at p i absent f ent [OF f(3,4)] own_used [OF inv] by (simp add: can_link_def)
  have "memset (get_mem t) f 0 4096 a = get_mem t a" if "own t a" for a
    using that own_used [OF inv, of a] f(3,5,8) by auto
  then have "?m a = get_mem t a" if "own t a" for a
    using put_page [OF f(2), of u i] that i f(8) table_tree_aligned [OF tt at] table_tree_used(2) [OF tt at]
    by (simp add: link_table_def)
  then have put: "inv (put_mem ?m t)" "used (put_mem ?m t) = used t" "avail (put_mem ?m t) = avail t"
      "own (put_mem ?m t) = own t"
    using put_frame [OF f(2)] by blast+
  have "tree (put_mem ?m t) l4"
    using table_tree_link_table [OF link] put f by (simp add: tree_def get_put)
  moreover have "table_at ?m l4 (p @ [i]) f" using table_at_link_table [OF link] by simp
  moreover have "tree_grows (get_mem s) ?m l4"
  proof (rule tree_grows_entry [OF tt same_but_link [OF link] at])
    show "length p = 3 \<or> descend (get_mem s) l4 (p @ [i]) = None"
      using at absent by (simp add: table_at_def descend_snoc)
  qed (simp_all add: descend_link_table [OF link], simp add: link_table_def flags)
  moreover have "keeps_data l4 s (put_mem ?m t)"
    unfolding keeps_data_def
  proof (intro allI impI conjI)
    fix j assume j: "data_page s l4 j"
    then have ju: "page_of u \<noteq> j" and jf: "page_of f \<noteq> j" and jo: "\<And>a. own s a \<Longrightarrow> page_of a \<noteq> j"
      using at f(5) by (auto simp: data_page_def)
    show "get_mem (put_mem ?m t) a = get_mem s a" if "page_of a = j" for a
    proof -
      have "page_of a \<noteq> page_of u" "page_of a \<noteq> page_of f" "\<not> own s a" using that ju jf jo by auto
      then show ?thesis
        using f(3,9) store64_slot_other_page [OF table_tree_aligned [OF tt at] i]
        by (simp add: get_put link_table_def)
    qed
    have "page_of v \<noteq> j" if "table_at ?m l4 q v" for q v
    proof (cases "q = p @ [i]")
      case True
      then show ?thesis using that descend_link_table [OF link] jf by (auto simp: table_at_def)
    next
      case False
      then have "table_at (get_mem s) l4 q v"
        using that descend_link_table [OF link, of q] by (auto simp: table_at_def)
      then show ?thesis using j by (simp add: data_page_def)
    qed
    then show "data_page (put_mem ?m t) l4 j"
      using j f put by (auto simp: data_page_def get_put)
  qed
  moreover note descend_link_table [OF link]
  ultimately show ?thesis using f put by (auto simp: get_put link_table_def)
qed

text \<open>Filling an entry of a level 1 table.\<close>

lemma enter_page:
  assumes s: "tree s l4" and at: "table_at (get_mem s) l4 p u" and p: "length p = 3" and i: "i < 512"
    and e: "bit e 0" and flags: "\<And>b. 0 < b \<Longrightarrow> b < 12 \<Longrightarrow> bit e b = bit (load64 (get_mem s) (slot u i)) b"
    and s': "s' = put_mem (store64 (get_mem s) (slot u i) e) s"
  shows "tree s' l4" and "avail s' = avail s" and "used s' = used s" and "own s' = own s"
    and "valid_path q \<Longrightarrow> length q \<le> 4 \<Longrightarrow> descend (get_mem s') l4 q
       = (if q = p @ [i] then Some (entry_address e) else descend (get_mem s) l4 q)"
    and "tree_grows (get_mem s) (get_mem s') l4" and "keeps_data l4 s s'"
proof -
  from s have inv: "inv s" and tt: "table_tree (used s) (own s) (get_mem s) l4" by (simp_all add: tree_def)
  have "store64 (get_mem s) (slot u i) e a = get_mem s a" if "own s a" for a
    using put_page [OF inv, of u i] that i table_tree_aligned [OF tt at] table_tree_used(2) [OF tt at] by simp
  then have put: "inv s'" "used s' = used s" "avail s' = avail s" "own s' = own s"
    using put_frame [OF inv] unfolding s' by blast+
  then show "avail s' = avail s" "used s' = used s" "own s' = own s" by simp_all
  show "tree s' l4" using put table_tree_enter_page [OF tt at p i e] by (simp add: tree_def s' get_put)
  show "valid_path q \<Longrightarrow> length q \<le> 4 \<Longrightarrow> descend (get_mem s') l4 q
       = (if q = p @ [i] then Some (entry_address e) else descend (get_mem s) l4 q)"
    using descend_enter_page [OF tt at p i e] by (simp add: s' get_put)
  show "tree_grows (get_mem s) (get_mem s') l4" unfolding s' get_put
    by (rule tree_grows_entry [OF tt store_same_but [OF tt at i] at])
      (simp_all add: flags descend_enter_page [OF tt at p i e] p)
  have tab: "table_at (get_mem s) l4 q v" if "table_at (get_mem s') l4 q v" for q v
    using that descend_enter_page [OF tt at p i e, of q] p by (auto simp: table_at_def s' get_put split: if_splits)
  have "get_mem s' a = get_mem s a" if "page_of a \<noteq> page_of u" for a
    using that store64_slot_other_page [OF table_tree_aligned [OF tt at] i] by (simp add: s' get_put)
  with tab at show "keeps_data l4 s s'"
    unfolding keeps_data_def data_page_def put(2,4) by metis
qed

end

end
