(* ===== verification/Pageframe_Alloc.thy ===== *)
theory Pageframe_Alloc
  imports Pageframe_Blocks Frame_Allocator
begin

text \<open>
  The page frame allocator provides the interface the page tables rely on.  Its own data are
  the bytes of the frame map.
\<close>

definition map_byte :: "'a pf \<Rightarrow> addr \<Rightarrow> bool" where
  "map_byte s a = in_region (bm_buffer (s_pageframemap s)) (bm_size (s_pageframemap s)) a"

definition frame_in_use :: "'a pf \<Rightarrow> u64 \<Rightarrow> bool" where
  "frame_in_use s i \<longleftrightarrow> i < frames s \<and> frame_used s i"

definition frames_left :: "'a pf \<Rightarrow> nat" where
  "frames_left s = card (free_ahead s)"

text \<open>No lock is held, physical memory has less than \<open>2 ^ 52\<close> bytes, frame 0 is in use and so are
  the frames that hold the map.\<close>

definition pf_alloc_inv :: "'a pf \<Rightarrow> bool" where
  "pf_alloc_inv s \<longleftrightarrow> pf_wf s \<and> pf_idle s \<and> frames s \<le> 2 ^ 40 \<and> frame_in_use s 0
     \<and> (\<forall>a. map_byte s a \<longrightarrow> frame_in_use s (page_of a))"

lemma page_of_div: "page_of a = a div 4096"
  by (simp add: word_unat_eq_iff unat_page_of unat_div)

lemma bitmap_get_outside:
  assumes "pf_wf s" and "\<And>a. map_byte s a \<Longrightarrow> m a = mem s a" and "i < frames s"
  shows "bitmap_get m (s_pageframemap s) i = bitmap_get (mem s) (s_pageframemap s) i"
proof -
  have "unat (bm_size (s_pageframemap s)) * 8 < 2 ^ 64"
    using pf_wf_frames(1) [OF assms(1)] unat_u64_lt [of "frames s"] by simp
  then have "map_byte s (byte_address (s_pageframemap s) i)"
    unfolding map_byte_def using assms(3) by (rule byte_address_in_buffer)
  then show ?thesis using assms(2) by (simp add: bitmap_get_def)
qed

lemma request_frame_pf:
  assumes "pf_alloc_inv s" and "0 < frames_left s"
  shows "\<exists>f t. pageframe_request s = Some (f, t) \<and> pf_alloc_inv t
      \<and> page_aligned f \<and> f < 2 ^ 52 \<and> f \<noteq> 0 \<and> \<not> frame_in_use s (page_of f)
      \<and> frame_in_use t = (\<lambda>j. frame_in_use s j \<or> j = page_of f) \<and> Suc (frames_left t) = frames_left s
      \<and> map_byte t = map_byte s \<and> (\<forall>a. \<not> map_byte s a \<longrightarrow> mem t a = mem s a)"
proof -
  from assms(1) have s: "pf_wf s" "pf_idle s" "frames s \<le> 2 ^ 40" "frame_in_use s 0"
    "\<And>a. map_byte s a \<Longrightarrow> frame_in_use s (page_of a)" by (simp_all add: pf_alloc_inv_def)
  have ne: "free_ahead s \<noteq> {}" using assms(2) by (auto simp: frames_left_def)
  from s(1,2) show ?thesis
  proof (cases rule: pageframe_request_cases)
    case none
    with ne show ?thesis by simp
  next
    case (frame k)
    let ?t = "take_frame k s"
    have k: "k < frames s" "\<not> frame_used s k" using frame(1) by (simp_all add: free_ahead_def)
    have map: "map_byte ?t = map_byte s" by (rule ext) (simp add: map_byte_def)
    have page: "page_of (k * 4096) = k" using frame_page(2) [OF frame(5)] by (simp add: page_of_div)
    have in_use: "frame_in_use ?t = (\<lambda>j. frame_in_use s j \<or> j = k)"
      using k by (auto simp: frame_in_use_def take_frame_used fun_eq_iff)
    have "k \<noteq> 0" using s(4) k by (auto simp: frame_in_use_def)
    then have "k * 4096 \<noteq> 0" using frame_page(3) [OF frame(5)] by simp
    moreover have "pf_alloc_inv ?t"
      unfolding pf_alloc_inv_def map in_use using s by (simp add: pf_wf_def pf_idle_def)
    moreover have "page_aligned (k * 4096)"
      using frame_page(1) [OF frame(5)] by (simp add: page_aligned_unat)
    moreover have "k * 4096 < 2 ^ 52"
    proof -
      have "unat k < 2 ^ 40" using k(1) s(3) by (simp add: word_less_nat_alt word_le_nat_alt)
      then show ?thesis using frame_page(1) [OF frame(5)] by (simp add: word_less_nat_alt)
    qed
    moreover have "\<not> frame_in_use s k" using k by (simp add: frame_in_use_def)
    moreover have "Suc (frames_left ?t) = frames_left s"
      using take_frame_free_ahead [OF frame(1,2)] frame(1) ne by (simp add: frames_left_def card_gt_0_iff)
    moreover have "mem ?t a = mem s a" if "\<not> map_byte s a" for a
      using take_frame_mem [OF s(1) k(1)] that by (simp add: map_byte_def)
    ultimately show ?thesis using frame(3) map in_use page by auto
  qed
qed

lemma put_frame_pf:
  assumes "pf_alloc_inv s" and "\<And>a. map_byte s a \<Longrightarrow> m a = mem s a"
  shows "pf_alloc_inv (s\<lparr>mem := m\<rparr>) \<and> frame_in_use (s\<lparr>mem := m\<rparr>) = frame_in_use s
      \<and> frames_left (s\<lparr>mem := m\<rparr>) = frames_left s \<and> map_byte (s\<lparr>mem := m\<rparr>) = map_byte s"
proof -
  have wf: "pf_wf s" using assms(1) by (simp add: pf_alloc_inv_def)
  have get: "bitmap_get m (s_pageframemap s) i = bitmap_get (mem s) (s_pageframemap s) i"
    if "i < frames s" for i using bitmap_get_outside [OF wf assms(2) that] .
  then have in_use: "frame_in_use (s\<lparr>mem := m\<rparr>) = frame_in_use s"
    by (auto simp: frame_in_use_def frame_used_def fun_eq_iff)
  have map: "map_byte (s\<lparr>mem := m\<rparr>) = map_byte s" by (rule ext) (simp add: map_byte_def)
  have "free_ahead (s\<lparr>mem := m\<rparr>) = free_ahead s"
    using get by (auto simp: free_ahead_def frame_used_def)
  moreover have "pf_alloc_inv (s\<lparr>mem := m\<rparr>)"
    using assms(1) unfolding pf_alloc_inv_def in_use map by (simp add: pf_wf_def pf_idle_def)
  ultimately show ?thesis using in_use map by (simp add: frames_left_def)
qed

interpretation pf_alloc: frame_allocator pageframe_request pf_alloc_inv frame_in_use frames_left map_byte
  mem "\<lambda>m s. s\<lparr>mem := m\<rparr>"
proof unfold_locales
  show "frame_in_use s (page_of a)" if "pf_alloc_inv s" "map_byte s a" for s :: "'a pf" and a
    using that by (simp add: pf_alloc_inv_def)
  show "pf_alloc_inv (s\<lparr>mem := m\<rparr>) \<and> frame_in_use (s\<lparr>mem := m\<rparr>) = frame_in_use s
      \<and> frames_left (s\<lparr>mem := m\<rparr>) = frames_left s \<and> map_byte (s\<lparr>mem := m\<rparr>) = map_byte s"
    if "pf_alloc_inv s" "\<And>a. map_byte s a \<Longrightarrow> m a = mem s a" for s :: "'a pf" and m
    using put_frame_pf that by blast
qed (rule request_frame_pf, assumption+, simp)

end
