(* ===== verification/Paging_Correct.thy ===== *)
theory Paging_Correct
  imports Paging Pageframe_Alloc
begin

text \<open>
  The page table operations against the processor's translation: how the entry macros relate
  to the fields the processor reads, what one descent and what mapping one page do to the
  tree of tables, and how many frames they need.
\<close>

section \<open>Entries\<close>

lemma entry_masks:
  "(0x000ffffffffff000 :: u64) = push_bit 12 (mask 40)"
  "(0xfff0000000000fff :: u64) = NOT (push_bit 12 (mask 40))"
  "(0x000000ffffffffff :: u64) = mask 40"
  "(0x01ff :: u64) = mask 9"
  by (simp_all add: mask_eq_exp_minus_1 push_bit_eq_mult)

lemma get_entry_address: "push_bit 12 (paging_get_entry_address e) = entry_address e"
  unfolding paging_get_entry_address_def entry_address_def entry_masks
  by (rule bit_word_eqI) (auto simp: bit_simps)

lemma bit_set_entry_address:
  "bit (paging_set_entry_address e a) k \<longleftrightarrow> (if 12 \<le> k \<and> k < 52 then bit a (k - 12) else bit e k)"
  unfolding paging_set_entry_address_def entry_masks
  by (auto simp: bit_simps dest: bit_imp_le_length)

lemma bit_int_bit_0: "bit (int_bit 0) k \<longleftrightarrow> k = 0"
  by (rule bit_int_bit) simp

definition present_entry :: "u64 \<Rightarrow> addr \<Rightarrow> u64" where
  "present_entry e pa = paging_set_entry_address e (drop_bit 12 pa) OR int_bit 0"

lemma present_entry_present: "bit (present_entry e pa) 0"
  by (simp add: present_entry_def bit_or_iff bit_int_bit_0)

lemma present_entry_flags:
  "0 < k \<Longrightarrow> k < 12 \<or> 52 \<le> k \<Longrightarrow> bit (present_entry e pa) k = bit e k"
  by (auto simp: present_entry_def bit_or_iff bit_int_bit_0 bit_set_entry_address)

lemma present_entry_low_flags: "0 < k \<Longrightarrow> k < 12 \<Longrightarrow> bit (present_entry e pa) k = bit e k"
  by (simp add: present_entry_flags)

lemma present_entry_address: "entry_address (present_entry e pa) = entry_address pa"
  unfolding entry_address_def
  by (rule bit_word_eqI)
    (auto simp: bit_simps present_entry_def bit_int_bit_0 bit_set_entry_address)

lemma entry_address_frame:
  assumes "page_aligned f" and "f < 2 ^ 52"
  shows "entry_address f = f"
proof (rule bit_word_eqI)
  fix k assume "k < LENGTH(64)"
  have "\<not> bit f k" if "k < 12"
    using assms(1) that unfolding page_aligned_def by (metis bit_0_eq bit_take_bit_iff bot_apply bot_bool_def)
  moreover have "\<not> bit f k" if "52 \<le> k"
  proof -
    have "unat f < 2 ^ 52" using assms(2) by (simp add: word_less_nat_alt)
    then have "unat (take_bit 52 f) = unat f"
      by (simp add: unsigned_take_bit_eq take_bit_eq_mod [where ?'a = nat])
    then have "take_bit 52 f = f" by (simp add: word_unat_eq_iff)
    then show ?thesis using that by (metis bit_take_bit_iff not_le)
  qed
  ultimately show "bit (entry_address f) k = bit f k"
    unfolding entry_address_def by (cases "k < 12"; cases "52 \<le> k") (auto simp: bit_simps)
qed

section \<open>Indices\<close>

lemma ucast_index: "ucast (ucast (x AND mask 9 :: u64) :: u16) = take_bit 9 x"
  by (rule bit_word_eqI) (auto simp: bit_simps)

lemma indexes_path:
  "path_of va = [ucast (L4_i (paging_get_indexes va)), ucast (L3_i (paging_get_indexes va)),
     ucast (L2_i (paging_get_indexes va)), ucast (L1_i (paging_get_indexes va))]"
  by (simp add: path_of_def paging_get_indexes_def Let_def entry_masks ucast_index drop_bit_drop_bit)

section \<open>One descent\<close>

text \<open>The paths of tables the addresses in \<open>A\<close> need and the tree does not have yet; every one
  of them costs a frame.\<close>

definition missing :: "memory \<Rightarrow> addr \<Rightarrow> u64 list set \<Rightarrow> u64 list set" where
  "missing m l4 A = {p. (\<exists>q \<in> A. \<exists>r. q = p @ r) \<and> length p \<le> 3 \<and> descend m l4 p = None}"

definition paging_tree :: "'a pf \<Rightarrow> addr \<Rightarrow> bool" where
  "paging_tree s l4 \<longleftrightarrow> pf_alloc_inv s \<and> table_tree (frame_in_use s) (map_byte s) (mem s) l4"

lemma paging_tree_eq: "paging_tree s l4 = pf_alloc.tree s l4"
  by (simp add: paging_tree_def pf_alloc.tree_def)

text \<open>Pages of other data and the operations that leave them alone.\<close>

definition other_page :: "'a pf \<Rightarrow> addr \<Rightarrow> u64 \<Rightarrow> bool" where
  "other_page s l4 j \<longleftrightarrow> frame_in_use s j \<and> (\<forall>a. map_byte s a \<longrightarrow> page_of a \<noteq> j)
     \<and> (\<forall>p t. table_at (mem s) l4 p t \<longrightarrow> page_of t \<noteq> j)"

definition keeps_other :: "addr \<Rightarrow> 'a pf \<Rightarrow> 'a pf \<Rightarrow> bool" where
  "keeps_other l4 s t \<longleftrightarrow> (\<forall>j. other_page s l4 j \<longrightarrow> other_page t l4 j
     \<and> (\<forall>a. page_of a = j \<longrightarrow> mem t a = mem s a))"

lemma keeps_other_eq: "keeps_other l4 s t = pf_alloc.keeps_data l4 s t"
  by (simp add: keeps_other_def pf_alloc.keeps_data_def other_page_def pf_alloc.data_page_def)

lemma keeps_other_refl [simp]: "keeps_other l4 s s"
  by (simp add: keeps_other_def)

lemma keeps_other_trans: "keeps_other l4 s t \<Longrightarrow> keeps_other l4 t u \<Longrightarrow> keeps_other l4 s u"
  unfolding keeps_other_def by metis

definition enough_frames :: "'a pf \<Rightarrow> addr \<Rightarrow> u64 list set \<Rightarrow> bool" where
  "enough_frames s l4 A \<longleftrightarrow> (\<forall>q \<in> A. valid_path q) \<and> card (missing (mem s) l4 A) \<le> frames_left s"

lemma finite_missing [simp]: "finite (missing m l4 A)"
proof (rule finite_subset)
  show "missing m l4 A \<subseteq> {p. set p \<subseteq> UNIV \<and> length p \<le> 3}" by (auto simp: missing_def)
qed (rule finite_lists_length_le, simp)

text \<open>What an operation on the tree keeps; \<open>C\<close> are the paths it may enter.\<close>

definition tree_step :: "addr \<Rightarrow> u64 list set \<Rightarrow> 'a pf \<Rightarrow> 'a pf \<Rightarrow> bool" where
  "tree_step l4 C s t \<longleftrightarrow> paging_tree t l4 \<and> map_byte t = map_byte s
     \<and> (\<forall>j. frame_in_use s j \<longrightarrow> frame_in_use t j) \<and> tree_grows (mem s) (mem t) l4
     \<and> keeps_other l4 s t \<and> (\<forall>q. valid_path q \<and> length q \<le> 4 \<and> q \<notin> C \<longrightarrow> descend (mem t) l4 q = descend (mem s) l4 q)"

lemma tree_step_refl: "paging_tree s l4 \<Longrightarrow> tree_step l4 C s s"
  by (simp add: tree_step_def)

lemma tree_step_trans: "tree_step l4 C s t \<Longrightarrow> tree_step l4 D t u \<Longrightarrow> tree_step l4 (C \<union> D) s u"
  by (auto simp: tree_step_def intro: tree_grows_trans keeps_other_trans)

lemma paging_next_table_eq:
  "paging_next_table u i s =
     (case entry_next (mem s) u (ucast i) of
        Some t \<Rightarrow> Some (t, s)
      | None \<Rightarrow> do {
          (f, t) \<leftarrow> pageframe_request s;
          Some (f, t\<lparr>mem := store64 (memset (mem t) f 0 4096) (slot u (ucast i))
            (present_entry (load64 (mem s) (slot u (ucast i))) f)\<rparr>) })"
  by (auto simp: paging_next_table_def entry_next_def Let_def GET_BIT_bit get_entry_address
      MEMORY_PAGE_SIZE_def present_entry_def)

lemma paging_next_table_step:
  assumes s: "paging_tree s l4" and at: "table_at (mem s) l4 p u" and p: "length p \<le> 2"
    and A: "enough_frames s l4 A" "p @ ucast i # r \<in> A"
  shows "\<exists>t s'. paging_next_table u i s = Some (t, s') \<and> table_at (mem s') l4 (p @ [ucast i]) t
    \<and> tree_step l4 {p @ [ucast i]} s s' \<and> enough_frames s' l4 A"
proof -
  have vi: "(ucast i :: u64) < 512" using A by (auto simp: enough_frames_def)
  have vp: "valid_path p" using at by (simp add: table_at_def)
  show ?thesis
  proof (cases "entry_next (mem s) u (ucast i)")
    case (Some t)
    then have "table_at (mem s) l4 (p @ [ucast i]) t"
      using at p vi by (simp add: table_at_def descend_snoc)
    then show ?thesis using Some A(1) tree_step_refl [OF s] by (simp add: paging_next_table_eq)
  next
    case None
    then have "descend (mem s) l4 (p @ [ucast i]) = None"
      using at by (simp add: table_at_def descend_snoc)
    then have mis: "p @ [ucast i] \<in> missing (mem s) l4 A"
      using A(2) p by (auto simp: missing_def intro!: bexI exI [of _ r])
    then have "0 < card (missing (mem s) l4 A)" by (auto simp: card_gt_0_iff)
    then have av: "0 < frames_left s" using A(1) by (simp add: enough_frames_def)
    let ?e = "present_entry (load64 (mem s) (slot u (ucast i)))"
    have ent: "bit (?e f) 0 \<and> entry_address (?e f) = f" if "page_aligned f" "f < 2 ^ 52" for f
      using that by (simp add: present_entry_present present_entry_address entry_address_frame)
    obtain f t s' where f: "pageframe_request s = Some (f, t)"
      "s' = t\<lparr>mem := store64 (memset (mem t) f 0 4096) (slot u (ucast i)) (?e f)\<rparr>"
      "pf_alloc.tree s' l4" "Suc (frames_left s') = frames_left s" "map_byte s' = map_byte s"
      "frame_in_use s' = (\<lambda>j. frame_in_use s j \<or> j = page_of f)"
      "table_at (mem s') l4 (p @ [ucast i]) f" "tree_grows (mem s) (mem s') l4"
      "\<And>q. valid_path q \<Longrightarrow> length q \<le> 4 \<Longrightarrow>
        descend (mem s') l4 q = (if q = p @ [ucast i] then Some f else descend (mem s) l4 q)"
      "keeps_other l4 s s'"
      using pf_alloc.link_fresh_table [OF s [unfolded paging_tree_eq] av at p vi None, of ?e] ent
        present_entry_flags unfolding keeps_other_eq by blast
    have step: "tree_step l4 {p @ [ucast i]} s s'"
      using f(3,5,6,8,9,10) by (simp add: tree_step_def paging_tree_eq)
    have "missing (mem s') l4 A \<subseteq> missing (mem s) l4 A - {p @ [ucast i]}"
    proof
      fix x assume x: "x \<in> missing (mem s') l4 A"
      then have vx: "valid_path x" "length x \<le> 4" using A(1) by (auto simp: missing_def enough_frames_def)
      then show "x \<in> missing (mem s) l4 A - {p @ [ucast i]}"
        using x f(9) [OF vx] by (auto simp: missing_def split: if_splits)
    qed
    then have "card (missing (mem s') l4 A) \<le> card (missing (mem s) l4 A) - 1"
      using mis by (metis card_Diff_singleton card_mono finite_Diff finite_missing)
    then have "enough_frames s' l4 A" using A(1) f(4) by (auto simp: enough_frames_def)
    then show ?thesis using None f(1,2,7) step by (auto simp: paging_next_table_eq)
  qed
qed

section \<open>Mapping a page\<close>

text \<open>One page: the path of the address now leads to the page, every other path of a page
  leads where it led.\<close>

lemma paging_map_page_step:
  assumes s: "paging_tree s l4" and A: "enough_frames s l4 A" "path_of va \<in> A"
  shows "\<exists>t. paging_map_page l4 va pa s = Some t \<and> paging_tree t l4 \<and> enough_frames t l4 A
    \<and> map_byte t = map_byte s \<and> (\<forall>j. frame_in_use s j \<longrightarrow> frame_in_use t j)
    \<and> tree_grows (mem s) (mem t) l4 \<and> keeps_other l4 s t
    \<and> (\<forall>va'. walk (mem t) l4 va' = (if path_of va' = path_of va then Some (entry_address pa)
        else walk (mem s) l4 va'))"
proof -
  let ?x = "paging_get_indexes va"
  define i4 i3 i2 i1 :: u64 where "i4 = ucast (L4_i ?x)" and "i3 = ucast (L3_i ?x)"
    and "i2 = ucast (L2_i ?x)" and "i1 = ucast (L1_i ?x)"
  note idef = i4_def i3_def i2_def i1_def
  have path: "path_of va = [i4, i3, i2, i1]" by (simp add: indexes_path idef)
  have at4: "table_at (mem s) l4 [] l4" by (simp add: table_at_def)
  obtain t3 s3 where s3: "paging_next_table l4 (L4_i ?x) s = Some (t3, s3)" "table_at (mem s3) l4 [i4] t3"
    "tree_step l4 {[i4]} s s3" "enough_frames s3 l4 A"
    using paging_next_table_step [OF s at4 _ A(1), of "L4_i ?x" "[i3, i2, i1]"] A(2) path
    by (auto simp: idef)
  obtain t2 s2 where s2: "paging_next_table t3 (L3_i ?x) s3 = Some (t2, s2)" "table_at (mem s2) l4 [i4, i3] t2"
    "tree_step l4 {[i4, i3]} s3 s2" "enough_frames s2 l4 A"
    using paging_next_table_step [OF _ s3(2) _ s3(4), of "L3_i ?x" "[i2, i1]"] A(2) path s3(3)
    by (auto simp: idef tree_step_def)
  obtain t1 s1 where s1: "paging_next_table t2 (L2_i ?x) s2 = Some (t1, s1)" "table_at (mem s1) l4 [i4, i3, i2] t1"
    "tree_step l4 {[i4, i3, i2]} s2 s1" "enough_frames s1 l4 A"
    using paging_next_table_step [OF _ s2(2) _ s2(4), of "L2_i ?x" "[i1]"] A(2) path s2(3)
    by (auto simp: idef tree_step_def)
  let ?e = "present_entry (load64 (mem s1) (slot t1 i1)) pa"
  let ?t = "s1\<lparr>mem := store64 (mem s1) (slot t1 i1) ?e\<rparr>"
  have res: "paging_map_page l4 va pa s = Some ?t"
    using s1 s2 s3 by (simp add: paging_map_page_def Let_def present_entry_def idef)
  have tree1: "pf_alloc.tree s1 l4" using s1(3) by (simp add: tree_step_def paging_tree_eq)
  have vi1: "i1 < 512" using A path by (auto simp: enough_frames_def)
  note leaf = pf_alloc.enter_page [OF tree1 s1(2) _ vi1
      present_entry_present [of "load64 (mem s1) (slot t1 i1)" pa] present_entry_low_flags refl, simplified]
  have steps: "tree_step l4 {[i4], [i4, i3], [i4, i3, i2]} s s1"
    using tree_step_trans [OF tree_step_trans [OF s3(3) s2(3)] s1(3)] by (simp add: insert_commute)
  have low: "descend (mem ?t) l4 q = descend (mem s1) l4 q" if "valid_path q" "length q \<le> 3" for q
    using leaf(5) that by auto
  have "missing (mem ?t) l4 A = missing (mem s1) l4 A"
  proof -
    have "descend (mem ?t) l4 p = descend (mem s1) l4 p" if "q \<in> A" "q = p @ r" "length p \<le> 3" for p q r
      using low that A(1) by (auto simp: enough_frames_def)
    then show ?thesis unfolding missing_def by auto
  qed
  then have "enough_frames ?t l4 A" using s1(4) leaf(2) by (simp add: enough_frames_def)
  moreover have "walk (mem ?t) l4 va' = (if path_of va' = path_of va then Some (entry_address pa)
        else walk (mem s) l4 va')" for va'
  proof -
    have len: "length (path_of va') = 4" by (simp add: path_of_def)
    then have "path_of va' \<notin> {[i4], [i4, i3], [i4, i3, i2]}" by auto
    with len have "descend (mem s1) l4 (path_of va') = descend (mem s) l4 (path_of va')"
      using steps unfolding tree_step_def by simp
    then show ?thesis using leaf(5) [of "path_of va'"] len path
      by (simp add: walk_def present_entry_address)
  qed
  ultimately show ?thesis
    using res leaf(1-4,6,7) steps
    by (auto simp: paging_tree_eq tree_step_def keeps_other_eq [symmetric]
        intro: tree_grows_trans keeps_other_trans)
qed

section \<open>Virtual pages\<close>

text \<open>The number of the page of an address among the \<open>2 ^ 36\<close> pages the tables can describe.\<close>

definition virtual_page :: "addr \<Rightarrow> nat" where
  "virtual_page va = unat va div 4096 mod 2 ^ 36"

lemma take_bit_36_split:
  "take_bit 36 (x :: u64) = take_bit 36 y \<longleftrightarrow>
     take_bit 9 (drop_bit 27 x) = take_bit 9 (drop_bit 27 y) \<and> take_bit 9 (drop_bit 18 x) = take_bit 9 (drop_bit 18 y)
     \<and> take_bit 9 (drop_bit 9 x) = take_bit 9 (drop_bit 9 y) \<and> take_bit 9 x = take_bit 9 y"
  (is "?l \<longleftrightarrow> ?r")
proof
  assume ?l
  then have b: "bit x k = bit y k" if "k < 36" for k
    using that by (metis bit_take_bit_iff)
  show ?r by (intro conjI; rule bit_word_eqI) (auto simp: bit_simps b)
next
  assume r: ?r
  have b: "bit x (d + k) = bit y (d + k)" if "take_bit 9 (drop_bit d x) = take_bit 9 (drop_bit d y)" "k < 9" for d k
    using arg_cong [OF that(1), of "\<lambda>w. bit w k"] that(2) by (simp add: bit_take_bit_iff bit_drop_bit_eq)
  show ?l
  proof (rule bit_word_eqI)
    fix k
    have "k < 36 \<Longrightarrow> bit x k = bit y k"
      using b [of 27 "k - 27"] b [of 18 "k - 18"] b [of 9 "k - 9"] b [of 0 k] r
      by (cases "27 \<le> k"; cases "18 \<le> k"; cases "9 \<le> k") auto
    then show "bit (take_bit 36 x) k = bit (take_bit 36 y) k" by (auto simp: bit_simps)
  qed
qed

lemma path_of_eq: "path_of a = path_of b \<longleftrightarrow> virtual_page a = virtual_page b"
proof -
  have "path_of a = path_of b \<longleftrightarrow> take_bit 36 (page_of a) = take_bit 36 (page_of b)"
    by (auto simp: path_of_def take_bit_36_split page_of_def drop_bit_drop_bit)
  also have "\<dots> \<longleftrightarrow> unat (take_bit 36 (page_of a)) = unat (take_bit 36 (page_of b))"
    by (rule word_unat_eq_iff)
  finally show ?thesis
    by (simp add: virtual_page_def unsigned_take_bit_eq take_bit_eq_mod [where ?'a = nat] unat_page_of)
qed

lemma virtual_page_add:
  "virtual_page (va + i * 4096) = (unat va div 4096 + unat i) mod 2 ^ 36"
proof -
  have "unat (va + i * 4096) = (unat va + unat i * 4096) mod (4096 * 2 ^ 52)"
    by (simp add: unat_word_ariths mod_simps)
  then have "unat (va + i * 4096) div 4096 = (unat va + unat i * 4096) div 4096 mod 2 ^ 52"
    by (simp only: mod_mult2_eq)
  then have "unat (va + i * 4096) div 4096 = (unat va div 4096 + unat i) mod 2 ^ 52"
    by (simp add: add.commute)
  then show ?thesis
    by (simp add: virtual_page_def mod_mod_cancel)
qed

lemma virtual_page_inj:
  assumes "virtual_page (va + i * 4096) = virtual_page (va + j * 4096)" and "unat i < 2 ^ 36" "unat j < 2 ^ 36"
  shows "i = j"
proof -
  obtain a b where "unat va div 4096 + unat i + 2 ^ 36 * a = unat va div 4096 + unat j + 2 ^ 36 * b"
    using assms(1) unfolding virtual_page_add nat_mod_eq_iff by blast
  then have "unat i + 2 ^ 36 * a = unat j + 2 ^ 36 * b" by simp
  then have "unat i mod 2 ^ 36 = unat j mod 2 ^ 36" unfolding nat_mod_eq_iff by blast
  with assms(2,3) show ?thesis by (simp add: word_unat_eq_iff)
qed

section \<open>Mapping a range of pages\<close>

lemma paging_l4_more: "pageframe_state.more t = pageframe_state.more s \<Longrightarrow> s_pagetable_l4 t = s_pagetable_l4 s"
  by (cases s; cases t) simp

lemma paging_map_page_more:
  assumes "paging_map_page l4 va pa s = Some t"
  shows "pageframe_state.more t = pageframe_state.more s" "s_memory_total_size t = s_memory_total_size s"
    "s_pageframemap t = s_pageframemap s"
proof -
  have step: "pageframe_state.more s' = pageframe_state.more s \<and> s_memory_total_size s' = s_memory_total_size s
      \<and> s_pageframemap s' = s_pageframemap s"
    if "paging_next_table u i s = Some (x, s')" for u i x and s s' :: "'a pf"
    using that by (auto simp: paging_next_table_eq pageframe_request_more
        split: option.splits Option.bind_splits prod.splits)
  show "pageframe_state.more t = pageframe_state.more s" "s_memory_total_size t = s_memory_total_size s"
    "s_pageframemap t = s_pageframemap s"
    using assms step
    by (auto simp: paging_map_page_def Let_def split: Option.bind_splits prod.splits)
qed

text \<open>What every mapping operation keeps.\<close>

definition mapping_step :: "addr \<Rightarrow> u64 list set \<Rightarrow> 'a pf \<Rightarrow> 'a pf \<Rightarrow> bool" where
  "mapping_step l4 A s t \<longleftrightarrow> paging_tree t l4 \<and> enough_frames t l4 A
     \<and> pageframe_state.more t = pageframe_state.more s \<and> s_memory_total_size t = s_memory_total_size s
     \<and> s_pageframemap t = s_pageframemap s \<and> map_byte t = map_byte s \<and> (\<forall>j. frame_in_use s j \<longrightarrow> frame_in_use t j)
     \<and> tree_grows (mem s) (mem t) l4 \<and> keeps_other l4 s t"

lemma mapping_step_refl: "paging_tree s l4 \<Longrightarrow> enough_frames s l4 A \<Longrightarrow> mapping_step l4 A s s"
  by (simp add: mapping_step_def)

lemma mapping_step_trans: "mapping_step l4 A s t \<Longrightarrow> mapping_step l4 A t u \<Longrightarrow> mapping_step l4 A s u"
  by (auto simp: mapping_step_def intro: tree_grows_trans keeps_other_trans)

lemma paging_map_page_mapping:
  assumes "paging_tree s l4" and "enough_frames s l4 A" "path_of va \<in> A"
  shows "\<exists>t. paging_map_page l4 va pa s = Some t \<and> mapping_step l4 A s t
    \<and> (\<forall>va'. walk (mem t) l4 va' = (if virtual_page va' = virtual_page va then Some (entry_address pa)
        else walk (mem s) l4 va'))"
  using paging_map_page_step [OF assms, of pa] paging_map_page_more [of l4 va pa s]
  unfolding mapping_step_def path_of_eq by auto

definition page_paths :: "addr \<Rightarrow> u64 \<Rightarrow> u64 list set" where
  "page_paths va n = (\<lambda>i. path_of (va + i * 4096)) ` {i. i < n}"

text \<open>The pages \<open>[0, j)\<close> of a range are mapped and every other page is as before.\<close>

definition range_mapped :: "addr \<Rightarrow> addr \<Rightarrow> addr \<Rightarrow> u64 \<Rightarrow> memory \<Rightarrow> memory \<Rightarrow> bool" where
  "range_mapped l4 va pa j m m' \<longleftrightarrow>
     (\<forall>i < j. walk m' l4 (va + i * 4096) = Some (entry_address (pa + i * 4096)))
     \<and> (\<forall>va'. (\<forall>i < j. virtual_page va' \<noteq> virtual_page (va + i * 4096)) \<longrightarrow> walk m' l4 va' = walk m l4 va')"

lemma map_range:
  assumes s: "paging_tree s l4" and A: "enough_frames s l4 A" "page_paths va n \<subseteq> A" and n: "unat n \<le> 2 ^ 36"
  shows "\<exists>t. word_for_opt 0 n (\<lambda>i. paging_map_page l4 (va + i * 4096) (pa + i * 4096)) s = Some t
    \<and> mapping_step l4 A s t \<and> range_mapped l4 va pa n (mem s) (mem t)"
proof (rule word_for_opt_rule [where P = "\<lambda>j t. mapping_step l4 A s t \<and> range_mapped l4 va pa j (mem s) (mem t)"])
  fix j t
  assume j: "j < n" and t: "mapping_step l4 A s t \<and> range_mapped l4 va pa j (mem s) (mem t)"
  have "path_of (va + j * 4096) \<in> A" using j A(2) by (auto simp: page_paths_def)
  then obtain u where
    u: "paging_map_page l4 (va + j * 4096) (pa + j * 4096) t = Some u" "mapping_step l4 A t u"
      "\<And>va'. walk (mem u) l4 va' = (if virtual_page va' = virtual_page (va + j * 4096)
         then Some (entry_address (pa + j * 4096)) else walk (mem t) l4 va')"
    using paging_map_page_mapping [of t l4 A "va + j * 4096" "pa + j * 4096"] t
    unfolding mapping_step_def by blast
  have less: "i < j + 1 \<longleftrightarrow> i < j \<or> i = j" for i
    by (simp add: word_less_inc [OF j] order.order_iff_strict)
  have dist: "virtual_page (va + i * 4096) \<noteq> virtual_page (va + j * 4096)" if "i < j" for i
    using virtual_page_inj [of va i j] that j n by (auto simp: word_less_nat_alt)
  have "range_mapped l4 va pa (j + 1) (mem s) (mem u)"
    using t dist unfolding range_mapped_def less u(3) by auto
  then show "\<exists>u. paging_map_page l4 (va + j * 4096) (pa + j * 4096) t = Some u
      \<and> mapping_step l4 A s u \<and> range_mapped l4 va pa (j + 1) (mem s) (mem u)"
    using u(1,2) t mapping_step_trans by blast
qed (use mapping_step_refl [OF s A(1)] in \<open>simp_all add: range_mapped_def\<close>)

text \<open>The offset computed in \<open>int\<close> arithmetic is right for the first \<open>2 ^ 19\<close> pages, and negative for
  the next one.\<close>

lemma bit_below: "unat (x :: u64) < 2 ^ n \<Longrightarrow> n \<le> k \<Longrightarrow> \<not> bit x k"
proof -
  assume "unat x < 2 ^ n" and k: "n \<le> k"
  then have "unat (take_bit n x) = unat x"
    by (simp add: unsigned_take_bit_eq take_bit_eq_mod [where ?'a = nat])
  then have "take_bit n x = x" by (simp add: word_unat_eq_iff)
  then show ?thesis using k by (metis bit_take_bit_iff not_le)
qed

lemma map_offset_small:
  assumes "unat i < 2 ^ 19"
  shows "map_offset i = i * 4096"
proof -
  have "map_offset i = signed (push_bit 12 (ucast i :: u32))"
    by (simp add: map_offset_def push_bit_eq_mult)
  also have "\<dots> = push_bit 12 i"
    by (rule bit_word_eqI) (auto simp: bit_simps bit_below [OF assms] min_def)
  also have "\<dots> = i * 4096" by (simp add: push_bit_eq_mult)
  finally show ?thesis .
qed

lemma map_offset_negative: "map_offset (2 ^ 19) = 0xFFFFFFFF80000000"
  by (simp add: map_offset_def)

lemma paging_map_range:
  assumes "paging_tree s l4" and "enough_frames s l4 A" "page_paths va n \<subseteq> A" and n: "unat n \<le> 2 ^ 19"
  shows "\<exists>t. paging_map l4 va pa n s = Some t \<and> mapping_step l4 A s t \<and> range_mapped l4 va pa n (mem s) (mem t)"
proof -
  have "paging_map l4 va pa n s
      = word_for_opt 0 n (\<lambda>i. paging_map_page l4 (va + i * 4096) (pa + i * 4096)) s"
    unfolding paging_map_def Let_def
    by (rule word_for_opt_cong) (use n in \<open>auto simp: map_offset_small word_less_nat_alt\<close>)
  then show ?thesis using map_range [OF assms(1-3)] n by simp
qed

text \<open>The loop of \<open>paging_identity_map\<close> ends when the end of its range is an address.\<close>

lemma identity_map_loop_eq:
  fixes s :: "'a pf"
  assumes n: "unat a + unat n * 4096 < 2 ^ 64" and "i \<le> n"
  shows "identity_map_loop l4 (a + n * 4096) (a + i * 4096) s
    = word_for_opt i n (\<lambda>i. paging_map_page l4 (a + i * 4096) (a + i * 4096)) s"
  using assms(2)
proof (induction "unat n - unat i" arbitrary: i s)
  case 0
  then have "i = n" by (simp add: word_unat_eq_iff word_le_nat_alt)
  then show ?case
    by (simp add: identity_map_loop.simps [of l4 "a + n * 4096"] word_for_opt_step)
next
  case (Suc d)
  then have lt: "i < n" by (simp add: word_less_nat_alt)
  have addr: "unat (a + j * 4096) = unat a + unat j * 4096" if "j \<le> n" for j
  proof -
    have "unat j * 4096 \<le> unat n * 4096" using that by (simp add: word_le_nat_alt)
    then have "unat (j * 4096) = unat j * 4096" "unat a + unat j * 4096 < 2 ^ 64"
      using n by (simp_all add: unat_mult_no_wrap)
    then show ?thesis by (simp add: unat_add_no_wrap)
  qed
  have "a + i * 4096 < a + n * 4096" using addr [of i] addr [of n] lt by (simp add: word_less_nat_alt word_le_nat_alt)
  moreover have "identity_map_loop l4 (a + n * 4096) (a + i * 4096 + 4096) t
      = word_for_opt (i + 1) n (\<lambda>i. paging_map_page l4 (a + i * 4096) (a + i * 4096)) t" for t :: "'a pf"
  proof -
    have "d = unat n - unat (i + 1)" "i + 1 \<le> n"
      using Suc.hyps(2) lt word_inc_bounds(1) [OF lt] by (auto simp: unat_plus_one)
    from Suc.hyps(1) [OF this] show ?thesis by (simp add: algebra_simps)
  qed
  ultimately show ?case
    using lt by (cases "paging_map_page l4 (a + i * 4096) (a + i * 4096) s")
      (simp_all add: identity_map_loop.simps [of l4 "a + n * 4096" "a + i * 4096"]
        word_for_opt_step [of i] MEMORY_PAGE_SIZE_def)
qed

lemma paging_identity_map_range:
  assumes "paging_tree s (s_pagetable_l4 s)" and "enough_frames s (s_pagetable_l4 s) A" "page_paths a n \<subseteq> A"
    and "unat a + unat n * 4096 < 2 ^ 64" and "unat n \<le> 2 ^ 36"
  shows "\<exists>t. paging_identity_map a n s = Some t \<and> mapping_step (s_pagetable_l4 s) A s t
    \<and> range_mapped (s_pagetable_l4 s) a a n (mem s) (mem t)"
  using map_range [OF assms(1-3,5), of a] identity_map_loop_eq [OF assms(4), of 0 "s_pagetable_l4 s" s]
  by (simp add: paging_identity_map_def MEMORY_PAGE_SIZE_def)

end
