(* ===== verification/Paging_Attributes.thy ===== *)
theory Paging_Attributes
  imports Paging_Correct
begin

text \<open>
  Attributes of mapped pages: \<open>paging_set_attribute\<close> sets one flag in the entries of all four
  levels, \<open>paging_set_cache\<close> the three cache flags of the level 1 entry.  Neither changes
  where an address leads.
\<close>

section \<open>The entries on the path of an address\<close>

definition path_entry :: "memory \<Rightarrow> addr \<Rightarrow> addr \<Rightarrow> nat \<Rightarrow> u64 option" where
  "path_entry m l4 va k =
     map_option (\<lambda>t. load64 m (slot t (path_of va ! k))) (descend m l4 (take k (path_of va)))"

text \<open>A permission the processor grants when all four entries grant it.\<close>

definition page_flag :: "memory \<Rightarrow> addr \<Rightarrow> addr \<Rightarrow> nat \<Rightarrow> bool" where
  "page_flag m l4 va b \<longleftrightarrow> (\<forall>k < 4. \<exists>e. path_entry m l4 va k = Some e \<and> bit e b)"

text \<open>The positions on the path: the table reached by the first \<open>k\<close> indices and the index \<open>k\<close>.\<close>

definition on_path :: "addr \<Rightarrow> nat set \<Rightarrow> u64 list \<Rightarrow> u64 \<Rightarrow> bool" where
  "on_path va K q j \<longleftrightarrow> (\<exists>k \<in> K. q = take k (path_of va) \<and> j = path_of va ! k)"

text \<open>The entries at some positions of the path changed by \<open>f\<close>, all others as before.\<close>

definition entries_changed :: "(u64 \<Rightarrow> u64) \<Rightarrow> addr \<Rightarrow> nat set \<Rightarrow> memory \<Rightarrow> memory \<Rightarrow> addr \<Rightarrow> bool" where
  "entries_changed f va K m m' l4 \<longleftrightarrow> (\<forall>q t j. table_at m l4 q t \<and> j < 512 \<longrightarrow>
     load64 m' (slot t j) = (if on_path va K q j then f (load64 m (slot t j)) else load64 m (slot t j)))"

definition keeps_entry :: "(u64 \<Rightarrow> u64) \<Rightarrow> bool" where
  "keeps_entry f \<longleftrightarrow> (\<forall>e. bit (f e) 0 = bit e 0 \<and> entry_address (f e) = entry_address e)"

lemma keeps_entry_SET_BIT: "0 < b \<Longrightarrow> b < 12 \<Longrightarrow> keeps_entry (\<lambda>e. SET_BIT e b v)"
  unfolding keeps_entry_def entry_address_def
  by (auto intro!: bit_word_eqI simp: bit_SET_BIT bit_simps)

lemma entries_changed_same_tables:
  "entries_changed f va K m m' l4 \<Longrightarrow> keeps_entry f \<Longrightarrow> same_tables m m' l4"
  unfolding entries_changed_def same_tables_def keeps_entry_def entry_next_def Let_def
  by (metis (full_types))

lemma entries_changed_empty: "entries_changed f va {} m m l4"
  by (simp add: entries_changed_def on_path_def)

lemma length_path_of [simp]: "length (path_of va) = 4"
  by (simp add: path_of_def)

lemma valid_take: "valid_path p \<Longrightarrow> valid_path (take k p)"
  by (auto simp: valid_path_def dest: in_set_takeD)

lemma path_of_nth: "k < 4 \<Longrightarrow> path_of va ! k < 512"
  using valid_path_of [of va] by (simp add: valid_path_def)

text \<open>One more entry.\<close>

lemma entries_changed_step:
  assumes tree: "table_tree used own m l4" and f: "keeps_entry f"
    and ch: "entries_changed f va K m m' l4" and k: "k < 4" "k \<notin> K" "K \<subseteq> {..3}"
    and t: "descend m l4 (take k (path_of va)) = Some t"
  shows "entries_changed f va (insert k K) m
    (store64 m' (slot t (path_of va ! k)) (f (load64 m' (slot t (path_of va ! k))))) l4"
  unfolding entries_changed_def
proof (intro allI impI)
  let ?i = "path_of va ! k" and ?p = "take k (path_of va)"
  fix q u and j :: u64 assume q: "table_at m l4 q u \<and> j < 512"
  have at: "table_at m l4 ?p t" using t k(1) by (simp add: table_at_def valid_take)
  have i: "?i < 512" using k(1) by (rule path_of_nth)
  have on: "on_path va (insert k K) q j \<longleftrightarrow> on_path va K q j \<or> q = ?p \<and> j = ?i"
    by (auto simp: on_path_def)
  have off: "\<not> on_path va K ?p ?i"
  proof
    assume "on_path va K ?p ?i"
    then obtain k' where "k' \<in> K" "take k (path_of va) = take k' (path_of va)" by (auto simp: on_path_def)
    then have "length (take k (path_of va)) = length (take k' (path_of va))" "k' < 4" using k(3) by auto
    with k \<open>k' \<in> K\<close> show False by auto
  qed
  show "load64 (store64 m' (slot t ?i) (f (load64 m' (slot t ?i)))) (slot u j)
      = (if on_path va (insert k K) q j then f (load64 m (slot u j)) else load64 m (slot u j))"
  proof (cases "u = t \<and> j = ?i")
    case True
    then have "q = ?p" using table_tree_inj [OF tree _ at] q by simp
    then show ?thesis using True off ch at i on by (simp add: entries_changed_def)
  next
    case False
    then have "q = ?p \<and> j = ?i \<Longrightarrow> False" using q at by (auto simp: table_at_def)
    moreover have "load64 (store64 m' (slot t ?i) (f (load64 m' (slot t ?i)))) (slot u j) = load64 m' (slot u j)"
      using False q i table_tree_aligned [OF tree] at by (intro load64_store64_slot) auto
    ultimately show ?thesis using ch q on by (auto simp: entries_changed_def)
  qed
qed

lemma entries_changed_address:
  assumes "entries_changed f va K m m' l4" "keeps_entry f" "table_at m l4 q t" "j < 512"
  shows "entry_address (f (load64 m' (slot t j))) = entry_address (load64 m (slot t j))"
  using assms by (auto simp: entries_changed_def keeps_entry_def)

section \<open>Setting an attribute\<close>

text \<open>The tables on the path of an address that has a level 1 table.\<close>

lemma path_tables:
  assumes "descend m l4 (take 3 (path_of va)) = Some t1"
  obtains t3 t2 where "descend m l4 (take 0 (path_of va)) = Some l4"
    "descend m l4 (take 1 (path_of va)) = Some t3" "descend m l4 (take 2 (path_of va)) = Some t2"
    "t3 = entry_address (load64 m (slot l4 (path_of va ! 0)))"
    "t2 = entry_address (load64 m (slot t3 (path_of va ! 1)))"
    "t1 = entry_address (load64 m (slot t2 (path_of va ! 2)))"
proof -
  obtain i4 i3 i2 i1 where p: "path_of va = [i4, i3, i2, i1]" by (simp add: path_of_def)
  have "take 3 (path_of va) = [i4, i3, i2]" "take 2 (path_of va) = [i4, i3]" "take 1 (path_of va) = [i4]"
    by (simp_all add: p numeral_eq_Suc)
  then show thesis
    using assms that by (auto simp: p entry_next_def Let_def split: Option.bind_splits if_splits)
qed

lemma set_attribute_page_changed:
  assumes tree: "table_tree used own m l4" and t1: "descend m l4 (take 3 (path_of va)) = Some t1"
    and b: "0 < b" "b < 12"
  shows "entries_changed (\<lambda>e. SET_BIT e b v) va {0, 1, 2, 3} m (set_attribute_page l4 va b v m) l4"
    and "(\<And>p t. table_at m l4 p t \<Longrightarrow> page_of a \<noteq> page_of t) \<Longrightarrow> set_attribute_page l4 va b v m a = m a"
proof -
  let ?f = "\<lambda>e. SET_BIT e b v"
  obtain t3 t2 where t: "descend m l4 (take 0 (path_of va)) = Some l4"
    "descend m l4 (take 1 (path_of va)) = Some t3" "descend m l4 (take 2 (path_of va)) = Some t2"
    "t3 = entry_address (load64 m (slot l4 (path_of va ! 0)))"
    "t2 = entry_address (load64 m (slot t3 (path_of va ! 1)))"
    "t1 = entry_address (load64 m (slot t2 (path_of va ! 2)))"
    by (rule path_tables [OF t1]) (rule that)
  define up where "up t k m = store64 m (slot t (path_of va ! k)) (?f (load64 m (slot t (path_of va ! k))))" for t k m
  note f = keeps_entry_SET_BIT [OF b, of v]
  have tab: "table_at m l4 (take k (path_of va)) x" if "descend m l4 (take k (path_of va)) = Some x" "k \<le> 3" for k x
    using that by (simp add: table_at_def valid_take)
  note step = entries_changed_step [OF tree f]
  have e1: "entries_changed ?f va {0} m (up l4 0 m) l4"
    using step [OF entries_changed_empty _ _ _ t(1)] by (simp add: up_def)
  have e2: "entries_changed ?f va {1, 0} m (up t3 1 (up l4 0 m)) l4"
    using step [OF e1 _ _ _ t(2)] by (simp add: up_def)
  have e3: "entries_changed ?f va {2, 1, 0} m (up t2 2 (up t3 1 (up l4 0 m))) l4"
    using step [OF e2 _ _ _ t(3)] by (simp add: up_def)
  have e4: "entries_changed ?f va {3, 2, 1, 0} m (up t1 3 (up t2 2 (up t3 1 (up l4 0 m)))) l4"
    using step [OF e3 _ _ _ t1] by (simp add: up_def)
  have flag:
    "set_entry_flag t (L4_i (paging_get_indexes va)) b v x = (entry_address (?f (load64 x (slot t (path_of va ! 0)))), up t 0 x)"
    "set_entry_flag t (L3_i (paging_get_indexes va)) b v x = (entry_address (?f (load64 x (slot t (path_of va ! 1)))), up t 1 x)"
    "set_entry_flag t (L2_i (paging_get_indexes va)) b v x = (entry_address (?f (load64 x (slot t (path_of va ! 2)))), up t 2 x)"
    "set_entry_flag t (L1_i (paging_get_indexes va)) b v x = (entry_address (?f (load64 x (slot t (path_of va ! 3)))), up t 3 x)"
    for t x by (simp_all add: indexes_path set_entry_flag_def Let_def get_entry_address up_def)
  have next_tables: "entry_address (?f (load64 m (slot l4 (path_of va ! 0)))) = t3"
    "entry_address (?f (load64 (up l4 0 m) (slot t3 (path_of va ! 1)))) = t2"
    "entry_address (?f (load64 (up t3 1 (up l4 0 m)) (slot t2 (path_of va ! 2)))) = t1"
    using entries_changed_address [OF entries_changed_empty f tab [OF t(1)] path_of_nth]
      entries_changed_address [OF e1 f tab [OF t(2)] path_of_nth]
      entries_changed_address [OF e2 f tab [OF t(3)] path_of_nth] t(4-6) by simp_all
  have eq: "set_attribute_page l4 va b v m = up t1 3 (up t2 2 (up t3 1 (up l4 0 m)))"
    by (simp only: set_attribute_page_def Let_def flag next_tables prod.case snd_conv)
  with e4 show "entries_changed ?f va {0, 1, 2, 3} m (set_attribute_page l4 va b v m) l4"
    by (simp add: insert_commute)
  have "up t k x a = x a" if "\<And>p t. table_at m l4 p t \<Longrightarrow> page_of a \<noteq> page_of t"
      "descend m l4 (take k (path_of va)) = Some t" "k \<le> 3" for t k x
    unfolding up_def using that(1) [OF tab [OF that(2,3)]] that(3) table_tree_aligned [OF tree tab [OF that(2,3)]]
    by (intro store64_slot_other_page path_of_nth) auto
  then show "set_attribute_page l4 va b v m a = m a" if "\<And>p t. table_at m l4 p t \<Longrightarrow> page_of a \<noteq> page_of t"
    using that t(1-3) t1 unfolding eq by simp
qed

lemma path_entry_changed:
  assumes "entries_changed f va K m m' l4" and "keeps_entry f" and k: "k < 4"
  shows "path_entry m' l4 va' k = map_option
    (\<lambda>e. if on_path va K (take k (path_of va')) (path_of va' ! k) then f e else e) (path_entry m l4 va' k)"
proof -
  let ?q = "take k (path_of va')"
  have desc: "descend m' l4 ?q = descend m l4 ?q"
    using descend_same_tables [OF entries_changed_same_tables [OF assms(1,2)]] k by (simp add: valid_take)
  show ?thesis
  proof (cases "descend m l4 ?q")
    case (Some t)
    then have "table_at m l4 ?q t" using k by (simp add: table_at_def valid_take)
    then show ?thesis
      using assms(1) desc Some path_of_nth [OF k] by (simp add: path_entry_def entries_changed_def)
  qed (use desc in \<open>simp add: path_entry_def\<close>)
qed

lemma walk_same_tables: "same_tables m m' l4 \<Longrightarrow> walk m' l4 va = walk m l4 va"
  by (simp add: walk_def descend_same_tables)

lemma descend_prefix: "descend m t (p @ q) = Some x \<Longrightarrow> \<exists>y. descend m t p = Some y"
  by (auto simp: descend_append split: Option.bind_splits)

lemma descend_take:
  assumes "descend m t (take n p) = Some x" and "k \<le> n"
  shows "\<exists>y. descend m t (take k p) = Some y"
proof -
  have "take n p = take k p @ take (n - k) (drop k p)" using assms(2) by (simp flip: take_add)
  with assms(1) show ?thesis using descend_prefix by metis
qed

lemma walk_level1:
  assumes "walk m l4 va \<noteq> None"
  shows "\<exists>t1. descend m l4 (take 3 (path_of va)) = Some t1"
  using assms descend_prefix [of m l4 "take 3 (path_of va)" "drop 3 (path_of va)"]
  by (auto simp: walk_def)

text \<open>What setting flag \<open>b\<close> to \<open>v\<close> on some pages does to the state: the tree and the translations
  stay, no other flag changes, and no entry gets another value than \<open>v\<close> in flag \<open>b\<close>.\<close>

definition flag_step :: "addr \<Rightarrow> nat \<Rightarrow> bool \<Rightarrow> 'a pf \<Rightarrow> 'a pf \<Rightarrow> bool" where
  "flag_step l4 b v s t \<longleftrightarrow> paging_tree t l4 \<and> t = s\<lparr>mem := mem t\<rparr>
     \<and> (\<forall>q. valid_path q \<longrightarrow> length q \<le> 4 \<longrightarrow> descend (mem t) l4 q = descend (mem s) l4 q)
     \<and> frames_left t = frames_left s \<and> frame_in_use t = frame_in_use s \<and> keeps_other l4 s t
     \<and> (\<forall>a k. k < 4 \<longrightarrow> path_entry (mem t) l4 a k = path_entry (mem s) l4 a k
          \<or> path_entry (mem t) l4 a k = map_option (\<lambda>e. SET_BIT e b v) (path_entry (mem s) l4 a k))"

lemma SET_BIT_idem: "b < 31 \<Longrightarrow> SET_BIT (SET_BIT e b v) b v = SET_BIT e b v"
  by (rule bit_word_eqI) (simp add: bit_SET_BIT)

lemma flag_step_refl: "paging_tree s l4 \<Longrightarrow> flag_step l4 b v s s"
  by (simp add: flag_step_def)

lemma flag_step_trans:
  assumes "b < 12" and st: "flag_step l4 b v s t" and tu: "flag_step l4 b v t u"
  shows "flag_step l4 b v s u"
proof -
  have "u = s\<lparr>mem := mem u\<rparr>" using st tu unfolding flag_step_def by (metis pageframe_state.surjective machine.update_convs(1))
  moreover have "path_entry (mem u) l4 a k = path_entry (mem s) l4 a k
      \<or> path_entry (mem u) l4 a k = map_option (\<lambda>e. SET_BIT e b v) (path_entry (mem s) l4 a k)" if "k < 4" for a k
  proof -
    have "path_entry (mem t) l4 a k = path_entry (mem s) l4 a k
        \<or> path_entry (mem t) l4 a k = map_option (\<lambda>e. SET_BIT e b v) (path_entry (mem s) l4 a k)"
      "path_entry (mem u) l4 a k = path_entry (mem t) l4 a k
        \<or> path_entry (mem u) l4 a k = map_option (\<lambda>e. SET_BIT e b v) (path_entry (mem t) l4 a k)"
      using st tu that by (simp_all add: flag_step_def)
    then show ?thesis
      using assms(1) by (auto simp: option.map_comp comp_def SET_BIT_idem)
  qed
  ultimately show ?thesis using st tu keeps_other_trans [of l4 s t u] by (simp add: flag_step_def)
qed

lemma enough_frames_flag:
  assumes "flag_step l4 b v s t" "enough_frames s l4 A"
  shows "enough_frames t l4 A"
proof -
  have "descend (mem t) l4 p = descend (mem s) l4 p" if "q \<in> A" "q = p @ r" "length p \<le> 3" for p q r
    using assms that by (auto simp: enough_frames_def flag_step_def)
  then have "missing (mem t) l4 A = missing (mem s) l4 A" unfolding missing_def by auto
  then show ?thesis using assms by (simp add: enough_frames_def flag_step_def)
qed

definition flag_at :: "memory \<Rightarrow> addr \<Rightarrow> nat \<Rightarrow> bool \<Rightarrow> addr \<Rightarrow> bool" where
  "flag_at m l4 b v va \<longleftrightarrow> (\<forall>k < 4. \<exists>e. path_entry m l4 va k = Some e \<and> bit e b = v)"

lemma flag_at_step:
  assumes "b < 12" "flag_step l4 b v s t" "flag_at (mem s) l4 b v va"
  shows "flag_at (mem t) l4 b v va"
  unfolding flag_at_def
proof (intro allI impI)
  fix k :: nat assume k: "k < 4"
  then obtain e where e: "path_entry (mem s) l4 va k = Some e" "bit e b = v"
    using assms(3) by (auto simp: flag_at_def)
  have "path_entry (mem t) l4 va k = path_entry (mem s) l4 va k
      \<or> path_entry (mem t) l4 va k = map_option (\<lambda>e. SET_BIT e b v) (path_entry (mem s) l4 va k)"
    using assms(2) k by (simp add: flag_step_def)
  then show "\<exists>e. path_entry (mem t) l4 va k = Some e \<and> bit e b = v"
    using e assms(1) by (auto simp: bit_SET_BIT)
qed

lemma set_attribute_page_step:
  assumes s: "paging_tree s l4" and "walk (mem s) l4 va \<noteq> None" and b: "0 < b" "b < 12"
    and t: "t = s\<lparr>mem := set_attribute_page l4 va b v (mem s)\<rparr>"
  shows "flag_step l4 b v s t" and "flag_at (mem t) l4 b v va"
proof -
  obtain t1 where t1: "descend (mem s) l4 (take 3 (path_of va)) = Some t1"
    using walk_level1 [OF assms(2)] by blast
  from s have inv: "pf_alloc_inv s" and tree: "table_tree (frame_in_use s) (map_byte s) (mem s) l4"
    by (simp_all add: paging_tree_def)
  note f = keeps_entry_SET_BIT [OF b, of v]
  note ch = set_attribute_page_changed [OF tree t1 b, where v = v]
  have same: "same_tables (mem s) (mem t) l4" using entries_changed_same_tables [OF ch(1) f] by (simp add: t)
  have alloc: "pf_alloc_inv t \<and> frame_in_use t = frame_in_use s \<and> frames_left t = frames_left s \<and> map_byte t = map_byte s"
    unfolding t by (rule put_frame_pf [OF inv]) (use ch(2) table_tree_used(2) [OF tree] in blast)
  moreover have "keeps_other l4 s t"
    unfolding keeps_other_def other_page_def
  proof (intro allI impI conjI)
    fix j assume j: "frame_in_use s j \<and> (\<forall>a. map_byte s a \<longrightarrow> page_of a \<noteq> j)
      \<and> (\<forall>p t. table_at (mem s) l4 p t \<longrightarrow> page_of t \<noteq> j)"
    then show "frame_in_use t j" "map_byte t a \<Longrightarrow> page_of a \<noteq> j" for a using alloc by simp_all
    show "page_of u \<noteq> j" if "table_at (mem t) l4 p u" for p u
    proof -
      have "table_at (mem s) l4 p u" using that descend_same_tables [OF same, of p] by (simp add: table_at_def)
      then show ?thesis using j by simp
    qed
    show "mem t a = mem s a" if "page_of a = j" for a
    proof -
      have "page_of a \<noteq> page_of u" if "table_at (mem s) l4 p u" for p u
        using j that \<open>page_of a = j\<close> by metis
      from ch(2) [OF this] show ?thesis by (simp add: t)
    qed
  qed
  moreover have "table_tree (frame_in_use s) (map_byte s) (mem t) l4"
    by (rule table_tree_same_tables [OF same tree])
  moreover have "path_entry (mem t) l4 a k = path_entry (mem s) l4 a k
          \<or> path_entry (mem t) l4 a k = map_option (\<lambda>e. SET_BIT e b v) (path_entry (mem s) l4 a k)" if "k < 4" for a k
    using path_entry_changed [OF ch(1) f that, of a] by (cases "path_entry (mem s) l4 a k") (auto simp: t)
  ultimately show "flag_step l4 b v s t"
    using descend_same_tables [OF same] by (auto simp: flag_step_def paging_tree_def t)
  show "flag_at (mem t) l4 b v va" unfolding flag_at_def
  proof (intro allI impI)
    fix k :: nat assume k: "k < 4"
    have "k \<in> {0, 1, 2, 3}" using k by auto
    then have "on_path va {0, 1, 2, 3} (take k (path_of va)) (path_of va ! k)"
      unfolding on_path_def by blast
    moreover obtain x where "descend (mem s) l4 (take k (path_of va)) = Some x"
      using descend_take [OF t1, of k] k by auto
    ultimately show "\<exists>e. path_entry (mem t) l4 va k = Some e \<and> bit e b = v"
      using path_entry_changed [OF ch(1) f k, of va] b(2) by (auto simp: t path_entry_def bit_SET_BIT)
  qed
qed

text \<open>The attribute of a range of mapped pages.\<close>

lemma paging_set_attribute_range:
  assumes s: "paging_tree s l4" and mapped: "\<And>i. i < n \<Longrightarrow> walk (mem s) l4 (va + i * 4096) \<noteq> None"
    and b: "0 < directory_bit attr" "directory_bit attr < 12"
    and t: "t = paging_set_attribute l4 va n attr v s"
  shows "flag_step l4 (directory_bit attr) v s t"
    and "i < n \<Longrightarrow> flag_at (mem t) l4 (directory_bit attr) v (va + i * 4096)"
proof -
  let ?b = "directory_bit attr"
  let ?P = "\<lambda>j t. flag_step l4 ?b v s t \<and> (\<forall>i < j. flag_at (mem t) l4 ?b v (va + i * 4096))"
  have "?P n t" unfolding t paging_set_attribute_def MEMORY_PAGE_SIZE_def
  proof (rule word_for_rule [where P = ?P])
    fix j t assume j: "j < n" and P: "?P j t"
    let ?u = "t\<lparr>mem := set_attribute_page l4 (va + j * 4096) ?b v (mem t)\<rparr>"
    have "paging_tree t l4" "walk (mem t) l4 (va + j * 4096) \<noteq> None"
      using P mapped [OF j] by (auto simp: flag_step_def walk_def)
    note u = set_attribute_page_step [OF this b refl, of v]
    have "flag_step l4 ?b v s ?u" using flag_step_trans [OF b(2) conjunct1 [OF P] u(1)] .
    moreover have "flag_at (mem ?u) l4 ?b v (va + i * 4096)" if "i < j + 1" for i
    proof (cases "i = j")
      case False
      with that have "i < j" by (simp add: word_less_inc [OF j])
      then show ?thesis using P flag_at_step [OF b(2) u(1)] by simp
    qed (use u(2) in simp)
    ultimately show "?P (j + 1) ?u" by simp
  qed (use flag_step_refl [OF s] in simp_all)
  then show "flag_step l4 ?b v s t" "i < n \<Longrightarrow> flag_at (mem t) l4 ?b v (va + i * 4096)" by simp_all
qed

section \<open>Setting the cache policy\<close>

definition cache_entry :: "PagePATMode \<Rightarrow> u64 \<Rightarrow> u64" where
  "cache_entry mode e = SET_BIT (SET_BIT (SET_BIT e 7 (bit (pat_value mode) 2)) 4 (bit (pat_value mode) 1))
     3 (bit (pat_value mode) 0)"

lemma and_1_bit: "drop_bit n (x :: u32) AND 1 \<noteq> 0 \<longleftrightarrow> bit x n"
  by (simp add: and_one_eq bit_iff_odd_drop_bit odd_iff_mod_2_eq_one)

lemma keeps_cache_entry: "keeps_entry (cache_entry mode)"
  using keeps_entry_SET_BIT [of 7] keeps_entry_SET_BIT [of 4] keeps_entry_SET_BIT [of 3]
  by (simp add: keeps_entry_def cache_entry_def)

lemma set_cache_page_changed:
  assumes tree: "table_tree used own m l4" and t1: "descend m l4 (take 3 (path_of va)) = Some t1"
  shows "entries_changed (cache_entry mode) va {3} m (set_cache_page l4 va mode m) l4"
    and "own a \<Longrightarrow> set_cache_page l4 va mode m a = m a"
proof -
  obtain t3 t2 where t: "t3 = entry_address (load64 m (slot l4 (path_of va ! 0)))"
    "t2 = entry_address (load64 m (slot t3 (path_of va ! 1)))"
    "t1 = entry_address (load64 m (slot t2 (path_of va ! 2)))"
    by (rule path_tables [OF t1]) (rule that)
  have reload: "reload_entry x i m = (entry_address (load64 m (slot x (ucast i))), m)" for x i
    by (simp add: reload_entry_def Let_def get_entry_address)
  let ?a = "slot t1 (path_of va ! 3)"
  have eq: "set_cache_page l4 va mode m = store64 m ?a (cache_entry mode (load64 m ?a))"
    unfolding set_cache_page_def and_1_bit
    using t by (simp add: reload Let_def cache_entry_def indexes_path)
  show "entries_changed (cache_entry mode) va {3} m (set_cache_page l4 va mode m) l4"
    using entries_changed_step [OF tree keeps_cache_entry entries_changed_empty _ _ _ t1] by (simp add: eq)
  have "table_at m l4 (take 3 (path_of va)) t1" using t1 by (simp add: table_at_def valid_take)
  then show "set_cache_page l4 va mode m a = m a" if "own a"
    unfolding eq using that table_tree_aligned [OF tree] table_tree_used(2) [OF tree]
    by (intro store64_slot_other_page path_of_nth) auto
qed

lemma on_path_leaf:
  assumes "k < 4"
  shows "on_path va {3} (take k (path_of va')) (path_of va' ! k) \<longleftrightarrow> k = 3 \<and> virtual_page va' = virtual_page va"
proof -
  have split: "path_of x = take 3 (path_of x) @ [path_of x ! 3]" for x by (simp add: path_of_def numeral_eq_Suc)
  have "take k (path_of va') = take 3 (path_of va) \<Longrightarrow> k = 3"
    using assms by (auto dest!: arg_cong [where f = length] simp: min_def split: if_splits)
  moreover have "take 3 (path_of va') = take 3 (path_of va) \<and> path_of va' ! 3 = path_of va ! 3
      \<longleftrightarrow> path_of va' = path_of va"
    using split [of va] split [of va'] by auto
  ultimately show ?thesis by (auto simp: on_path_def path_of_eq)
qed

text \<open>The cache policy of a range of mapped pages: only the level 1 entries of the range change.\<close>

definition cache_step :: "addr \<Rightarrow> addr \<Rightarrow> PagePATMode \<Rightarrow> u64 \<Rightarrow> 'a pf \<Rightarrow> 'a pf \<Rightarrow> bool" where
  "cache_step l4 va mode n s t \<longleftrightarrow> paging_tree t l4
     \<and> (\<forall>q. valid_path q \<longrightarrow> length q \<le> 4 \<longrightarrow> descend (mem t) l4 q = descend (mem s) l4 q)
     \<and> (\<forall>a k. k < 4 \<longrightarrow> path_entry (mem t) l4 a k =
          (if k = 3 \<and> (\<exists>i < n. virtual_page a = virtual_page (va + i * 4096))
           then map_option (cache_entry mode) (path_entry (mem s) l4 a k) else path_entry (mem s) l4 a k))"

lemma set_cache_page_step:
  assumes s: "paging_tree s l4" and "walk (mem s) l4 va \<noteq> None"
    and t: "t = s\<lparr>mem := set_cache_page l4 va mode (mem s)\<rparr>"
  shows "paging_tree t l4"
    and "valid_path q \<Longrightarrow> length q \<le> 4 \<Longrightarrow> descend (mem t) l4 q = descend (mem s) l4 q"
    and "k < 4 \<Longrightarrow> path_entry (mem t) l4 a k = (if k = 3 \<and> virtual_page a = virtual_page va
        then map_option (cache_entry mode) (path_entry (mem s) l4 a k) else path_entry (mem s) l4 a k)"
proof -
  obtain t1 where t1: "descend (mem s) l4 (take 3 (path_of va)) = Some t1"
    using walk_level1 [OF assms(2)] by blast
  from s have inv: "pf_alloc_inv s" and tree: "table_tree (frame_in_use s) (map_byte s) (mem s) l4"
    by (simp_all add: paging_tree_def)
  note ch = set_cache_page_changed [OF tree t1, where mode = mode]
  have same: "same_tables (mem s) (mem t) l4"
    using entries_changed_same_tables [OF ch(1) keeps_cache_entry] by (simp add: t)
  have "pf_alloc_inv t \<and> frame_in_use t = frame_in_use s \<and> frames_left t = frames_left s \<and> map_byte t = map_byte s"
    unfolding t by (rule put_frame_pf [OF inv]) (rule ch(2))
  then show "paging_tree t l4"
    using table_tree_same_tables [OF same tree] by (simp add: paging_tree_def)
  show "valid_path q \<Longrightarrow> length q \<le> 4 \<Longrightarrow> descend (mem t) l4 q = descend (mem s) l4 q"
    by (rule descend_same_tables [OF same])
  show "path_entry (mem t) l4 a k = (if k = 3 \<and> virtual_page a = virtual_page va
        then map_option (cache_entry mode) (path_entry (mem s) l4 a k) else path_entry (mem s) l4 a k)" if "k < 4"
    using path_entry_changed [OF ch(1) keeps_cache_entry that, of a] on_path_leaf [OF that, of va a]
    by (cases "path_entry (mem s) l4 a k") (auto simp: t)
qed

lemma paging_set_cache_range:
  assumes s: "paging_tree s (s_pagetable_l4 s)"
    and mapped: "\<And>i. i < n \<Longrightarrow> walk (mem s) (s_pagetable_l4 s) (va + i * 4096) \<noteq> None"
    and n: "unat n \<le> 2 ^ 36"
  shows "cache_step (s_pagetable_l4 s) va mode n s (paging_set_cache va n mode s)"
  unfolding paging_set_cache_def MEMORY_PAGE_SIZE_def
proof (rule word_for_rule [where P = "\<lambda>j t. cache_step (s_pagetable_l4 s) va mode j s t"])
  let ?l4 = "s_pagetable_l4 s"
  show "cache_step ?l4 va mode 0 s s" using s by (simp add: cache_step_def)
  fix j t assume j: "j < n" and P: "cache_step ?l4 va mode j s t"
  let ?u = "t\<lparr>mem := set_cache_page ?l4 (va + j * 4096) mode (mem t)\<rparr>"
  have "paging_tree t ?l4" "walk (mem t) ?l4 (va + j * 4096) \<noteq> None"
    using P mapped [OF j] by (auto simp: cache_step_def walk_def)
  note u = set_cache_page_step [OF this refl, where mode = mode]
  have less: "i < j + 1 \<longleftrightarrow> i < j \<or> i = j" for i
    by (simp add: word_less_inc [OF j] order.order_iff_strict)
  have dist: "virtual_page (va + i * 4096) \<noteq> virtual_page (va + j * 4096)" if "i < j" for i
    using virtual_page_inj [of va i j] that j n by (auto simp: word_less_nat_alt)
  have "path_entry (mem ?u) ?l4 a k =
          (if k = 3 \<and> (\<exists>i < j + 1. virtual_page a = virtual_page (va + i * 4096))
           then map_option (cache_entry mode) (path_entry (mem s) ?l4 a k) else path_entry (mem s) ?l4 a k)"
    if k: "k < 4" for a k
  proof -
    have "path_entry (mem t) ?l4 a k =
          (if k = 3 \<and> (\<exists>i < j. virtual_page a = virtual_page (va + i * 4096))
           then map_option (cache_entry mode) (path_entry (mem s) ?l4 a k) else path_entry (mem s) ?l4 a k)"
      using P k by (simp add: cache_step_def)
    then show ?thesis using u(3) [OF k, of a] dist less by auto
  qed
  then show "cache_step ?l4 va mode (j + 1) s ?u"
    using P u(1,2) by (simp add: cache_step_def)
qed simp

end
