(* ===== verification/Paging_Props.thy ===== *)
theory Paging_Props
  imports Paging_Attributes Pageframe_Props
begin

text \<open>The properties of the page tables, with their witnesses.\<close>

section \<open>A small state\<close>

text \<open>An empty level 4 table in frame 2 of eight frames; frame 0 is reserved and frame 1 holds the map.\<close>

definition example_pg :: "paging_state" where
  "example_pg = example_pf 0xE0 \<lparr>s_pagetable_l4 = 0x2000\<rparr>"

lemma example_mem: "mem example_pg a = (if a = 0x1000 then 0xE0 else 0)"
  by (simp add: example_pg_def example_pf_def)

lemma empty_table_at:
  assumes "page_aligned l4" and "\<And>a. page_of a = page_of l4 \<Longrightarrow> m a = 0"
  shows "table_at m l4 p t \<longleftrightarrow> p = [] \<and> t = l4"
proof -
  have "load64 m (slot l4 i) = 0" if "i < 512" for i
    using assms(1,2) that by (auto intro!: load64_zero simp: slot_byte_page)
  then have none: "entry_next m l4 i = None" if "i < 512" for i using that by (simp add: entry_next_def)
  then show ?thesis by (cases p) (auto simp: table_at_def)
qed

lemma empty_table_tree:
  assumes "page_aligned l4" and "\<And>a. page_of a = page_of l4 \<Longrightarrow> m a = 0"
    and "used (page_of l4)" and "\<And>a. own a \<Longrightarrow> page_of a \<noteq> page_of l4"
  shows "table_tree used own m l4"
  using assms empty_table_at [OF assms(1,2)] by (simp add: table_tree_def)

lemma example_pg_tree: "paging_tree example_pg 0x2000"
proof -
  have map: "map_byte example_pg a \<longleftrightarrow> a = 0x1000" for a
    by (simp add: map_byte_def example_pg_def example_pf_simps in_region_def)
  have use: "frame_in_use example_pg i \<longleftrightarrow> i < 8 \<and> bit (0xE0 :: u8) (7 - unat i)" for i
    by (auto simp: frame_in_use_def example_pg_def example_pf_simps example_pf_used)
  have "pf_alloc_inv example_pg"
    unfolding pf_alloc_inv_def map use
    using example_pf_good [of "0xE0" "\<lparr>s_pagetable_l4 = 0x2000\<rparr>"] by (simp add: example_pg_def example_pf_simps page_of_def)
  moreover have "table_tree (frame_in_use example_pg) (map_byte example_pg) (mem example_pg) 0x2000"
    by (rule empty_table_tree) (auto simp: use map example_mem page_of_def page_aligned_def)
  ultimately show ?thesis by (simp add: paging_tree_def)
qed

text \<open>Three frames are enough for one page.\<close>

lemma card_missing_page: "card (missing m l4 {path_of va}) \<le> 3"
proof -
  have "missing m l4 {path_of va} \<subseteq> (\<lambda>k. take k (path_of va)) ` {1, 2, 3}"
  proof
    fix p assume p: "p \<in> missing m l4 {path_of va}"
    then obtain r where r: "path_of va = p @ r" "length p \<le> 3" "descend m l4 p = None"
      by (auto simp: missing_def)
    then have "p \<noteq> []" by auto
    then have "0 < length p" by simp
    with r(2) have "length p = 1 \<or> length p = 2 \<or> length p = 3" by linarith
    moreover have "p = take (length p) (path_of va)" using r(1) by simp
    ultimately have "p = take (length p) (path_of va)" "length p \<in> {1, 2, 3}" by simp_all
    then show "p \<in> (\<lambda>k. take k (path_of va)) ` {1, 2, 3}" by blast
  qed
  then have "card (missing m l4 {path_of va}) \<le> card ((\<lambda>k. take k (path_of va)) ` {1 :: nat, 2, 3})"
    by (intro card_mono) simp_all
  also have "\<dots> \<le> card {1 :: nat, 2, 3}" by (rule card_image_le) simp
  finally show ?thesis by simp
qed

lemma enough_for_page: "3 \<le> frames_left s \<Longrightarrow> enough_frames s l4 {path_of va}"
  using card_missing_page [of "mem s" l4 va] by (simp add: enough_frames_def)

lemma example_pg_frames: "3 \<le> frames_left example_pg"
proof -
  have "{3, 4, 5} \<subseteq> free_ahead example_pg"
    by (simp add: free_ahead_def example_pg_def example_pf_simps example_pf_used)
  from card_mono [OF _ this] show ?thesis by (simp add: frames_left_def)
qed

lemma less_one_u64: "(i :: u64) < 1 \<longleftrightarrow> i = 0"
  by (simp add: word_less_nat_alt unsigned_eq_0_iff)

lemma page_paths_one: "page_paths a 1 = {path_of a}"
  by (simp add: page_paths_def less_one_u64)

lemma example_pg_mapped:
  "\<exists>t. paging_map_page 0x2000 0x400000 0x7000 example_pg = Some t \<and> paging_tree t 0x2000
     \<and> walk (mem t) 0x2000 0x400000 = Some 0x7000 \<and> s_pagetable_l4 t = 0x2000"
proof -
  obtain t where t: "paging_map_page 0x2000 0x400000 0x7000 example_pg = Some t"
    "mapping_step 0x2000 {path_of 0x400000} example_pg t"
    "walk (mem t) 0x2000 0x400000 = Some (entry_address 0x7000)"
    using paging_map_page_mapping [OF example_pg_tree enough_for_page [OF example_pg_frames, of "0x2000" "0x400000"],
        of "0x400000" "0x7000"] by auto
  moreover have "s_pagetable_l4 t = s_pagetable_l4 example_pg"
    using t(2) by (intro paging_l4_more) (simp add: mapping_step_def)
  ultimately show ?thesis
    using entry_address_frame [of "0x7000"]
    by (simp add: mapping_step_def page_aligned_def example_pg_def example_pf_def)
qed

section \<open>Properties\<close>

text \<open>
  C1. Mapping a page: given three frames it returns, the page of the virtual address is
  translated to the page of the physical address, the translation of every other page is
  unchanged, and the tables still form a tree whose frames are in use.
\<close>

theorem paging_map_page_translates:
  assumes "paging_tree s l4" and "3 \<le> frames_left s"
  shows "\<exists>t. paging_map_page l4 va pa s = Some t \<and> paging_tree t l4
    \<and> (\<forall>va'. walk (mem t) l4 va' =
         (if virtual_page va' = virtual_page va then Some (entry_address pa) else walk (mem s) l4 va'))"
  using paging_map_page_mapping [OF assms(1) enough_for_page [OF assms(2), of l4 va], of va pa]
  by (auto simp: mapping_step_def)

theorem paging_map_page_translates_witness:
  "\<exists>t. paging_map_page 0x2000 0xFFFFFFFF80001000 0x7000 example_pg = Some t
    \<and> walk (mem t) 0x2000 0xFFFFFFFF80001000 = Some 0x7000"
  using paging_map_page_translates [OF example_pg_tree example_pg_frames, of "0xFFFFFFFF80001000" "0x7000"]
    entry_address_frame [of "0x7000"] by (auto simp: page_aligned_def)

text \<open>
  C14. Mapping a range of up to \<open>2 ^ 19\<close> pages maps page after page and no other page; the page
  with number \<open>2 ^ 19\<close> is mapped at a wrong address, because its offset is computed in 32 bits.
\<close>

theorem paging_map_translates:
  assumes "paging_tree s l4" and "enough_frames s l4 (page_paths va n)" and "unat n \<le> 2 ^ 19"
  shows "(\<exists>t. paging_map l4 va pa n s = Some t \<and> paging_tree t l4
    \<and> (\<forall>i < n. walk (mem t) l4 (va + i * 4096) = Some (entry_address (pa + i * 4096)))
    \<and> (\<forall>va'. (\<forall>i < n. virtual_page va' \<noteq> virtual_page (va + i * 4096)) \<longrightarrow> walk (mem t) l4 va' = walk (mem s) l4 va'))
    \<and> map_offset (2 ^ 19) \<noteq> 2 ^ 19 * 4096"
  using paging_map_range [OF assms(1,2) order.refl assms(3), of pa] map_offset_negative
  by (auto simp: mapping_step_def range_mapped_def)

theorem paging_map_translates_witness:
  "\<exists>t. paging_map 0x2000 0x400000 0x7000 1 example_pg = Some t \<and> walk (mem t) 0x2000 0x400000 = Some 0x7000"
proof -
  have "enough_frames example_pg 0x2000 (page_paths 0x400000 1)"
    using enough_for_page [OF example_pg_frames] by (simp add: page_paths_one)
  from paging_map_translates [OF example_pg_tree this, of "0x7000"] obtain t where
    t: "paging_map 0x2000 0x400000 0x7000 1 example_pg = Some t"
      "\<forall>i < 1. walk (mem t) 0x2000 (0x400000 + i * 4096) = Some (entry_address (0x7000 + i * 4096))" by auto
  from t(2) have "walk (mem t) 0x2000 0x400000 = Some (entry_address 0x7000)" by (simp add: less_one_u64)
  then show ?thesis using t(1) entry_address_frame [of "0x7000"] by (simp add: page_aligned_def)
qed

text \<open>
  C23. Identity mapping a range whose end is an address returns, and translates every page of
  the range to itself and every other page as before.
\<close>

theorem paging_identity_map_translates:
  assumes "paging_tree s (s_pagetable_l4 s)" and "enough_frames s (s_pagetable_l4 s) (page_paths a n)"
    and "unat a + unat n * 4096 < 2 ^ 64" and "unat n \<le> 2 ^ 36"
  shows "\<exists>t. paging_identity_map a n s = Some t \<and> paging_tree t (s_pagetable_l4 t)
    \<and> s_pagetable_l4 t = s_pagetable_l4 s
    \<and> (\<forall>i < n. walk (mem t) (s_pagetable_l4 t) (a + i * 4096) = Some (entry_address (a + i * 4096)))
    \<and> (\<forall>va. (\<forall>i < n. virtual_page va \<noteq> virtual_page (a + i * 4096)) \<longrightarrow>
        walk (mem t) (s_pagetable_l4 t) va = walk (mem s) (s_pagetable_l4 s) va)"
proof -
  obtain t where t: "paging_identity_map a n s = Some t" "mapping_step (s_pagetable_l4 s) (page_paths a n) s t"
    "range_mapped (s_pagetable_l4 s) a a n (mem s) (mem t)"
    using paging_identity_map_range [OF assms(1,2) order.refl assms(3,4)] by blast
  then have "s_pagetable_l4 t = s_pagetable_l4 s" by (intro paging_l4_more) (simp add: mapping_step_def)
  with t show ?thesis by (auto simp: mapping_step_def range_mapped_def)
qed

theorem paging_identity_map_translates_witness:
  "\<exists>t. paging_identity_map 0x400000 1 example_pg = Some t
    \<and> walk (mem t) (s_pagetable_l4 t) 0x400000 = Some (entry_address 0x400000)"
proof -
  have l4: "s_pagetable_l4 example_pg = 0x2000" by (simp add: example_pg_def example_pf_def)
  have "enough_frames example_pg 0x2000 (page_paths 0x400000 1)"
    using enough_for_page [OF example_pg_frames] by (simp add: page_paths_one)
  then obtain t where t: "paging_identity_map 0x400000 1 example_pg = Some t"
    "\<forall>i < 1. walk (mem t) (s_pagetable_l4 t) (0x400000 + i * 4096) = Some (entry_address (0x400000 + i * 4096))"
    using paging_identity_map_translates [of example_pg "0x400000" 1] example_pg_tree l4 by auto
  from t(2) have "walk (mem t) (s_pagetable_l4 t) 0x400000 = Some (entry_address 0x400000)"
    by (simp add: less_one_u64)
  with t(1) show ?thesis by blast
qed



text \<open>
  C24. Setting the cache policy of mapped pages writes the three bits of the policy into the
  level 1 entries of the range, changes no other entry and no translation.
\<close>

theorem paging_set_cache_policy:
  assumes "paging_tree s (s_pagetable_l4 s)" and "unat n \<le> 2 ^ 36"
    and "\<forall>i < n. walk (mem s) (s_pagetable_l4 s) (va + i * 4096) \<noteq> None"
  shows "let t = paging_set_cache va n mode s; l4 = s_pagetable_l4 s in
    paging_tree t l4 \<and> (\<forall>va'. walk (mem t) l4 va' = walk (mem s) l4 va')
    \<and> (\<forall>i < n. \<forall>e. path_entry (mem s) l4 (va + i * 4096) 3 = Some e \<longrightarrow>
         (\<exists>e'. path_entry (mem t) l4 (va + i * 4096) 3 = Some e'
           \<and> bit e' 7 = bit (pat_value mode) 2 \<and> bit e' 4 = bit (pat_value mode) 1
           \<and> bit e' 3 = bit (pat_value mode) 0 \<and> (\<forall>c. c \<notin> {3, 4, 7} \<longrightarrow> bit e' c = bit e c)))
    \<and> (\<forall>va'. \<forall>k < 4. k < 3 \<or> (\<forall>i < n. virtual_page va' \<noteq> virtual_page (va + i * 4096)) \<longrightarrow>
         path_entry (mem t) l4 va' k = path_entry (mem s) l4 va' k)"
proof -
  let ?t = "paging_set_cache va n mode s" and ?l4 = "s_pagetable_l4 s"
  have step: "cache_step ?l4 va mode n s ?t"
    using paging_set_cache_range [OF assms(1) _ assms(2)] assms(3) by blast
  have bits: "bit (cache_entry mode e) c = (if c = 7 then bit (pat_value mode) 2 else if c = 4 then bit (pat_value mode) 1
      else if c = 3 then bit (pat_value mode) 0 else bit e c)" for e c
    by (simp add: cache_entry_def bit_SET_BIT)
  have "path_entry (mem ?t) ?l4 (va + i * 4096) 3 = map_option (cache_entry mode) (path_entry (mem s) ?l4 (va + i * 4096) 3)"
    if "i < n" for i using step that by (auto simp: cache_step_def)
  moreover have "path_entry (mem ?t) ?l4 va' k = path_entry (mem s) ?l4 va' k"
    if "k < 4" "k < 3 \<or> (\<forall>i < n. virtual_page va' \<noteq> virtual_page (va + i * 4096))" for va' k
    using step that by (auto simp: cache_step_def)
  ultimately show ?thesis using step bits by (auto simp: Let_def cache_step_def walk_def)
qed

theorem paging_set_cache_policy_witness:
  "\<exists>s. paging_map_page 0x2000 0x400000 0x7000 example_pg = Some s
    \<and> walk (mem (paging_set_cache 0x400000 1 PAGE_PAT_WRITE_COMBINE s)) 0x2000 0x400000 = Some 0x7000"
proof -
  obtain s where s: "paging_map_page 0x2000 0x400000 0x7000 example_pg = Some s" "paging_tree s 0x2000"
    "walk (mem s) 0x2000 0x400000 = Some 0x7000" "s_pagetable_l4 s = 0x2000" using example_pg_mapped by blast
  then have "\<forall>i < 1. walk (mem s) (s_pagetable_l4 s) (0x400000 + i * 4096) \<noteq> None" by (simp add: less_one_u64)
  from paging_set_cache_policy [OF _ _ this, of PAGE_PAT_WRITE_COMBINE] s
  show ?thesis by (auto simp: Let_def)
qed

text \<open>
  The address field of an entry: what is stored is read back, up to the 40 bits the field
  has, and all flags outside the field are kept.
\<close>

lemma entry_address_roundtrip:
  "paging_get_entry_address (paging_set_entry_address entry a) = take_bit 40 a
   \<and> (\<forall>k. k < 12 \<or> 52 \<le> k \<longrightarrow> bit (paging_set_entry_address entry a) k = bit entry k)"
proof (intro conjI allI impI)
  show "paging_get_entry_address (paging_set_entry_address entry a) = take_bit 40 a"
    unfolding paging_get_entry_address_def entry_masks
    by (rule bit_word_eqI) (auto simp: bit_simps bit_set_entry_address)
qed (auto simp: bit_set_entry_address)

end
