(* ===== verification/Descriptors.thy ===== *)
theory Descriptors
  imports Kernel_Macros
begin

text \<open>
  \<^verbatim>\<open>x86_64/gdt.c\<close>, \<^verbatim>\<open>x86_64/idt.c\<close> and \<^verbatim>\<open>x86_64/isr.c\<close>: the descriptor tables of a processor and the table of
  interrupt handlers.  The tables are lists of entries; the descriptor of the task state
  segment overlays two entries of the global descriptor table.
\<close>

section \<open>Global descriptor table\<close>

definition GDT_NUM :: nat where "GDT_NUM = 8"
definition GDT_TSS_NUM :: nat where "GDT_TSS_NUM = 1"
definition GDT_OFFSET_KERNEL_CODE :: u64 where "GDT_OFFSET_KERNEL_CODE = 0x08"
definition GDT_OFFSET_KERNEL_DATA :: u64 where "GDT_OFFSET_KERNEL_DATA = 0x10"
definition GDT_OFFSET_USER_DATA :: u64 where "GDT_OFFSET_USER_DATA = 0x20"
definition GDT_OFFSET_USER_CODE :: u64 where "GDT_OFFSET_USER_CODE = 0x28"

record GDTEntry =
  limit_low :: u16
  base_low :: u16
  base_mid :: u8
  access :: u8
  gdt_flags :: u8
  base_high :: u8

record GDTDescriptor =
  gdt_size :: u16
  gdt_offset :: addr

definition GDT_ACCESS_WRITABLE :: u8 where "GDT_ACCESS_WRITABLE = 0b00000010"
definition GDT_ACCESS_TYPE :: u8 where "GDT_ACCESS_TYPE = 0b00010000"
definition GDT_ACCESS_PRESENT :: u8 where "GDT_ACCESS_PRESENT = 0b10000000"
definition GDT_ACCESS_EXECUTABLE :: u8 where "GDT_ACCESS_EXECUTABLE = 0b00001000"
definition GDT_ACCESS_DPL :: u8 where "GDT_ACCESS_DPL = 0b01100000"

definition GDT_FLAG_LONG_MODE :: u8 where "GDT_FLAG_LONG_MODE = 0b00100000"
definition GDT_FLAG_PAGE_GRANULARITY :: u8 where "GDT_FLAG_PAGE_GRANULARITY = 0b10000000"

record TSSEntry =
  tss_reserved0 :: u32
  tss_rsp :: "u32 list"
  tss_reserved1 :: "u32 list"
  tss_ist :: "u32 list"
  tss_reserved2 :: "u32 list"
  tss_reserved3 :: u16
  io_map_base :: u16

record TSSDescriptor =
  td_limit_low :: u16
  td_base_low :: u16
  td_base_mid :: u8
  td_access :: u8
  td_flags :: u8
  td_base_mid2 :: u8
  td_base_high :: u32
  td_reserved :: u32

record GDTBlock =
  gdt_descriptor :: GDTDescriptor
  gdt :: "GDTEntry list"
  tss :: "TSSEntry list"

definition zero_gdt_entry :: GDTEntry where
  "zero_gdt_entry = \<lparr>limit_low = 0, base_low = 0, base_mid = 0, access = 0, gdt_flags = 0, base_high = 0\<rparr>"

definition zero_tss :: TSSEntry where
  "zero_tss = \<lparr>tss_reserved0 = 0, tss_rsp = replicate 6 0, tss_reserved1 = replicate 2 0,
     tss_ist = replicate 14 0, tss_reserved2 = replicate 2 0, tss_reserved3 = 0, io_map_base = 0\<rparr>"

text \<open>The size of a packed \<open>GDTEntry\<close> and of a packed \<open>TSSEntry\<close>.\<close>

definition sizeof_GDTEntry :: u64 where "sizeof_GDTEntry = 8"
definition sizeof_TSSEntry :: u64 where "sizeof_TSSEntry = 104"

text \<open>A write outside its array has no value.\<close>

definition gdt_set_entry :: "nat \<Rightarrow> u8 \<Rightarrow> u8 \<Rightarrow> GDTBlock \<Rightarrow> GDTBlock option" where
  "gdt_set_entry gdt_index acc fl b =
     (if gdt_index < length (gdt b)
      then Some (b\<lparr>gdt := (gdt b)[gdt_index := (gdt b ! gdt_index)
        \<lparr>limit_low := 0xffff, access := GDT_ACCESS_TYPE OR GDT_ACCESS_PRESENT OR acc,
         gdt_flags := GDT_FLAG_LONG_MODE OR GDT_FLAG_PAGE_GRANULARITY OR fl\<rparr>]\<rparr>)
      else None)"

text \<open>The two entries a TSS descriptor overlays, byte by byte.\<close>

definition tss_overlay :: "TSSDescriptor \<Rightarrow> GDTEntry \<times> GDTEntry" where
  "tss_overlay d =
     (\<lparr>limit_low = td_limit_low d, base_low = td_base_low d, base_mid = td_base_mid d,
       access = td_access d, gdt_flags = td_flags d, base_high = td_base_mid2 d\<rparr>,
      \<lparr>limit_low = ucast (td_base_high d), base_low = ucast (drop_bit 16 (td_base_high d)),
       base_mid = ucast (td_reserved d), access = ucast (drop_bit 8 (td_reserved d)),
       gdt_flags = ucast (drop_bit 16 (td_reserved d)), base_high = ucast (drop_bit 24 (td_reserved d))\<rparr>)"

definition tss_descriptor :: "addr \<Rightarrow> TSSDescriptor" where
  "tss_descriptor t = \<lparr>td_limit_low = ucast sizeof_TSSEntry, td_base_low = ucast (t AND 0xffff),
     td_base_mid = ucast (drop_bit 16 t AND 0xff), td_access = 0b10000000 OR 0b00001001,
     td_flags = 0b00010000, td_base_mid2 = ucast (drop_bit 24 t AND 0xff),
     td_base_high = ucast (drop_bit 32 t AND 0xffffffff), td_reserved = 0\<rparr>"

text \<open>\<open>tss_address\<close> is the address of the block's task state segment.\<close>

definition gdt_set_tss :: "addr \<Rightarrow> nat \<Rightarrow> GDTBlock \<Rightarrow> GDTBlock option" where
  "gdt_set_tss tss_address gdt_index b =
     (let b = b\<lparr>tss := (tss b)[0 := zero_tss\<lparr>io_map_base := 0xffff\<rparr>]\<rparr>;
          (lo, hi) = tss_overlay (tss_descriptor tss_address)
      in if gdt_index + 1 < length (gdt b)
         then Some (b\<lparr>gdt := (gdt b)[gdt_index := lo, gdt_index + 1 := hi]\<rparr>) else None)"

definition gdt_init :: "addr \<Rightarrow> addr \<Rightarrow> GDTBlock \<Rightarrow> GDTBlock option" where
  "gdt_init gdt_address tss_address b = do {
     let gdt_total_size = (of_nat GDT_NUM * ucast sizeof_GDTEntry :: u16);
     let b = b\<lparr>tss := replicate GDT_TSS_NUM zero_tss\<rparr>;
     let b = b\<lparr>gdt := replicate GDT_NUM zero_gdt_entry\<rparr>;
     b \<leftarrow> gdt_set_entry 1 GDT_ACCESS_EXECUTABLE 0 b;
     b \<leftarrow> gdt_set_entry 2 GDT_ACCESS_WRITABLE 0 b;
     b \<leftarrow> gdt_set_entry 4 (GDT_ACCESS_DPL OR GDT_ACCESS_WRITABLE) 0 b;
     b \<leftarrow> gdt_set_entry 5 (GDT_ACCESS_DPL OR GDT_ACCESS_EXECUTABLE) 0 b;
     b \<leftarrow> gdt_set_tss tss_address 6 b;
     Some (b\<lparr>gdt_descriptor := \<lparr>gdt_size = gdt_total_size - 1, gdt_offset = gdt_address\<rparr>\<rparr>)
   }"

text \<open>A 64 bit stack address in two consecutive 32 bit slots, low half first.\<close>

definition set_pair :: "u64 \<Rightarrow> addr \<Rightarrow> u32 list \<Rightarrow> u32 list option" where
  "set_pair i v xs =
     (if unat i < length xs \<and> unat (i + 1) < length xs
      then Some (xs[unat i := ucast v, unat (i + 1) := ucast (drop_bit 32 v)]) else None)"

definition gdt_set_tss_ist :: "u64 \<Rightarrow> addr \<Rightarrow> GDTBlock \<Rightarrow> GDTBlock option" where
  "gdt_set_tss_ist ist_num stack b =
     map_option (\<lambda>st. b\<lparr>tss := (tss b)[0 := (tss b ! 0)\<lparr>tss_ist := st\<rparr>]\<rparr>)
       (set_pair ((ist_num - 1) * 2) stack (tss_ist (tss b ! 0)))"

definition gdt_set_tss_ring :: "u64 \<Rightarrow> addr \<Rightarrow> GDTBlock \<Rightarrow> GDTBlock option" where
  "gdt_set_tss_ring ring_num stack b =
     map_option (\<lambda>st. b\<lparr>tss := (tss b)[0 := (tss b ! 0)\<lparr>tss_rsp := st\<rparr>]\<rparr>)
       (set_pair (ring_num * 2) stack (tss_rsp (tss b ! 0)))"

section \<open>Interrupt descriptor table\<close>

definition IDT_SIZE :: nat where "IDT_SIZE = 256"
definition IDT_TYPE_PRESENT :: u8 where "IDT_TYPE_PRESENT = 0b1"
definition IDT_TYPE_PRIVILEGE :: u8 where "IDT_TYPE_PRIVILEGE = 0b00"
definition IDT_IST_ISR :: u8 where "IDT_IST_ISR = 1"
definition IDT_IST_IRQ :: u8 where "IDT_IST_IRQ = 2"
definition IDT_IST_TIMER :: u8 where "IDT_IST_TIMER = 3"

datatype IDTGateType = IDT_TYPE_GATE_INTERRUPT | IDT_TYPE_GATE_TRAP | IDT_TYPE_GATE_TASK

primrec gate_value :: "IDTGateType \<Rightarrow> u8" where
  "gate_value IDT_TYPE_GATE_INTERRUPT = 0b1110"
| "gate_value IDT_TYPE_GATE_TRAP = 0b1111"
| "gate_value IDT_TYPE_GATE_TASK = 0b0101"

record IDTEntry =
  offset_low :: u16
  selector :: u16
  ist :: u8
  type_attr :: u8
  offset_mid :: u16
  offset_high :: u32
  idt_zero :: u32

record IDTDescriptor =
  idt_limit :: u16
  idt_base :: addr

record IDTBlock =
  idt_descriptor :: IDTDescriptor
  idt :: "IDTEntry list"

definition zero_idt_entry :: IDTEntry where
  "zero_idt_entry = \<lparr>offset_low = 0, selector = 0, ist = 0, type_attr = 0, offset_mid = 0, offset_high = 0, idt_zero = 0\<rparr>"

definition sizeof_IDTEntry :: u64 where "sizeof_IDTEntry = 16"

definition idt_entry :: "addr \<Rightarrow> IDTGateType \<Rightarrow> u8 \<Rightarrow> IDTEntry" where
  "idt_entry isr_ptr gate i = \<lparr>
     offset_low = ucast (isr_ptr AND 0x000000000000ffff),
     selector = 1 * ucast sizeof_GDTEntry,
     ist = i AND 0x7,
     type_attr = push_bit 7 IDT_TYPE_PRESENT OR push_bit 5 IDT_TYPE_PRIVILEGE OR gate_value gate,
     offset_mid = ucast (drop_bit 16 (isr_ptr AND 0x00000000ffff0000)),
     offset_high = ucast (drop_bit 32 (isr_ptr AND 0xffffffff00000000)),
     idt_zero = 0\<rparr>"

definition idt_set_isr :: "nat \<Rightarrow> addr \<Rightarrow> IDTGateType \<Rightarrow> u8 \<Rightarrow> IDTBlock \<Rightarrow> IDTBlock option" where
  "idt_set_isr index isr_ptr gate i b =
     (if index < length (idt b) then Some (b\<lparr>idt := (idt b)[index := idt_entry isr_ptr gate i]\<rparr>) else None)"

text \<open>\<open>isr n\<close> is the address of the entry routine of vector \<open>n\<close> in \<^verbatim>\<open>isr.asm\<close>.\<close>

definition IDT_SET_ISR :: "(nat \<Rightarrow> addr) \<Rightarrow> nat \<Rightarrow> IDTBlock \<Rightarrow> IDTBlock option" where
  "IDT_SET_ISR isr n = idt_set_isr n (isr n) IDT_TYPE_GATE_TRAP IDT_IST_ISR"
definition IDT_SET_IRQ :: "(nat \<Rightarrow> addr) \<Rightarrow> nat \<Rightarrow> IDTBlock \<Rightarrow> IDTBlock option" where
  "IDT_SET_IRQ isr n = idt_set_isr n (isr n) IDT_TYPE_GATE_INTERRUPT IDT_IST_IRQ"
definition IDT_SET_LVT :: "(nat \<Rightarrow> addr) \<Rightarrow> nat \<Rightarrow> u8 \<Rightarrow> IDTBlock \<Rightarrow> IDTBlock option" where
  "IDT_SET_LVT isr n i = idt_set_isr n (isr n) IDT_TYPE_GATE_INTERRUPT i"

text \<open>A sequence of calls of the same macro.\<close>

primrec in_turn :: "('n \<Rightarrow> 's \<Rightarrow> 's option) \<Rightarrow> 'n list \<Rightarrow> 's \<Rightarrow> 's option" where
  "in_turn f [] s = Some s"
| "in_turn f (n # ns) s = f n s \<bind> in_turn f ns"

definition idt_init :: "(nat \<Rightarrow> addr) \<Rightarrow> addr \<Rightarrow> IDTBlock \<Rightarrow> IDTBlock option" where
  "idt_init isr idt_address b = do {
     let idt_total_size = of_nat IDT_SIZE * sizeof_IDTEntry;
     let b = b\<lparr>idt := replicate IDT_SIZE zero_idt_entry\<rparr>;
     let b = b\<lparr>idt_descriptor := \<lparr>idt_limit = ucast (idt_total_size - 1), idt_base = idt_address\<rparr>\<rparr>;
     b \<leftarrow> in_turn (IDT_SET_ISR isr) [8, 10, 11, 13, 14] b;
     b \<leftarrow> in_turn (IDT_SET_IRQ isr) [32, 33, 35, 36, 37, 38, 39, 40, 41, 42, 43, 44, 45, 46, 47] b;
     IDT_SET_LVT isr 48 IDT_IST_TIMER b
   }"

section \<open>Interrupt handlers\<close>

definition ISR_IRQ_START :: nat where "ISR_IRQ_START = 32"
definition ISR_MAX :: nat where "ISR_MAX = 256"

datatype isr_handler =
  double_fault_handler | general_protection_fault_handler | paging_fault_handler
| pit_handler | keyboard_handler | spurious_interrupt_handler | timer_handler
| tss_fault_handler | segment_fault_handler

text \<open>The table is an array of \<open>ISR_MAX\<close> pointers, \<open>None\<close> for a null pointer.\<close>

definition isr_register_handler :: "nat \<Rightarrow> isr_handler \<Rightarrow> isr_handler option list \<Rightarrow> isr_handler option list option" where
  "isr_register_handler n h t = (if n < length t then Some (t[n := Some h]) else None)"

definition isr_exists :: "nat \<Rightarrow> isr_handler option list \<Rightarrow> bool option" where
  "isr_exists n t = (if n < length t then Some (t ! n \<noteq> None) else None)"

definition isr_init :: "isr_handler option list \<Rightarrow> isr_handler option list option" where
  "isr_init t = do {
     t \<leftarrow> isr_register_handler 8 double_fault_handler t;
     t \<leftarrow> isr_register_handler 13 general_protection_fault_handler t;
     t \<leftarrow> isr_register_handler 14 paging_fault_handler t;
     t \<leftarrow> isr_register_handler 32 pit_handler t;
     t \<leftarrow> isr_register_handler 33 keyboard_handler t;
     t \<leftarrow> isr_register_handler 39 spurious_interrupt_handler t;
     isr_register_handler 48 timer_handler t
   }"

section \<open>What the processor reads back\<close>

definition gdt_entry_at :: "u64 \<Rightarrow> GDTBlock \<Rightarrow> GDTEntry" where
  "gdt_entry_at sel b = gdt b ! unat (sel div sizeof_GDTEntry)"

definition tss_base :: "GDTEntry \<Rightarrow> GDTEntry \<Rightarrow> addr" where
  "tss_base lo hi = ucast (base_low lo) OR push_bit 16 (ucast (base_mid lo)) OR push_bit 24 (ucast (base_high lo))
     OR push_bit 32 (ucast (limit_low hi)) OR push_bit 48 (ucast (base_low hi))"

definition gate_offset :: "IDTEntry \<Rightarrow> addr" where
  "gate_offset e = ucast (offset_low e) OR push_bit 16 (ucast (offset_mid e)) OR push_bit 32 (ucast (offset_high e))"

definition gate_present :: "IDTEntry \<Rightarrow> bool" where
  "gate_present e = bit (type_attr e) 7"

lemma split_16_16_32: "ucast (a AND 0x000000000000ffff :: u64) = (ucast a :: u16)"
  "ucast (drop_bit 16 (a AND 0x00000000ffff0000)) = (ucast (drop_bit 16 a) :: u16)"
  "ucast (drop_bit 32 (a AND 0xffffffff00000000)) = (ucast (drop_bit 32 a) :: u32)"
proof -
  have m: "(0xffff :: u64) = mask 16" "(0xffff0000 :: u64) = push_bit 16 (mask 16)"
    "(0xffffffff00000000 :: u64) = push_bit 32 (mask 32)"
    by (simp_all add: mask_eq_exp_minus_1 push_bit_eq_mult)
  show "ucast (a AND 0x000000000000ffff :: u64) = (ucast a :: u16)"
    unfolding m by (rule bit_word_eqI) (simp add: bit_simps)
  show "ucast (drop_bit 16 (a AND 0x00000000ffff0000)) = (ucast (drop_bit 16 a) :: u16)"
    unfolding m by (rule bit_word_eqI) (auto simp: bit_simps)
  show "ucast (drop_bit 32 (a AND 0xffffffff00000000)) = (ucast (drop_bit 32 a) :: u32)"
    unfolding m by (rule bit_word_eqI) (auto simp: bit_simps dest: bit_imp_le_length)
qed

lemma join_16_16_32: "ucast (ucast a :: u16) OR push_bit 16 (ucast (ucast (drop_bit 16 a) :: u16))
    OR push_bit 32 (ucast (ucast (drop_bit 32 a) :: u32)) = (a :: u64)"
  apply (rule bit_word_eqI)
  subgoal for n by (cases "n < 32"; cases "n < 16") (auto simp: bit_simps dest: bit_imp_le_length)
  done

lemma gate_offset_idt_entry [simp]: "gate_offset (idt_entry a g i) = a"
  by (simp only: gate_offset_def idt_entry_def IDTEntry.simps split_16_16_32 join_16_16_32)

lemma gate_fields_idt_entry [simp]: "selector (idt_entry a g i) = 8" "gate_present (idt_entry a g i)"
  "ist (idt_entry a g i) = i AND 7"
  by (cases g; simp add: idt_entry_def gate_present_def sizeof_GDTEntry_def IDT_TYPE_PRESENT_def
      IDT_TYPE_PRIVILEGE_def bit_simps)+

lemma take_bit_join: "take_bit m x OR push_bit m (take_bit k (drop_bit m x)) = take_bit (m + k) x" for x :: "'a::len word"
  by (rule bit_word_eqI) (auto simp: bit_simps)

lemma ucast_and_mask: "LENGTH('b) \<le> k \<Longrightarrow> ucast (x AND mask k) = (ucast x :: 'b::len word)" for x :: "'a::len word"
  by (rule bit_word_eqI) (auto simp: bit_simps dest: bit_imp_le_length)

lemma ucast_through: "ucast (ucast x :: 'b::len word) = take_bit LENGTH('b) x" for x :: "'a::len word"
  by (rule bit_word_eqI) (auto simp: bit_simps dest: bit_imp_le_length)

lemma ucast_high_half: "ucast (drop_bit 16 (ucast x :: u32)) = (ucast (drop_bit 16 x) :: u16)" for x :: u64
  by (rule bit_word_eqI) (auto simp: bit_simps)

lemma tss_base_overlay: "tss_base (fst (tss_overlay (tss_descriptor t))) (snd (tss_overlay (tss_descriptor t))) = t"
proof -
  have m: "(0xffff :: u64) = mask 16" "(0xff :: u64) = mask 8" "(0xffffffff :: u64) = mask 32"
    by (simp_all add: mask_eq_exp_minus_1)
  have low: "ucast (ucast x :: u32) = (ucast x :: u16)" for x :: u64
    by (rule bit_word_eqI) (auto simp: bit_simps)
  have "tss_base (fst (tss_overlay (tss_descriptor t))) (snd (tss_overlay (tss_descriptor t))) =
      take_bit 16 t OR push_bit 16 (take_bit 8 (drop_bit 16 t)) OR push_bit 24 (take_bit 8 (drop_bit 24 t))
      OR push_bit 32 (take_bit 16 (drop_bit 32 t)) OR push_bit 48 (take_bit 16 (drop_bit 48 t))"
    unfolding tss_base_def tss_overlay_def tss_descriptor_def m
    by (simp add: ucast_and_mask ucast_high_half ucast_through low)
  also have "\<dots> = take_bit 64 t"
    using take_bit_join[of 16 t 8] take_bit_join[of 24 t 8] take_bit_join[of 32 t 16] take_bit_join[of 48 t 16]
    by (simp only: or.assoc[symmetric] arith_simps)
  also have "\<dots> = t" by (simp add: take_bit_word_eq_self)
  finally show ?thesis .
qed

text \<open>The fields of the whole tables.\<close>

definition gdt_table :: "addr \<Rightarrow> GDTEntry list" where
  "gdt_table t =
     (let seg = (\<lambda>a. zero_gdt_entry\<lparr>limit_low := 0xffff, access := a, gdt_flags := 0xa0\<rparr>)
      in [zero_gdt_entry, seg 0x98, seg 0x92, zero_gdt_entry, seg 0xf2, seg 0xf8,
          fst (tss_overlay (tss_descriptor t)), snd (tss_overlay (tss_descriptor t))])"

lemma gdt_init_table:
  "gdt_init g t b = Some (b\<lparr>gdt_descriptor := \<lparr>gdt_size = 63, gdt_offset = g\<rparr>, gdt := gdt_table t,
      tss := [zero_tss\<lparr>io_map_base := 0xffff\<rparr>]\<rparr>)"
proof -
  have size: "of_nat GDT_NUM * ucast sizeof_GDTEntry = (64 :: u16)"
    by (simp add: GDT_NUM_def sizeof_GDTEntry_def)
  have table: "replicate GDT_NUM x = [x, x, x, x, x, x, x, x]" "replicate GDT_TSS_NUM y = [y]"
    for x :: GDTEntry and y :: TSSEntry
    by (simp_all add: GDT_NUM_def GDT_TSS_NUM_def numeral_nat)
  show ?thesis
    unfolding gdt_init_def size table
    by (simp add: gdt_set_entry_def gdt_set_tss_def gdt_table_def eval_nat_numeral
      GDT_ACCESS_EXECUTABLE_def GDT_ACCESS_WRITABLE_def GDT_ACCESS_DPL_def
      GDT_ACCESS_TYPE_def GDT_ACCESS_PRESENT_def GDT_FLAG_LONG_MODE_def GDT_FLAG_PAGE_GRANULARITY_def
      zero_gdt_entry_def Let_def split: prod.splits)
qed

lemma in_turn_idt:
  assumes f: "\<And>n b. n < length (idt b) \<Longrightarrow> f n b = Some (b\<lparr>idt := (idt b)[n := e n]\<rparr>)"
    and ns: "\<forall>n\<in>set ns. n < length (idt b)"
  obtains b' where "in_turn f ns b = Some b'" "length (idt b') = length (idt b)"
    "idt_descriptor b' = idt_descriptor b" "IDTBlock.more b' = IDTBlock.more b"
    "\<And>m. m < length (idt b) \<Longrightarrow> idt b' ! m = (if m \<in> set ns then e m else idt b ! m)"
  using ns
proof (induction ns arbitrary: b thesis)
  case Nil
  then show ?case by simp
next
  case (Cons n ns)
  let ?b = "b\<lparr>idt := (idt b)[n := e n]\<rparr>"
  obtain b' where b': "in_turn f ns ?b = Some b'" "length (idt b') = length (idt ?b)"
    "idt_descriptor b' = idt_descriptor ?b" "IDTBlock.more b' = IDTBlock.more ?b"
    "\<And>m. m < length (idt ?b) \<Longrightarrow> idt b' ! m = (if m \<in> set ns then e m else idt ?b ! m)"
    by (rule Cons.IH[of ?b]) (use Cons.prems in auto)
  show ?case
    by (rule Cons.prems(1)[of b']) (use b' f[of n b] Cons.prems(2) in \<open>auto simp: nth_list_update\<close>)
qed

definition idt_vectors :: "nat list" where
  "idt_vectors = [8, 10, 11, 13, 14, 32, 33, 35, 36, 37, 38, 39, 40, 41, 42, 43, 44, 45, 46, 47, 48]"

lemma idt_init_result:
  obtains b' where "idt_init isr a b = Some b'" "length (idt b') = 256"
    "idt_descriptor b' = \<lparr>idt_limit = 4095, idt_base = a\<rparr>"
    "\<And>n. n < 256 \<Longrightarrow> n \<notin> set idt_vectors \<Longrightarrow> idt b' ! n = zero_idt_entry"
    "\<And>n. n < 256 \<Longrightarrow> n \<in> set idt_vectors \<Longrightarrow> \<exists>g i. i \<in> {1, 2, 3} \<and> idt b' ! n = idt_entry (isr n) g i"
proof -
  let ?b = "b\<lparr>idt := replicate 256 zero_idt_entry, idt_descriptor := \<lparr>idt_limit = 4095, idt_base = a\<rparr>\<rparr>"
  let ?vs = "[8, 10, 11, 13, 14] :: nat list"
  let ?ws = "[32, 33, 35, 36, 37, 38, 39, 40, 41, 42, 43, 44, 45, 46, 47] :: nat list"
  obtain c where c: "in_turn (IDT_SET_ISR isr) ?vs ?b = Some c" "length (idt c) = length (idt ?b)"
    "idt_descriptor c = idt_descriptor ?b"
    "\<And>m. m < length (idt ?b) \<Longrightarrow>
      idt c ! m = (if m \<in> set ?vs then idt_entry (isr m) IDT_TYPE_GATE_TRAP IDT_IST_ISR else idt ?b ! m)"
    by (rule in_turn_idt[of "IDT_SET_ISR isr" "\<lambda>m. idt_entry (isr m) IDT_TYPE_GATE_TRAP IDT_IST_ISR" ?vs ?b])
      (simp_all add: IDT_SET_ISR_def idt_set_isr_def)
  obtain d where d: "in_turn (IDT_SET_IRQ isr) ?ws c = Some d" "length (idt d) = length (idt c)"
    "idt_descriptor d = idt_descriptor c"
    "\<And>m. m < length (idt c) \<Longrightarrow>
      idt d ! m = (if m \<in> set ?ws then idt_entry (isr m) IDT_TYPE_GATE_INTERRUPT IDT_IST_IRQ else idt c ! m)"
    by (rule in_turn_idt[of "IDT_SET_IRQ isr" "\<lambda>m. idt_entry (isr m) IDT_TYPE_GATE_INTERRUPT IDT_IST_IRQ" ?ws c])
      (simp_all add: IDT_SET_IRQ_def idt_set_isr_def c(2))
  let ?e = "d\<lparr>idt := (idt d)[48 := idt_entry (isr 48) IDT_TYPE_GATE_INTERRUPT IDT_IST_TIMER]\<rparr>"
  have len: "length (idt c) = 256" "length (idt d) = 256" by (simp_all add: c(2) d(2))
  have res: "idt_init isr a b = Some ?e"
    using c(1) d(1) len
    by (simp add: idt_init_def IDT_SIZE_def sizeof_IDTEntry_def IDT_SET_LVT_def idt_set_isr_def
        del: in_turn.simps)
  have absent: "idt ?e ! n = zero_idt_entry" if "n < 256" "n \<notin> set idt_vectors" for n
    using that by (simp add: len c(4) d(4) idt_vectors_def)
  have gate: "\<exists>g i. i \<in> {1, 2, 3} \<and> idt ?e ! n = idt_entry (isr n) g i" if "n < 256" "n \<in> set idt_vectors" for n
  proof -
    have "set idt_vectors = set ?vs \<union> set ?ws \<union> {48}" by (auto simp: idt_vectors_def)
    with that consider "n \<in> set ?vs" | "n \<in> set ?ws" | "n = 48" by blast
    then show ?thesis
    proof cases
      case 1
      then have "idt ?e ! n = idt_entry (isr n) IDT_TYPE_GATE_TRAP IDT_IST_ISR"
        by (auto simp: len c(4) d(4))
      then show ?thesis by (intro exI[of _ IDT_TYPE_GATE_TRAP] exI[of _ 1]) (simp add: IDT_IST_ISR_def)
    next
      case 2
      then have "idt ?e ! n = idt_entry (isr n) IDT_TYPE_GATE_INTERRUPT IDT_IST_IRQ"
        by (auto simp: len c(4) d(4))
      then show ?thesis by (intro exI[of _ IDT_TYPE_GATE_INTERRUPT] exI[of _ 2]) (simp add: IDT_IST_IRQ_def)
    next
      case 3
      then show ?thesis
        by (intro exI[of _ IDT_TYPE_GATE_INTERRUPT] exI[of _ 3]) (simp add: IDT_IST_TIMER_def len)
    qed
  qed
  show ?thesis
    by (rule that[OF res _ _ absent gate]) (simp_all add: len c(3) d(3))
qed

lemma isr_init_result:
  assumes "length t = 256"
  shows "isr_init t = Some (t[8 := Some double_fault_handler, 13 := Some general_protection_fault_handler,
    14 := Some paging_fault_handler, 32 := Some pit_handler, 33 := Some keyboard_handler,
    39 := Some spurious_interrupt_handler, 48 := Some timer_handler])"
  using assms by (simp add: isr_init_def isr_register_handler_def)

lemma isr_init_vectors:
  obtains t where "isr_init (replicate ISR_MAX None) = Some t"
    "\<And>n. n < 256 \<Longrightarrow> isr_exists n t = Some True \<Longrightarrow> n \<in> set idt_vectors"
proof (rule that[OF isr_init_result])
  show "length (replicate ISR_MAX None) = 256" by (simp only: length_replicate ISR_MAX_def)
  fix n :: nat
  assume "n < 256" "isr_exists n ((replicate ISR_MAX None)[8 := Some double_fault_handler,
      13 := Some general_protection_fault_handler, 14 := Some paging_fault_handler, 32 := Some pit_handler,
      33 := Some keyboard_handler, 39 := Some spurious_interrupt_handler, 48 := Some timer_handler]) = Some True"
  then show "n \<in> set idt_vectors"
    by (simp add: isr_exists_def ISR_MAX_def nth_list_update idt_vectors_def split: if_splits)
qed

text \<open>\<open>seg_kind e\<close>: present, privilege level, executable, writable.\<close>

definition seg_kind :: "GDTEntry \<Rightarrow> bool \<times> u8 \<times> bool \<times> bool" where
  "seg_kind e = (bit (access e) 7, drop_bit 5 (access e AND GDT_ACCESS_DPL),
     bit (access e) 3, bit (access e) 1)"

text \<open>
  C28.  \<open>gdt_init\<close> always succeeds, and the four selectors the rest of the kernel uses name the
  segments they are meant to: ring 0 code, ring 0 data, ring 3 data and ring 3 code, each of them
  present; the null descriptor stays zero, and the base of the system
  descriptor behind them is the address of the block's task state segment.
\<close>

theorem gdt_init_segments:
  "\<exists>b'. gdt_init g t b = Some b' \<and> gdt_descriptor b' = \<lparr>gdt_size = 63, gdt_offset = g\<rparr> \<and>
     gdt_entry_at 0 b' = zero_gdt_entry \<and>
     seg_kind (gdt_entry_at GDT_OFFSET_KERNEL_CODE b') = (True, 0, True, False) \<and>
     seg_kind (gdt_entry_at GDT_OFFSET_KERNEL_DATA b') = (True, 0, False, True) \<and>
     seg_kind (gdt_entry_at GDT_OFFSET_USER_DATA b') = (True, 3, False, True) \<and>
     seg_kind (gdt_entry_at GDT_OFFSET_USER_CODE b') = (True, 3, True, False) \<and>
     tss_base (gdt b' ! 6) (gdt b' ! 7) = t \<and> io_map_base (tss b' ! 0) = 0xffff"
  using tss_base_overlay[of t]
  by (simp add: gdt_init_table gdt_entry_at_def sizeof_GDTEntry_def gdt_table_def seg_kind_def
      GDT_OFFSET_KERNEL_CODE_def GDT_OFFSET_KERNEL_DATA_def GDT_OFFSET_USER_DATA_def
      GDT_OFFSET_USER_CODE_def GDT_ACCESS_DPL_def zero_gdt_entry_def zero_tss_def drop_bit_eq_div)

text \<open>
  C27.  After \<open>idt_init\<close> a vector has a present gate exactly when it is in the list of the source;
  that gate leads to the entry routine of its own vector, in the kernel's code segment, on one of
  the interrupt stacks 1 to 3; and no handler that \<open>isr_init\<close> registers is left without a gate.
\<close>

theorem idt_init_gates:
  "\<exists>b'. idt_init isr a b = Some b' \<and> idt_descriptor b' = \<lparr>idt_limit = 4095, idt_base = a\<rparr> \<and>
     (\<forall>n<256. gate_present (idt b' ! n) \<longleftrightarrow> n \<in> set idt_vectors) \<and>
     (\<forall>n<256. gate_present (idt b' ! n) \<longrightarrow> gate_offset (idt b' ! n) = isr n \<and>
        ucast (selector (idt b' ! n)) = GDT_OFFSET_KERNEL_CODE \<and> ist (idt b' ! n) \<in> {1, 2, 3}) \<and>
     (\<exists>t. isr_init (replicate ISR_MAX None) = Some t \<and>
        (\<forall>n<256. isr_exists n t = Some True \<longrightarrow> gate_present (idt b' ! n)))"
proof -
  obtain b' where b': "idt_init isr a b = Some b'" "idt_descriptor b' = \<lparr>idt_limit = 4095, idt_base = a\<rparr>"
    "\<And>n. n < 256 \<Longrightarrow> n \<notin> set idt_vectors \<Longrightarrow> idt b' ! n = zero_idt_entry"
    "\<And>n. n < 256 \<Longrightarrow> n \<in> set idt_vectors \<Longrightarrow> \<exists>g i. i \<in> {1, 2, 3} \<and> idt b' ! n = idt_entry (isr n) g i"
    by (rule idt_init_result[of isr a b]) blast
  have absent: "\<not> gate_present zero_idt_entry" by (simp add: gate_present_def zero_idt_entry_def)
  have present: "gate_present (idt b' ! n) \<longleftrightarrow> n \<in> set idt_vectors" if "n < 256" for n
    using b'(3,4)[of n] that absent by (cases "n \<in> set idt_vectors") auto
  have gate: "gate_offset (idt b' ! n) = isr n \<and> ucast (selector (idt b' ! n)) = GDT_OFFSET_KERNEL_CODE \<and>
      ist (idt b' ! n) \<in> {1, 2, 3}" if "n < 256" "n \<in> set idt_vectors" for n
    using b'(4)[OF that] by (auto simp: GDT_OFFSET_KERNEL_CODE_def)
  obtain t where "isr_init (replicate ISR_MAX None) = Some t"
    "\<And>n. n < 256 \<Longrightarrow> isr_exists n t = Some True \<Longrightarrow> n \<in> set idt_vectors"
    by (rule isr_init_vectors) blast
  then show ?thesis
    using b'(1,2) present gate by (intro exI[of _ b']) simp
qed

theorem idt_init_gates_witness:
  "\<exists>b'. idt_init (\<lambda>n. 0x1000 + of_nat n) 0x2000 \<lparr>idt_descriptor = \<lparr>idt_limit = 0, idt_base = 0\<rparr>, idt = []\<rparr> = Some b' \<and>
     gate_offset (idt b' ! 48) = 0x1030 \<and> \<not> gate_present (idt b' ! 34)"
proof -
  obtain b' where b': "idt_init (\<lambda>n. 0x1000 + of_nat n) 0x2000 \<lparr>idt_descriptor = \<lparr>idt_limit = 0, idt_base = 0\<rparr>, idt = []\<rparr> = Some b'"
    "\<forall>n<256. gate_present (idt b' ! n) \<longleftrightarrow> n \<in> set idt_vectors"
    "\<forall>n<256. gate_present (idt b' ! n) \<longrightarrow> gate_offset (idt b' ! n) = 0x1000 + of_nat n"
    using idt_init_gates[of "\<lambda>n. 0x1000 + of_nat n" "0x2000" "\<lparr>idt_descriptor = \<lparr>idt_limit = 0, idt_base = 0\<rparr>, idt = []\<rparr>"]
    by blast
  have "gate_present (idt b' ! 48)" "\<not> gate_present (idt b' ! 34)"
    using b'(2) by (simp_all add: idt_vectors_def)
  then show ?thesis using b'(1) b'(3)[rule_format, of 48] by simp
qed

end
