(* ===== verification/Io.thy ===== *)
theory Io
  imports Kernel_Macros
begin

text \<open>
  \<^verbatim>\<open>x86_64/io.c\<close>, \<^verbatim>\<open>x86_64/pit.c\<close> and the keyboard of \<^verbatim>\<open>x86_64/interrupt_handler.c\<close>: port input and
  output, the two interrupt controllers, the programmable interval timer and the keyboard's
  scan codes.  Output is appended to the machine's trace of port accesses; what \<open>inb\<close> reads is
  the devices' answer, an argument of the operations that read.
\<close>

section \<open>Ports\<close>

definition outb :: "u16 \<Rightarrow> u8 \<Rightarrow> 'a machine_scheme \<Rightarrow> 'a machine_scheme" where
  "outb port v s = s\<lparr>ports := ports s @ [Outb port v]\<rparr>"

definition outw :: "u16 \<Rightarrow> u16 \<Rightarrow> 'a machine_scheme \<Rightarrow> 'a machine_scheme" where
  "outw port v s = s\<lparr>ports := ports s @ [Outw port v]\<rparr>"

definition outl :: "u16 \<Rightarrow> u32 \<Rightarrow> 'a machine_scheme \<Rightarrow> 'a machine_scheme" where
  "outl port v s = s\<lparr>ports := ports s @ [Outl port v]\<rparr>"

definition io_wait :: "'a machine_scheme \<Rightarrow> 'a machine_scheme" where
  "io_wait s = s\<lparr>ports := ports s @ [Io_Wait]\<rparr>"

section \<open>The interrupt controllers\<close>

definition IO_PIC1_COMMAND :: u16 where "IO_PIC1_COMMAND = 0x20"
definition IO_PIC1_DATA :: u16 where "IO_PIC1_DATA = 0x21"
definition IO_PIC2_COMMAND :: u16 where "IO_PIC2_COMMAND = 0xa0"
definition IO_PIC2_DATA :: u16 where "IO_PIC2_DATA = 0xa1"

definition IO_ICW1_INIT :: u8 where "IO_ICW1_INIT = 0x10"
definition IO_ICW1_ICW4 :: u8 where "IO_ICW1_ICW4 = 0x01"
definition IO_ICW4_8086 :: u8 where "IO_ICW4_8086 = 0x01"

definition IO_CHIPSET_ADDRESS_REGISTER :: u16 where "IO_CHIPSET_ADDRESS_REGISTER = 0x22"
definition IO_CHIPSET_DATA_REGISTER :: u16 where "IO_CHIPSET_DATA_REGISTER = 0x23"
definition IO_IMCR_REGISTER_ADDRESS :: u8 where "IO_IMCR_REGISTER_ADDRESS = 0x70"
definition IO_IMCR_VIA_APIC :: u8 where "IO_IMCR_VIA_APIC = 0x01"

definition IO_PIC_EOI :: u8 where "IO_PIC_EOI = 0x20"

lemmas io_constants = IO_PIC1_COMMAND_def IO_PIC1_DATA_def IO_PIC2_COMMAND_def IO_PIC2_DATA_def
  IO_ICW1_INIT_def IO_ICW1_ICW4_def IO_ICW4_8086_def IO_CHIPSET_ADDRESS_REGISTER_def
  IO_CHIPSET_DATA_REGISTER_def IO_IMCR_REGISTER_ADDRESS_def
  IO_IMCR_VIA_APIC_def IO_PIC_EOI_def

definition io_pic_disable :: "'a machine_scheme \<Rightarrow> 'a machine_scheme" where
  "io_pic_disable s =
     (let s = outb IO_CHIPSET_ADDRESS_REGISTER IO_IMCR_REGISTER_ADDRESS s;
          s = io_wait s;
          s = outb IO_CHIPSET_DATA_REGISTER IO_IMCR_VIA_APIC s;
          s = io_wait s;
          s = outb IO_PIC1_DATA 0xff s;
          s = io_wait s
      in outb IO_PIC2_DATA 0xff s)"

definition io_pic_mask :: "'a machine_scheme \<Rightarrow> 'a machine_scheme" where
  "io_pic_mask s =
     (let s = outb IO_PIC1_DATA 0b11111000 s
      in outb IO_PIC2_DATA 0b11101111 s)"

text \<open>\<open>d1\<close> and \<open>d2\<close> are the masks the controllers answer with.\<close>

definition io_pic_remap :: "u8 \<Rightarrow> u8 \<Rightarrow> 'a machine_scheme \<Rightarrow> 'a machine_scheme" where
  "io_pic_remap d1 d2 s =
     (let s = io_wait s;
          s = io_wait s;
          s = outb IO_PIC1_COMMAND (IO_ICW1_INIT OR IO_ICW1_ICW4) s;
          s = io_wait s;
          s = outb IO_PIC2_COMMAND (IO_ICW1_INIT OR IO_ICW1_ICW4) s;
          s = io_wait s;
          s = outb IO_PIC1_DATA 0x20 s;
          s = io_wait s;
          s = outb IO_PIC2_DATA 0x28 s;
          s = io_wait s;
          s = outb IO_PIC1_DATA 0x04 s;
          s = io_wait s;
          s = outb IO_PIC2_DATA 0x02 s;
          s = io_wait s;
          s = outb IO_PIC1_DATA IO_ICW4_8086 s;
          s = io_wait s;
          s = outb IO_PIC2_DATA IO_ICW4_8086 s;
          s = io_wait s;
          s = outb IO_PIC1_DATA d1 s;
          s = io_wait s
      in outb IO_PIC2_DATA d2 s)"

definition io_pic_end_master :: "'a machine_scheme \<Rightarrow> 'a machine_scheme" where
  "io_pic_end_master s = outb IO_PIC1_COMMAND IO_PIC_EOI s"

definition io_pic_end_slave :: "'a machine_scheme \<Rightarrow> 'a machine_scheme" where
  "io_pic_end_slave s =
     (let s = outb IO_PIC2_COMMAND IO_PIC_EOI s
      in outb IO_PIC1_COMMAND IO_PIC_EOI s)"

section \<open>The interval timer\<close>

definition PIT_BASE_FREQUENCY :: u64 where "PIT_BASE_FREQUENCY = 1193182"
definition PIT_MAX_DIVISOR :: u64 where "PIT_MAX_DIVISOR = 65535"
definition PIT_DEFAULT_DIVISOR :: u64 where "PIT_DEFAULT_DIVISOR = PIT_MAX_DIVISOR"
definition PIT_PORT :: u16 where "PIT_PORT = 0x40"

lemmas pit_constants = PIT_BASE_FREQUENCY_def PIT_MAX_DIVISOR_def PIT_DEFAULT_DIVISOR_def PIT_PORT_def

text \<open>The static variables of \<^verbatim>\<open>pit.c\<close>.\<close>

record pit_state =
  s_ticks_since_boot :: u64
  s_divisor :: u16

definition pit_boot :: pit_state where
  "pit_boot = \<lparr>s_ticks_since_boot = 0, s_divisor = ucast PIT_DEFAULT_DIVISOR\<rparr>"

definition pit_set_divisor :: "u64 \<Rightarrow> pit_state \<times> 'a machine_scheme \<Rightarrow> pit_state \<times> 'a machine_scheme" where
  "pit_set_divisor divisor = (\<lambda>(p, s).
     (let p = p\<lparr>s_divisor := ucast divisor\<rparr>;
          p = (if ucast (s_divisor p) > PIT_MAX_DIVISOR then p\<lparr>s_divisor := ucast PIT_MAX_DIVISOR\<rparr> else p);
          s = outb PIT_PORT (ucast (s_divisor p AND 0x00ff)) s;
          s = io_wait s;
          s = outb PIT_PORT (ucast (drop_bit 8 (s_divisor p AND 0xff00))) s
      in (p, s)))"

definition pit_init :: "pit_state \<times> 'a machine_scheme \<Rightarrow> pit_state \<times> 'a machine_scheme" where
  "pit_init = pit_set_divisor PIT_DEFAULT_DIVISOR"

text \<open>A division by zero traps.\<close>

definition pit_get_frequency :: "pit_state \<Rightarrow> u64 option" where
  "pit_get_frequency p =
     (if s_divisor p = 0 then None else Some (PIT_BASE_FREQUENCY div ucast (s_divisor p)))"

definition pit_set_frequency :: "u64 \<Rightarrow> pit_state \<times> 'a machine_scheme \<Rightarrow> (pit_state \<times> 'a machine_scheme) option" where
  "pit_set_frequency frequency ps =
     (if frequency = 0 then None else Some (pit_set_divisor (PIT_BASE_FREQUENCY div frequency) ps))"

definition pit_on_interrupt :: "pit_state \<Rightarrow> pit_state" where
  "pit_on_interrupt p = p\<lparr>s_ticks_since_boot := s_ticks_since_boot p + ucast (s_divisor p)\<rparr>"

definition pit_get_ticks_since_boot :: "pit_state \<Rightarrow> u64" where
  "pit_get_ticks_since_boot p = s_ticks_since_boot p"

section \<open>The keyboard\<close>

definition s_keyboard_scancodes :: string where
  "s_keyboard_scancodes =
     [CHR 0x00, CHR 0x00] @ ''12345678'' @ ''90-='' @ [CHR 0x00, CHR 0x00] @ ''qwertyui'' @ ''op[]''
     @ [CHR 0x00, CHR 0x00] @ ''asdfghjkl;'' @ [CHR 0x27, CHR 0x60, CHR 0x00, CHR 0x5c] @ ''zxcvbnm,./''
     @ [CHR 0x00] @ ''*'' @ [CHR 0x00] @ '' ''"

text \<open>The character pushed to standard input and echoed for a scan code; none for the others.\<close>

definition keyboard_handler_char :: "u8 \<Rightarrow> char option" where
  "keyboard_handler_char scancode =
     (if unat scancode < length s_keyboard_scancodes then Some (s_keyboard_scancodes ! unat scancode) else None)"

section \<open>The reload value the timer receives\<close>

lemmas port_defs = outb_def outw_def outl_def io_wait_def

lemma pit_set_divisor_result:
  "pit_set_divisor d (p, s) = (p\<lparr>s_divisor := ucast d\<rparr>,
     s\<lparr>ports := ports s @ [Outb PIT_PORT (ucast d), Io_Wait, Outb PIT_PORT (ucast (drop_bit 8 d))]\<rparr>)"
proof -
  have clamp: "\<not> PIT_MAX_DIVISOR < ucast (ucast d :: u16)"
    using unsigned_less[of "ucast d :: u16", where ?'a = nat]
    by (simp add: PIT_MAX_DIVISOR_def word_less_nat_alt unsigned_ucast_eq unsigned_take_bit_eq)
  have m: "(0xff :: u16) = mask 8" "(0xff00 :: u16) = push_bit 8 (mask 8)"
    by (simp_all add: mask_eq_exp_minus_1 push_bit_eq_mult)
  have low: "ucast ((ucast d :: u16) AND 0x00ff) = (ucast d :: u8)"
    unfolding m by (rule bit_word_eqI) (auto simp: bit_simps)
  have high: "ucast (drop_bit 8 ((ucast d :: u16) AND 0xff00)) = (ucast (drop_bit 8 d) :: u8)"
    unfolding m by (rule bit_word_eqI) (auto simp: bit_simps)
  show ?thesis
    using clamp low high by (simp add: pit_set_divisor_def port_defs Let_def)
qed

lemma pit_divisor_of_frequency:
  assumes "19 \<le> f" "f \<le> PIT_BASE_FREQUENCY"
  shows "unat (ucast (PIT_BASE_FREQUENCY div f) :: u16) = 1193182 div unat f"
    and "1193182 div unat f \<noteq> 0"
proof -
  have f: "19 \<le> unat f" "unat f \<le> 1193182"
    using assms by (simp_all add: word_le_nat_alt PIT_BASE_FREQUENCY_def)
  have "1193182 div unat f \<le> 1193182 div 19" using f(1) by (intro div_le_mono2) simp_all
  then have "1193182 div unat f < 65536" by simp
  then show "unat (ucast (PIT_BASE_FREQUENCY div f) :: u16) = 1193182 div unat f"
    by (simp add: unsigned_ucast_eq PIT_BASE_FREQUENCY_def unat_div take_bit_nat_eq_self)
  show "1193182 div unat f \<noteq> 0" using f by (simp add: div_eq_0_iff)
qed

text \<open>
  For a frequency from 19 Hz to the base frequency, \<open>pit_set_frequency\<close> sends the quotient of
  the base frequency to the timer, low byte first, and \<open>pit_get_frequency\<close> then answers with a
  frequency that is at least the one asked for.
\<close>

lemma pit_frequency_set:
  assumes "19 \<le> f" "f \<le> PIT_BASE_FREQUENCY"
  shows "\<exists>p' s' lo hi g. pit_set_frequency f (p, s) = Some (p', s') \<and>
     ports s' = ports s @ [Outb PIT_PORT lo, Io_Wait, Outb PIT_PORT hi] \<and>
     unat lo + 256 * unat hi = unat PIT_BASE_FREQUENCY div unat f \<and>
     pit_get_frequency p' = Some g \<and> f \<le> g"
proof -
  let ?d = "PIT_BASE_FREQUENCY div f"
  note d = pit_divisor_of_frequency[OF assms]
  have f0: "f \<noteq> 0" using assms(1) by auto
  have d0: "(ucast ?d :: u16) \<noteq> 0" using d by (metis unsigned_0)
  have small: "1193182 div unat f < 65536"
    using unsigned_less[of "ucast ?d :: u16", where ?'a = nat] d(1) by simp
  have bytes: "unat (ucast ?d :: u8) + 256 * unat (ucast (drop_bit 8 ?d) :: u8) = 1193182 div unat f"
    using small by (simp add: unsigned_ucast_eq unsigned_drop_bit_eq drop_bit_eq_div take_bit_eq_mod
        unat_div PIT_BASE_FREQUENCY_def)
  have "unat f \<le> 1193182 div (1193182 div unat f)"
    using d(2) times_div_less_eq_dividend[of "unat f" 1193182] by (simp add: less_eq_div_iff_mult_less_eq mult.commute)
  then have "f \<le> PIT_BASE_FREQUENCY div ucast (ucast ?d :: u16)"
    using d(1) by (simp add: word_le_nat_alt unat_div PIT_BASE_FREQUENCY_def unsigned_take_bit_eq unsigned_ucast_eq)
  then show ?thesis
    using f0 d0 bytes
    by (simp add: pit_set_frequency_def pit_set_divisor_result pit_get_frequency_def PIT_BASE_FREQUENCY_def)
qed

text \<open>
  The clamp to the largest divisor comes after the divisor was stored in 16 bits and so never
  acts: every divisor is reduced modulo 65536.  In particular a frequency of 18 Hz, whose
  quotient is 66287, is set up as one of 1588 Hz.
\<close>

lemma pit_divisor_truncated:
  "unat (s_divisor (fst (pit_set_divisor d (p, s)))) = unat d mod 65536 \<and>
   (\<exists>p' s'. pit_set_frequency 18 (p, s) = Some (p', s') \<and> pit_get_frequency p' = Some 1588)"
  by (simp add: pit_set_divisor_result pit_set_frequency_def pit_get_frequency_def pit_constants
      unsigned_ucast_eq take_bit_eq_mod)

end
