(* ===== verification/Acpi.thy ===== *)
theory Acpi
  imports Kernel_Macros
begin

text \<open>
  \<^verbatim>\<open>x86_64/acpi.h\<close> and \<^verbatim>\<open>x86_64/acpi.c\<close>: the firmware's description tables as they lie in memory, and
  the search of a table by its signature.  Each packed structure is a record together with the
  function that reads it at an address.
\<close>

section \<open>The tables\<close>

record RSDP2 =
  rsdp_signature :: "u8 list"
  rsdp_checksum :: u8
  rsdp_oem_id :: "u8 list"
  rsdp_revision :: u8
  rsdt_base :: u32
  rsdp_length :: u32
  xsdt_base :: u64
  xchecksum :: u8
  rsdp_reserved :: "u8 list"

definition get_RSDP2 :: "memory \<Rightarrow> addr \<Rightarrow> RSDP2" where
  "get_RSDP2 m a = \<lparr>rsdp_signature = load_array 8 m a, rsdp_checksum = m (a + 8),
     rsdp_oem_id = load_array 6 m (a + 9), rsdp_revision = m (a + 15), rsdt_base = load32 m (a + 16),
     rsdp_length = load32 m (a + 20), xsdt_base = load64 m (a + 24), xchecksum = m (a + 32),
     rsdp_reserved = load_array 3 m (a + 33)\<rparr>"

record SDTHeader =
  sdt_signature :: "u8 list"
  sdt_length :: u32
  sdt_revision :: u8
  sdt_checksum :: u8
  sdt_oem_id :: "u8 list"
  oem_table_id :: "u8 list"
  oem_revision :: u32
  creator_id :: u32
  creator_revision :: u32

definition sizeof_SDTHeader :: u64 where "sizeof_SDTHeader = 36"

definition get_SDTHeader :: "memory \<Rightarrow> addr \<Rightarrow> SDTHeader" where
  "get_SDTHeader m a = \<lparr>sdt_signature = load_array 4 m a, sdt_length = load32 m (a + 4),
     sdt_revision = m (a + 8), sdt_checksum = m (a + 9), sdt_oem_id = load_array 6 m (a + 10),
     oem_table_id = load_array 8 m (a + 16), oem_revision = load32 m (a + 24),
     creator_id = load32 m (a + 28), creator_revision = load32 m (a + 32)\<rparr>"

record MCFGHeader =
  mcfg_header :: SDTHeader
  mcfg_reserved :: "u8 list"

definition sizeof_MCFGHeader :: u64 where "sizeof_MCFGHeader = 44"

definition get_MCFGHeader :: "memory \<Rightarrow> addr \<Rightarrow> MCFGHeader" where
  "get_MCFGHeader m a = \<lparr>mcfg_header = get_SDTHeader m a, mcfg_reserved = load_array 8 m (a + sizeof_SDTHeader)\<rparr>"

record MADTHeader =
  madt_header :: SDTHeader
  local_apic_address :: u32
  madt_flags :: u32

definition sizeof_MADTHeader :: u64 where "sizeof_MADTHeader = 44"

definition get_MADTHeader :: "memory \<Rightarrow> addr \<Rightarrow> MADTHeader" where
  "get_MADTHeader m a = \<lparr>madt_header = get_SDTHeader m a, local_apic_address = load32 m (a + 36),
     madt_flags = load32 m (a + 40)\<rparr>"

section \<open>Searching a table\<close>

text \<open>The inner loop: whether it reaches its return at the fourth character.\<close>

function signature_loop :: "memory \<Rightarrow> addr \<Rightarrow> addr \<Rightarrow> nat \<Rightarrow> bool" where
  "signature_loop m header signature i =
     (if i < 4
      then if m (header + of_nat i) \<noteq> m (signature + of_nat i) then False
           else if i = 3 then True
           else signature_loop m header signature (i + 1)
      else False)"
  by pat_completeness auto
termination by (relation "measure (\<lambda>(m, h, s, i). 4 - i)") auto

declare signature_loop.simps [simp del]

partial_function (option) acpi_loop :: "memory \<Rightarrow> addr \<Rightarrow> addr \<Rightarrow> u64 \<Rightarrow> addr option" where
  "acpi_loop m xsdt signature t =
     (if t < ucast (sdt_length (get_SDTHeader m xsdt)) - sizeof_SDTHeader
      then let header = load64 m (xsdt + sizeof_SDTHeader + t)
           in if signature_loop m header signature 0 then Some header
              else acpi_loop m xsdt signature (t + 8)
      else Some 0)"

declare acpi_loop.simps [code]

definition acpi_get_table :: "memory \<Rightarrow> addr \<Rightarrow> addr \<Rightarrow> addr option" where
  "acpi_get_table m xsdt signature = acpi_loop m xsdt signature 0"

section \<open>The search as a search in a list\<close>

definition has_signature :: "memory \<Rightarrow> addr \<Rightarrow> addr \<Rightarrow> bool" where
  "has_signature m signature header \<longleftrightarrow> sdt_signature (get_SDTHeader m header) = load_array 4 m signature"

lemma signature_loop_from:
  "i \<le> 3 \<Longrightarrow> signature_loop m h g i \<longleftrightarrow> (\<forall>j. i \<le> j \<and> j < 4 \<longrightarrow> m (h + of_nat j) = m (g + of_nat j))"
proof (induction "3 - i" arbitrary: i)
  case 0
  then have "i = 3" by simp
  moreover have "3 \<le> j \<and> j < 4 \<longleftrightarrow> j = 3" for j :: nat by auto
  ultimately show ?case by (subst signature_loop.simps) simp
next
  case (Suc k)
  then have "signature_loop m h g (i + 1) \<longleftrightarrow> (\<forall>j. i + 1 \<le> j \<and> j < 4 \<longrightarrow> m (h + of_nat j) = m (g + of_nat j))"
    by simp
  moreover have "i \<le> j \<longleftrightarrow> j = i \<or> i + 1 \<le> j" for j by auto
  ultimately show ?case using Suc by (subst signature_loop.simps) auto
qed

lemma signature_loop_iff: "signature_loop m h g 0 \<longleftrightarrow> has_signature m g h"
  by (auto simp: signature_loop_from has_signature_def get_SDTHeader_def load_array_def)

definition xsdt_size :: "memory \<Rightarrow> addr \<Rightarrow> nat" where
  "xsdt_size m xsdt = (unat (sdt_length (get_SDTHeader m xsdt)) - 36 + 7) div 8"

definition xsdt_entries :: "memory \<Rightarrow> addr \<Rightarrow> addr list" where
  "xsdt_entries m xsdt = map (\<lambda>i. load64 m (xsdt + 36 + 8 * of_nat i)) [0..<xsdt_size m xsdt]"

lemma xsdt_bound:
  assumes "36 \<le> unat (sdt_length (get_SDTHeader m xsdt))" "i \<le> xsdt_size m xsdt"
  shows "8 * of_nat i < ucast (sdt_length (get_SDTHeader m xsdt)) - sizeof_SDTHeader \<longleftrightarrow> i < xsdt_size m xsdt"
proof -
  let ?l = "sdt_length (get_SDTHeader m xsdt)"
  have l: "unat ?l < 2 ^ 32" using unsigned_less[of ?l, where ?'a = nat] by simp
  have up: "unat (ucast ?l :: u64) = unat ?l"
    using l by (simp add: unsigned_ucast_eq take_bit_nat_eq_self)
  have "unat (ucast ?l - sizeof_SDTHeader :: u64) = unat ?l - 36"
    using assms(1) by (simp add: sizeof_SDTHeader_def unat_sub_le word_le_nat_alt up)
  moreover have "8 * i < 2 ^ 64"
    using assms(2) l by (simp add: xsdt_size_def)
  then have "unat (8 * of_nat i :: u64) = 8 * i"
    by (subst unat_mult_no_wrap) (simp_all add: unat_of_nat)
  ultimately show ?thesis
    using assms(2) by (auto simp: word_less_nat_alt xsdt_size_def)
qed

lemma acpi_loop_find:
  assumes len: "36 \<le> unat (sdt_length (get_SDTHeader m xsdt))"
    and i: "i \<le> xsdt_size m xsdt"
  shows "acpi_loop m xsdt g (8 * of_nat i) =
    Some (case find (has_signature m g) (drop i (xsdt_entries m xsdt)) of None \<Rightarrow> 0 | Some h \<Rightarrow> h)"
  using i
proof (induction "xsdt_size m xsdt - i" arbitrary: i)
  case (0 i)
  then show ?case
    by (subst acpi_loop.simps) (simp add: xsdt_bound[OF len] xsdt_entries_def)
next
  case (Suc k i)
  then have i: "i < xsdt_size m xsdt" by simp
  have "drop i (xsdt_entries m xsdt) =
      load64 m (xsdt + 36 + 8 * of_nat i) # drop (Suc i) (xsdt_entries m xsdt)"
    using i by (subst Cons_nth_drop_Suc[symmetric]) (simp_all add: xsdt_entries_def)
  moreover have "acpi_loop m xsdt g (8 * of_nat (Suc i)) =
    Some (case find (has_signature m g) (drop (Suc i) (xsdt_entries m xsdt)) of None \<Rightarrow> 0 | Some h \<Rightarrow> h)"
    by (rule Suc.hyps(1)) (use Suc in simp_all)
  ultimately show ?case
    using i xsdt_bound[OF len, of i]
    by (subst acpi_loop.simps) (simp add: signature_loop_iff sizeof_SDTHeader_def Let_def algebra_simps)
qed

text \<open>
  C30.  \<open>acpi_get_table\<close> terminates on every root table that is at least as long as its header: it
  returns the first of the table's entries with the signature asked for, and a null pointer when
  none has it.
\<close>

theorem acpi_get_table_finds_first:
  assumes "36 \<le> unat (sdt_length (get_SDTHeader m xsdt))"
  shows "acpi_get_table m xsdt signature =
    Some (case find (has_signature m signature) (xsdt_entries m xsdt) of None \<Rightarrow> 0 | Some h \<Rightarrow> h)"
  using acpi_loop_find[OF assms, of 0 signature] by (simp add: acpi_get_table_def)

definition example_xsdt :: memory where
  "example_xsdt = (\<lambda>_. 0)(0x1004 := 52, 0x1025 := 0x20, 0x102d := 0x30,
     0x2000 := 65, 0x2001 := 80, 0x2002 := 73, 0x2003 := 67,
     0x3000 := 77, 0x3001 := 67, 0x3002 := 70, 0x3003 := 71,
     0x50 := 77, 0x51 := 67, 0x52 := 70, 0x53 := 71)"

theorem acpi_get_table_finds_first_witness:
  "acpi_get_table example_xsdt 0x1000 0x50 = Some 0x3000 \<and> xsdt_entries example_xsdt 0x1000 = [0x2000, 0x3000]"
proof -
  have "unat (sdt_length (get_SDTHeader example_xsdt 0x1000)) = 52"
    by (simp add: get_SDTHeader_def load_eval example_xsdt_def)
  then have size: "36 \<le> unat (sdt_length (get_SDTHeader example_xsdt 0x1000))" "xsdt_size example_xsdt 0x1000 = 2"
    by (simp_all add: xsdt_size_def)
  have "load64 example_xsdt 0x1024 = 0x2000" "load64 example_xsdt 0x102c = 0x3000"
    by (simp_all add: load_eval example_xsdt_def)
  then have entries: "xsdt_entries example_xsdt 0x1000 = [0x2000, 0x3000]"
    by (simp add: xsdt_entries_def size upt_conv_Cons)
  have sig: "\<not> has_signature example_xsdt 0x50 0x2000" "has_signature example_xsdt 0x50 0x3000"
    by (simp_all add: has_signature_def get_SDTHeader_def load_array_def example_xsdt_def upt_conv_Cons)
  show ?thesis
    using acpi_get_table_finds_first[OF size(1), of "0x50"] entries sig by simp
qed

end
