(* ===== verification/Registers.thy ===== *)
theory Registers
  imports Paging_Attributes
begin

text \<open>
  Device registers in memory.  \<^verbatim>\<open>madt.c\<close> makes a page of registers accessible by three calls of the
  memory management: the frame is reserved, mapped to itself and made writable.  The lemmas
  compose the results about these operations: on a page that is not free memory the
  sequence always succeeds, changes no other data and no other translation.
\<close>

definition map_registers :: "addr \<Rightarrow> 'a pg \<Rightarrow> 'a pg option" where
  "map_registers a s = do {
     s \<leftarrow> pageframe_reserve a 1 s;
     s \<leftarrow> paging_identity_map a 1 s;
     Some (paging_set_writable a 1 s) }"

section \<open>Reserving frames that are not free\<close>

definition not_free :: "'a pf \<Rightarrow> u64 \<Rightarrow> bool" where
  "not_free s j \<longleftrightarrow> frames s < j \<or> frame_in_use s j"

lemma reserve_frame_not_free:
  assumes "not_free s i"
  shows "\<exists>z. reserve_frame i s = s\<lparr>s_memory_reserved_size := z\<rparr>"
proof (cases "frame_used s i")
  case True
  then show ?thesis by (auto simp: reserve_frame_def pageframe_manipulate_def frame_used_def)
next
  case False
  with assms have "frames s < i" by (auto simp: not_free_def frame_in_use_def)
  then have "reserve_frame i s = s"
    using False by (simp add: reserve_frame_def pageframe_manipulate_def frame_used_def bitmap_set_def)
  also have "\<dots> = s\<lparr>s_memory_reserved_size := s_memory_reserved_size s\<rparr>" by simp
  finally show ?thesis by blast
qed

lemma reserve_loop_not_free:
  assumes "\<And>i. b \<le> i \<Longrightarrow> i < n \<Longrightarrow> not_free s i" and "b \<le> n"
  shows "\<exists>z. word_for b n reserve_frame s = s\<lparr>s_memory_reserved_size := z\<rparr>"
proof (rule word_for_inv [where P = "\<lambda>t. \<exists>z. t = s\<lparr>s_memory_reserved_size := z\<rparr>"])
  show "\<exists>z. s = s\<lparr>s_memory_reserved_size := z\<rparr>" by (rule exI [of _ "s_memory_reserved_size s"]) simp
  fix i t assume "b \<le> i" "i < n" "\<exists>z. t = s\<lparr>s_memory_reserved_size := z\<rparr>"
  then obtain z where t: "t = s\<lparr>s_memory_reserved_size := z\<rparr>" "not_free t i"
    using assms(1) by (auto simp: not_free_def frame_in_use_def)
  then show "\<exists>z. reserve_frame i t = s\<lparr>s_memory_reserved_size := z\<rparr>"
    using reserve_frame_not_free [of t i] by auto
qed

lemma pageframe_reserve_not_free:
  assumes "pf_idle s" and "a div 4096 \<le> a div 4096 + n"
    and "\<And>i. i \<in> page_range a n \<Longrightarrow> not_free s i"
  shows "\<exists>z. pageframe_reserve a n s = Some (s\<lparr>s_memory_reserved_size := z\<rparr>)"
  using reserve_op.op_result [OF pf_idleD [OF assms(1)], of a n]
    reserve_loop_not_free [of "a div 4096" "a div 4096 + n" s] assms(2,3)
  by (auto simp: page_range_def)

text \<open>
  What the tree of tables depends on: two states with the same memory and the same allocator
  agree on it, whatever the other components of the kernel's state are.
\<close>

definition same_core :: "'a pf \<Rightarrow> 'b pf \<Rightarrow> bool" where
  "same_core s t \<longleftrightarrow> mem t = mem s \<and> s_pageframemap t = s_pageframemap s \<and> s_mutex t = s_mutex s
     \<and> s_current_index t = s_current_index s"

lemma same_core:
  assumes "same_core s t"
  shows "frame_in_use t = frame_in_use s" "map_byte t = map_byte s" "not_free t = not_free s"
    "frames_left t = frames_left s" "pf_alloc_inv t = pf_alloc_inv s" "paging_tree t l4 = paging_tree s l4"
    "enough_frames t l4 A = enough_frames s l4 A" "other_page t l4 = other_page s l4"
proof -
  have eq: "mem t = mem s" "s_pageframemap t = s_pageframemap s" "s_mutex t = s_mutex s"
    "s_current_index t = s_current_index s" using assms by (simp_all add: same_core_def)
  have used: "frame_used t = frame_used s" by (simp add: fun_eq_iff frame_used_def eq)
  show use: "frame_in_use t = frame_in_use s" and map: "map_byte t = map_byte s"
    and "not_free t = not_free s"
    by (simp_all add: fun_eq_iff frame_in_use_def map_byte_def not_free_def eq used)
  show left: "frames_left t = frames_left s"
    by (simp add: frames_left_def free_ahead_def eq used)
  show inv: "pf_alloc_inv t = pf_alloc_inv s"
    unfolding pf_alloc_inv_def use map by (simp add: pf_wf_def pf_idle_def eq)
  show "paging_tree t l4 = paging_tree s l4"
    unfolding paging_tree_def use map inv by (simp add: eq)
  show "enough_frames t l4 A = enough_frames s l4 A"
    unfolding enough_frames_def left by (simp add: eq)
  show "other_page t l4 = other_page s l4"
    unfolding fun_eq_iff other_page_def use map by (simp add: eq)
qed

lemma same_core_reserved: "same_core s (s\<lparr>s_memory_reserved_size := z\<rparr>)"
  by (simp add: same_core_def)

lemmas reserved_size_irrelevant [simp] = same_core [OF same_core_reserved]

section \<open>The three calls\<close>

text \<open>Registers at an address below \<open>2 ^ 48\<close> are accessible: mapped to themselves and writable.\<close>

definition registers_at :: "addr \<Rightarrow> addr \<Rightarrow> memory \<Rightarrow> bool" where
  "registers_at l4 a m \<longleftrightarrow> a < 2 ^ 48 \<and> walk m l4 a = Some (entry_address a) \<and> flag_at m l4 1 True a"

lemma virtual_page_address:
  assumes "a < 2 ^ 48" "b < 2 ^ 48" "virtual_page a = virtual_page b"
  shows "entry_address a = entry_address b"
proof -
  have "unat a < 2 ^ 48" "unat b < 2 ^ 48" using assms(1,2) by (simp_all add: word_less_nat_alt)
  then have "unat (drop_bit 12 a) = unat (drop_bit 12 b)"
    using assms(3) by (simp add: virtual_page_def drop_bit_eq_div unat_div)
  then have "drop_bit 12 a = drop_bit 12 b" by (simp add: word_unat_eq_iff)
  then have "bit a (12 + k) = bit b (12 + k)" for k by (metis bit_drop_bit_eq comp_apply)
  then have "bit a n = bit b n" if "12 \<le> n" for n using that by (metis le_add_diff_inverse)
  then show ?thesis
    unfolding entry_address_def by (intro bit_word_eqI) (auto simp: bit_simps)
qed

lemma flag_at_grows:
  assumes "tree_grows m m' l4" and "flag_at m l4 b v a" and b: "0 < b" "b < 12"
  shows "flag_at m' l4 b v a"
  unfolding flag_at_def
proof (intro allI impI)
  fix k :: nat assume k: "k < 4"
  then obtain t where t: "descend m l4 (take k (path_of a)) = Some t" "bit (load64 m (slot t (path_of a ! k))) b = v"
    using assms(2) by (auto simp: flag_at_def path_entry_def)
  have "table_at m l4 (take k (path_of a)) t" using t(1) k by (simp add: table_at_def valid_take)
  then have "table_at m' l4 (take k (path_of a)) t"
    "bit (load64 m' (slot t (path_of a ! k))) b = bit (load64 m (slot t (path_of a ! k))) b"
    using assms(1) b path_of_nth [OF k, of a] unfolding tree_grows_def by blast+
  with t(2) have "descend m' l4 (take k (path_of a)) = Some t" "bit (load64 m' (slot t (path_of a ! k))) b = v"
    by (simp_all add: table_at_def)
  then show "\<exists>e. path_entry m' l4 a k = Some e \<and> bit e b = v" by (simp add: path_entry_def)
qed

text \<open>What making registers accessible keeps.\<close>

definition register_step :: "addr \<Rightarrow> u64 list set \<Rightarrow> 'a pf \<Rightarrow> 'a pf \<Rightarrow> bool" where
  "register_step l4 A s t \<longleftrightarrow> paging_tree t l4 \<and> enough_frames t l4 A
     \<and> (\<forall>j. not_free s j \<longrightarrow> not_free t j) \<and> keeps_other l4 s t
     \<and> (\<forall>b. registers_at l4 b (mem s) \<longrightarrow> registers_at l4 b (mem t))"

lemma register_step_refl: "paging_tree s l4 \<Longrightarrow> enough_frames s l4 A \<Longrightarrow> register_step l4 A s s"
  by (simp add: register_step_def)

lemma register_step_trans: "register_step l4 A s t \<Longrightarrow> register_step l4 A t u \<Longrightarrow> register_step l4 A s u"
  by (auto simp: register_step_def intro: keeps_other_trans)

lemma register_step_core:
  assumes "same_core t u" "register_step l4 A s t"
  shows "register_step l4 A s u"
  using assms(2) same_core [OF assms(1)] assms(1)
  by (simp add: register_step_def keeps_other_def same_core_def)

lemma page_paths_single: "page_paths a 1 = {path_of a}"
  by (auto simp: page_paths_def word_less_nat_alt unsigned_eq_0_iff intro!: exI [of _ 0])

text \<open>Mapping a page of registers to itself and making it writable keeps the registers that were accessible.\<close>

lemma registers_kept:
  assumes t: "mapping_step l4 A s t" "range_mapped l4 a a 1 (mem s) (mem t)"
    and flag: "flag_step l4 1 True t u" and a: "a < 2 ^ 48"
  shows "walk (mem u) l4 a = Some (entry_address a)"
    and "registers_at l4 b (mem s) \<Longrightarrow> registers_at l4 b (mem u)"
proof -
  have walk: "walk (mem t) l4 a = Some (entry_address a)"
    using t(2) by (auto simp: range_mapped_def dest!: spec [of _ 0])
  have walk_u: "walk (mem u) l4 b = walk (mem t) l4 b" for b using flag by (simp add: flag_step_def walk_def)
  with walk show "walk (mem u) l4 a = Some (entry_address a)" by simp
  show "registers_at l4 b (mem u)" if b: "registers_at l4 b (mem s)" for b
  proof -
    have "flag_at (mem t) l4 1 True b"
      by (rule flag_at_grows [of "mem s"]) (use b t(1) in \<open>simp_all add: registers_at_def mapping_step_def\<close>)
    then have "flag_at (mem u) l4 1 True b" by (rule flag_at_step [OF _ flag, rotated]) simp
    moreover have "walk (mem u) l4 b = Some (entry_address b)"
    proof (cases "virtual_page b = virtual_page a")
      case True
      then have "walk (mem t) l4 b = walk (mem t) l4 a" by (simp add: walk_def path_of_eq [symmetric])
      then show ?thesis using True b walk virtual_page_address [of b a] a by (simp add: walk_u registers_at_def)
    next
      case False
      then have "walk (mem t) l4 b = walk (mem s) l4 b"
        using t(2) by (auto simp: range_mapped_def word_less_nat_alt unsigned_eq_0_iff)
      then show ?thesis using b by (simp add: walk_u registers_at_def)
    qed
    ultimately show ?thesis using b by (simp add: registers_at_def)
  qed
qed

text \<open>Reserving a page that is not free only counts.\<close>

lemma reserve_one_page:
  assumes "pf_idle s" and "a < 2 ^ 48" and "not_free s (a div 4096)"
  shows "\<exists>z. pageframe_reserve a 1 s = Some (s\<lparr>s_memory_reserved_size := z\<rparr>)"
proof -
  have div: "a div 4096 < a div 4096 + 1"
    using assms(2) by (simp add: word_less_nat_alt unat_word_ariths unat_div)
  have "page_range a 1 = {a div 4096}"
    unfolding page_range_def word_less_inc [OF div] using order.antisym by blast
  then show ?thesis
    using pageframe_reserve_not_free [OF assms(1), of a 1] order.strict_implies_order [OF div] assms(3) by auto
qed

lemma map_registers_step:
  assumes s: "paging_tree s (s_pagetable_l4 s)" and A: "enough_frames s (s_pagetable_l4 s) A" "path_of a \<in> A"
    and a: "a < 2 ^ 48" "not_free s (a div 4096)"
  shows "\<exists>t. map_registers a s = Some t \<and> register_step (s_pagetable_l4 s) A s t
    \<and> pageframe_state.more t = pageframe_state.more s \<and> registers_at (s_pagetable_l4 s) a (mem t)"
proof -
  let ?l4 = "s_pagetable_l4 s"
  have "pf_idle s" using s by (simp add: paging_tree_def pf_alloc_inv_def)
  then obtain z where r: "pageframe_reserve a 1 s = Some (s\<lparr>s_memory_reserved_size := z\<rparr>)"
    using reserve_one_page a by blast
  let ?s = "s\<lparr>s_memory_reserved_size := z\<rparr>"
  obtain t where t: "paging_identity_map a 1 ?s = Some t" "mapping_step ?l4 A ?s t" "range_mapped ?l4 a a 1 (mem ?s) (mem t)"
    using paging_identity_map_range [of ?s A a 1] s A a(1) by (auto simp: page_paths_single word_less_nat_alt)
  let ?u = "paging_set_attribute ?l4 a 1 PAGE_DIRECTORY_WRITABLE True t"
  have "s_pagetable_l4 t = ?l4" using t(2) paging_l4_more [of t ?s] by (simp add: mapping_step_def)
  then have res: "map_registers a s = Some ?u"
    using r t(1) by (simp add: map_registers_def paging_set_writable_def)
  have tree: "paging_tree t ?l4" using t(2) by (simp add: mapping_step_def)
  have one: "(i :: u64) < 1 \<longleftrightarrow> i = 0" for i by (simp add: word_less_nat_alt unsigned_eq_0_iff)
  have mapped: "walk (mem t) ?l4 (a + i * 4096) \<noteq> None" if "i < 1" for i
    using that t(3) by (auto simp: one range_mapped_def dest!: spec [of _ 0])
  note attr = paging_set_attribute_range [where n = 1 and attr = PAGE_DIRECTORY_WRITABLE and v = True, OF tree mapped _ _ refl]
  have flag: "flag_step ?l4 1 True t ?u" "flag_at (mem ?u) ?l4 1 True a"
    using attr(1) attr(2) [of 0] by (simp_all add: one)
  note regs = registers_kept [OF t(2,3) flag(1) a(1)]
  have u: "?u = t\<lparr>mem := mem ?u\<rparr>" using flag(1) by (simp add: flag_step_def)
  have more: "pageframe_state.more ?u = pageframe_state.more s" and map: "s_pageframemap ?u = s_pageframemap t"
    using t(2) by (subst u, simp add: mapping_step_def)+
  have "not_free s j \<Longrightarrow> not_free ?u j" for j
    using t(2) flag(1) map by (auto simp: not_free_def mapping_step_def flag_step_def)
  moreover have "keeps_other ?l4 s ?u"
    using t(2) flag(1) keeps_other_trans [of ?l4 s t ?u] by (simp add: mapping_step_def flag_step_def keeps_other_def)
  ultimately have "register_step ?l4 A s ?u"
    using t(2) flag(1) enough_frames_flag [OF flag(1)] regs(2)
    by (simp add: register_step_def mapping_step_def flag_step_def)
  then show ?thesis using res more flag(2) regs(1) a(1) by (simp add: registers_at_def)
qed

end
