(* ===== verification/Madt.thy ===== *)
theory Madt
  imports Acpi Registers
begin

text \<open>
  \<^verbatim>\<open>x86_64/apic/madt.c\<close>: the description of the interrupt controllers in the firmware's tables.  The
  records of the table are read in place; what \<open>madt_init\<close> collects about them is part of the
  kernel's state.  The arrays have a fixed size; an element stored behind the end of one of them
  has no value in the model.
\<close>

section \<open>State\<close>

definition MADT_MAX_PROCESSORS :: nat where "MADT_MAX_PROCESSORS = 128"
definition MADT_MAX_IO_APICS :: nat where "MADT_MAX_IO_APICS = 8"
definition MADT_MAX_INTERRUPT_SOURCE_OVERRIDES :: nat where "MADT_MAX_INTERRUPT_SOURCE_OVERRIDES = 16"
definition MADT_MAX_NONMASKABLE_INTERRUPTS :: nat where "MADT_MAX_NONMASKABLE_INTERRUPTS = 8"

record LocalAPICProcessor =
  local_processor :: addr
  ap_stack_ptr :: addr
  ap_stack_size :: u64

record IOAPIC =
  ioapic :: addr
  max_interrupts :: u8

text \<open>The counters of the source are the lengths of the lists.\<close>

record MADTInformation =
  local_apic_ptr :: addr
  processors :: "LocalAPICProcessor list"
  ioapics :: "IOAPIC list"
  isos :: "addr list"
  nmis :: "addr list"

record madt_state = paging_state +
  s_madt :: addr
  s_madt_info :: MADTInformation

type_synonym 'a md = "'a madt_state_scheme"

section \<open>Records of the table\<close>

record MADTRecord =
  record_type :: u8
  record_length :: u8

definition get_MADTRecord :: "memory \<Rightarrow> addr \<Rightarrow> MADTRecord" where
  "get_MADTRecord m a = \<lparr>record_type = m a, record_length = m (a + 1)\<rparr>"

record MADTLocalProcessor =
  lp_record :: MADTRecord
  processor_id :: u8
  lp_local_apic_id :: u8
  lp_flags :: u32

definition get_MADTLocalProcessor :: "memory \<Rightarrow> addr \<Rightarrow> MADTLocalProcessor" where
  "get_MADTLocalProcessor m a = \<lparr>lp_record = get_MADTRecord m a, processor_id = m (a + 2),
     lp_local_apic_id = m (a + 3), lp_flags = load32 m (a + 4)\<rparr>"

record MADTIOAPIC =
  io_record :: MADTRecord
  ioapic_id :: u8
  io_reserved :: u8
  ioapic_address :: u32
  global_interrupt_base :: u32

definition get_MADTIOAPIC :: "memory \<Rightarrow> addr \<Rightarrow> MADTIOAPIC" where
  "get_MADTIOAPIC m a = \<lparr>io_record = get_MADTRecord m a, ioapic_id = m (a + 2), io_reserved = m (a + 3),
     ioapic_address = load32 m (a + 4), global_interrupt_base = load32 m (a + 8)\<rparr>"

record MADTInterruptSourceOverride =
  iso_record :: MADTRecord
  iso_bus :: u8
  iso_source :: u8
  global_interrupt :: u32
  iso_flags :: u16

definition get_MADTInterruptSourceOverride :: "memory \<Rightarrow> addr \<Rightarrow> MADTInterruptSourceOverride" where
  "get_MADTInterruptSourceOverride m a = \<lparr>iso_record = get_MADTRecord m a, iso_bus = m (a + 2),
     iso_source = m (a + 3), global_interrupt = load32 m (a + 4), iso_flags = load16 m (a + 8)\<rparr>"

record MADTNonMaskableInterrupt =
  nmi_record :: MADTRecord
  nmi_local_apic_id :: u8
  nmi_flags :: u16
  lint :: u8

definition get_MADTNonMaskableInterrupt :: "memory \<Rightarrow> addr \<Rightarrow> MADTNonMaskableInterrupt" where
  "get_MADTNonMaskableInterrupt m a = \<lparr>nmi_record = get_MADTRecord m a, nmi_local_apic_id = m (a + 2),
     nmi_flags = load16 m (a + 3), lint = m (a + 5)\<rparr>"

record MADTLocalAPICAddressOverride =
  lao_record :: MADTRecord
  lao_reserved :: "u8 list"
  lao_local_apic_address :: u64

definition get_MADTLocalAPICAddressOverride :: "memory \<Rightarrow> addr \<Rightarrow> MADTLocalAPICAddressOverride" where
  "get_MADTLocalAPICAddressOverride m a = \<lparr>lao_record = get_MADTRecord m a, lao_reserved = load_array 2 m (a + 2),
     lao_local_apic_address = load64 m (a + 4)\<rparr>"

datatype MADTType =
  MADT_TYPE_LOCAL_PROCESSOR | MADT_TYPE_IOAPIC | MADT_TYPE_INTERRUPT_SOURCE_OVERRIDE
| MADT_TYPE_NONMASKABLE_INTERRUPT | MADT_TYPE_LOCAL_APIC_ADDRESS_OVERRIDE | MADT_TYPE_IO_SAPIC
| MADT_TYPE_LOCAL_SAPIC | MADT_TYPE_PLAT_INTERRUPT_SRC | MADT_TYPE_PROCESSOR_LOCAL_X2APIC
| MADT_TYPE_LOCAL_X2APIC_NMI | MADT_TYPE_GIC_CPU_INTERFACE | MADT_TYPE_GIC_DISTRIBUTOR
| MADT_TYPE_GIC_MSI_FRAME | MADT_TYPE_GIC_REDISTRIBUTOR | MADT_TYPE_GIC_INT_TRANSLATION
| MADT_TYPE_MULTIPROCESSOR_WAKEUP

primrec madt_type :: "MADTType \<Rightarrow> u8" where
  "madt_type MADT_TYPE_LOCAL_PROCESSOR = 0"
| "madt_type MADT_TYPE_IOAPIC = 1"
| "madt_type MADT_TYPE_INTERRUPT_SOURCE_OVERRIDE = 2"
| "madt_type MADT_TYPE_NONMASKABLE_INTERRUPT = 4"
| "madt_type MADT_TYPE_LOCAL_APIC_ADDRESS_OVERRIDE = 5"
| "madt_type MADT_TYPE_IO_SAPIC = 6"
| "madt_type MADT_TYPE_LOCAL_SAPIC = 7"
| "madt_type MADT_TYPE_PLAT_INTERRUPT_SRC = 8"
| "madt_type MADT_TYPE_PROCESSOR_LOCAL_X2APIC = 9"
| "madt_type MADT_TYPE_LOCAL_X2APIC_NMI = 10"
| "madt_type MADT_TYPE_GIC_CPU_INTERFACE = 11"
| "madt_type MADT_TYPE_GIC_DISTRIBUTOR = 12"
| "madt_type MADT_TYPE_GIC_MSI_FRAME = 13"
| "madt_type MADT_TYPE_GIC_REDISTRIBUTOR = 14"
| "madt_type MADT_TYPE_GIC_INT_TRANSLATION = 15"
| "madt_type MADT_TYPE_MULTIPROCESSOR_WAKEUP = 16"

section \<open>Initialisation\<close>

text \<open>An array that counts its elements and may hold up to \<open>n\<close> of them.\<close>

definition array_add :: "nat \<Rightarrow> 'x \<Rightarrow> 'x list \<Rightarrow> 'x list option" where
  "array_add n x xs = (if length xs < n then Some (xs @ [x]) else None)"

definition madt_record :: "addr \<Rightarrow> addr \<times> 'a md \<Rightarrow> (addr \<times> 'a md) option" where
  "madt_record a = (\<lambda>(lap, s).
     let ty = record_type (get_MADTRecord (mem s) a); info = s_madt_info s
     in if ty = madt_type MADT_TYPE_LOCAL_PROCESSOR then do {
          ps \<leftarrow> array_add MADT_MAX_PROCESSORS \<lparr>local_processor = a, ap_stack_ptr = 0, ap_stack_size = 0\<rparr> (processors info);
          Some (lap, s\<lparr>s_madt_info := info\<lparr>processors := ps\<rparr>\<rparr>) }
        else if ty = madt_type MADT_TYPE_IOAPIC then do {
          s \<leftarrow> map_registers (ucast (ioapic_address (get_MADTIOAPIC (mem s) a))) s;
          is \<leftarrow> array_add MADT_MAX_IO_APICS \<lparr>ioapic = a, max_interrupts = 0\<rparr> (ioapics (s_madt_info s));
          Some (lap, s\<lparr>s_madt_info := (s_madt_info s)\<lparr>ioapics := is\<rparr>\<rparr>) }
        else if ty = madt_type MADT_TYPE_INTERRUPT_SOURCE_OVERRIDE then do {
          is \<leftarrow> array_add MADT_MAX_INTERRUPT_SOURCE_OVERRIDES a (isos info);
          Some (lap, s\<lparr>s_madt_info := info\<lparr>isos := is\<rparr>\<rparr>) }
        else if ty = madt_type MADT_TYPE_NONMASKABLE_INTERRUPT then do {
          ns \<leftarrow> array_add MADT_MAX_NONMASKABLE_INTERRUPTS a (nmis info);
          Some (lap, s\<lparr>s_madt_info := info\<lparr>nmis := ns\<rparr>\<rparr>) }
        else if ty = madt_type MADT_TYPE_LOCAL_APIC_ADDRESS_OVERRIDE
        then Some (lao_local_apic_address (get_MADTLocalAPICAddressOverride (mem s) a), s)
        else Some (lap, s))"

partial_function (option) madt_loop :: "addr \<Rightarrow> u64 \<Rightarrow> addr \<times> 'a md \<Rightarrow> (addr \<times> 'a md) option" where
  "madt_loop madt t x =
     (if t < ucast (sdt_length (madt_header (get_MADTHeader (mem (snd x)) madt))) - sizeof_MADTHeader
      then do {
        let a = madt + sizeof_MADTHeader + t;
        let t = t + ucast (record_length (get_MADTRecord (mem (snd x)) a));
        x \<leftarrow> madt_record a x;
        madt_loop madt t x }
      else Some x)"

declare madt_loop.simps [code]

definition madt_init :: "addr \<Rightarrow> 'a md \<Rightarrow> 'a md option" where
  "madt_init madt s = do {
     let s = s\<lparr>s_madt := madt\<rparr>;
     s \<leftarrow> pageframe_reserve_size madt (ucast (sdt_length (madt_header (get_MADTHeader (mem s) madt)))) s;
     (lap, s) \<leftarrow> madt_loop madt 0 (ucast (local_apic_address (get_MADTHeader (mem s) madt)), s);
     s \<leftarrow> map_registers lap s;
     Some (s\<lparr>s_madt_info := (s_madt_info s)\<lparr>local_apic_ptr := lap\<rparr>\<rparr>) }"

definition madt_get :: "'a md \<Rightarrow> addr" where
  "madt_get s = s_madt s"

definition madt_get_info :: "'a md \<Rightarrow> MADTInformation" where
  "madt_get_info s = s_madt_info s"

end
