(* ===== verification/Madt_Correct.thy ===== *)
theory Madt_Correct
  imports Madt
begin

text \<open>
  What \<open>madt_init\<close> finds.  The specification walks the records of the table in a fixed memory; the
  loop of the code runs in a memory that changes under it, because the registers of each
  interrupt controller it meets are mapped on the way.  The two agree because mapping leaves
  pages of other data alone.
\<close>

section \<open>The records of a table\<close>

text \<open>The addresses of the records from offset \<open>t\<close> on, unless one of them has length zero.\<close>

function madt_walk :: "memory \<Rightarrow> addr \<Rightarrow> nat \<Rightarrow> nat \<Rightarrow> addr list option" where
  "madt_walk m madt b t =
     (if t < b
      then let a = madt + sizeof_MADTHeader + of_nat t; n = record_length (get_MADTRecord m a)
           in if n = 0 then None else map_option ((#) a) (madt_walk m madt b (t + unat n))
      else Some [])"
  by pat_completeness auto
termination
  by (relation "measure (\<lambda>(m, madt, b, t). b - t)") (simp_all flip: unat_gt_0)

declare madt_walk.simps [simp del]

definition madt_bound :: "memory \<Rightarrow> addr \<Rightarrow> nat" where
  "madt_bound m madt = unat (sdt_length (madt_header (get_MADTHeader m madt))) - 44"

definition of_type :: "memory \<Rightarrow> MADTType \<Rightarrow> addr \<Rightarrow> bool" where
  "of_type m ty a \<longleftrightarrow> record_type (get_MADTRecord m a) = madt_type ty"

text \<open>What one record contributes.\<close>

fun collect :: "memory \<Rightarrow> addr \<Rightarrow> addr \<times> MADTInformation \<Rightarrow> addr \<times> MADTInformation" where
  "collect m a (lap, info) =
     (if of_type m MADT_TYPE_LOCAL_PROCESSOR a
     then (lap, info\<lparr>processors := processors info @ [\<lparr>local_processor = a, ap_stack_ptr = 0, ap_stack_size = 0\<rparr>]\<rparr>)
     else if of_type m MADT_TYPE_IOAPIC a
     then (lap, info\<lparr>ioapics := ioapics info @ [\<lparr>ioapic = a, max_interrupts = 0\<rparr>]\<rparr>)
     else if of_type m MADT_TYPE_INTERRUPT_SOURCE_OVERRIDE a then (lap, info\<lparr>isos := isos info @ [a]\<rparr>)
     else if of_type m MADT_TYPE_NONMASKABLE_INTERRUPT a then (lap, info\<lparr>nmis := nmis info @ [a]\<rparr>)
     else if of_type m MADT_TYPE_LOCAL_APIC_ADDRESS_OVERRIDE a
     then (lao_local_apic_address (get_MADTLocalAPICAddressOverride m a), info)
     else (lap, info))"

definition within_limits :: "MADTInformation \<Rightarrow> bool" where
  "within_limits info \<longleftrightarrow> length (processors info) \<le> MADT_MAX_PROCESSORS
     \<and> length (ioapics info) \<le> MADT_MAX_IO_APICS
     \<and> length (isos info) \<le> MADT_MAX_INTERRUPT_SOURCE_OVERRIDES
     \<and> length (nmis info) \<le> MADT_MAX_NONMASKABLE_INTERRUPTS"

lemma of_type_cases:
  "of_type m t a \<Longrightarrow> of_type m t' a \<Longrightarrow> t = t'"
  by (cases t; cases t') (simp_all add: of_type_def)

lemma fold_collect:
  "snd (fold (collect m) as (lap, info)) = info\<lparr>
     processors := processors info @ map (\<lambda>a. \<lparr>local_processor = a, ap_stack_ptr = 0, ap_stack_size = 0\<rparr>)
        (filter (of_type m MADT_TYPE_LOCAL_PROCESSOR) as),
     ioapics := ioapics info @ map (\<lambda>a. \<lparr>ioapic = a, max_interrupts = 0\<rparr>) (filter (of_type m MADT_TYPE_IOAPIC) as),
     isos := isos info @ filter (of_type m MADT_TYPE_INTERRUPT_SOURCE_OVERRIDE) as,
     nmis := nmis info @ filter (of_type m MADT_TYPE_NONMASKABLE_INTERRUPT) as\<rparr>"
proof (induction as arbitrary: lap info)
  case Nil
  then show ?case by simp
next
  case (Cons a as)
  show ?case
    by (cases "record_type (get_MADTRecord m a) \<in> {0, 1, 2, 4}")
      (auto simp: of_type_def Cons.IH)
qed

lemma fold_collect_override:
  "fst (fold (collect m) as (lap, info)) =
     (case filter (of_type m MADT_TYPE_LOCAL_APIC_ADDRESS_OVERRIDE) as of
        [] \<Rightarrow> lap
      | bs \<Rightarrow> lao_local_apic_address (get_MADTLocalAPICAddressOverride m (last bs)))"
proof (induction as arbitrary: lap info)
  case Nil
  then show ?case by simp
next
  case (Cons a as)
  show ?case
    by (cases "record_type (get_MADTRecord m a) \<in> {0, 1, 2, 4, 5}")
      (auto simp: of_type_def Cons.IH split: list.splits)
qed

declare collect.simps [simp del]

section \<open>One record\<close>

lemma same_core_madt: "same_core s (s\<lparr>s_madt_info := x\<rparr>)" "same_core s (s\<lparr>s_madt := y\<rparr>)"
  by (simp_all add: same_core_def)

lemma register_step_madt:
  "register_step l4 A s t \<Longrightarrow> register_step l4 A s (t\<lparr>s_madt_info := x\<rparr>)" for t :: "'a md"
  by (rule register_step_core [OF same_core_madt(1)])

lemma register_step_mem:
  assumes "register_step l4 A s t" "other_page s l4 (page_of x)"
  shows "mem t x = mem s x"
  using assms by (simp add: register_step_def keeps_other_def)

text \<open>The bytes the code may read of a record.\<close>

definition record_bytes :: "'a pf \<Rightarrow> addr \<Rightarrow> addr \<Rightarrow> bool" where
  "record_bytes s l4 a \<longleftrightarrow> (\<forall>k < 12. other_page s l4 (page_of (a + of_nat k)))"

lemma record_reads:
  assumes step: "register_step l4 A s t" and bytes: "record_bytes s l4 a"
  shows "get_MADTRecord (mem t) a = get_MADTRecord (mem s) a"
    "ioapic_address (get_MADTIOAPIC (mem t) a) = ioapic_address (get_MADTIOAPIC (mem s) a)"
    "lao_local_apic_address (get_MADTLocalAPICAddressOverride (mem t) a)
      = lao_local_apic_address (get_MADTLocalAPICAddressOverride (mem s) a)"
proof -
  have b: "mem t (a + of_nat k) = mem s (a + of_nat k)" if "k < 12" for k
    using register_step_mem [OF step] bytes that by (simp add: record_bytes_def)
  show "get_MADTRecord (mem t) a = get_MADTRecord (mem s) a"
    using b [of 0] b [of 1] by (simp add: get_MADTRecord_def)
  have "mem t (a + 4 + of_nat k) = mem s (a + 4 + of_nat k)" if "k < 8" for k
    using b [of "4 + k"] that by (simp add: add.assoc)
  then show "ioapic_address (get_MADTIOAPIC (mem t) a) = ioapic_address (get_MADTIOAPIC (mem s) a)"
    "lao_local_apic_address (get_MADTLocalAPICAddressOverride (mem t) a)
      = lao_local_apic_address (get_MADTLocalAPICAddressOverride (mem s) a)"
    by (simp_all add: get_MADTIOAPIC_def get_MADTLocalAPICAddressOverride_def load32_def load64_def
        load_bytes_cong [of _ "mem t" "a + 4" "mem s"])
qed

definition device_address :: "memory \<Rightarrow> addr \<Rightarrow> addr" where
  "device_address m a = ucast (ioapic_address (get_MADTIOAPIC m a))"

lemma device_address_small: "device_address m a < 2 ^ 48"
proof -
  have "unat (ioapic_address (get_MADTIOAPIC m a)) < 2 ^ 32"
    using unsigned_less [of "ioapic_address (get_MADTIOAPIC m a)", where ?'a = nat] by simp
  then show ?thesis
    by (simp add: device_address_def word_less_nat_alt unsigned_ucast_eq take_bit_nat_eq_self)
qed

text \<open>Registers that can be made accessible.\<close>

definition mappable :: "'a pf \<Rightarrow> u64 list set \<Rightarrow> addr \<Rightarrow> bool" where
  "mappable s A a \<longleftrightarrow> a < 2 ^ 48 \<and> path_of a \<in> A \<and> not_free s (a div 4096)"

lemma map_registers_more:
  assumes "register_step l4 A s t" "s_pagetable_l4 t = l4" "mappable s A a"
  shows "\<exists>u. map_registers a t = Some u \<and> register_step l4 A s u \<and> register_step l4 A t u \<and> s_pagetable_l4 u = l4
    \<and> pageframe_state.more u = pageframe_state.more t \<and> registers_at l4 a (mem u)"
proof -
  have "paging_tree t (s_pagetable_l4 t)" "enough_frames t (s_pagetable_l4 t) A" "not_free t (a div 4096)"
    using assms by (simp_all add: register_step_def mappable_def)
  then obtain u where u: "map_registers a t = Some u" "register_step l4 A t u"
    "pageframe_state.more u = pageframe_state.more t" "registers_at l4 a (mem u)"
    using map_registers_step [of t A a] assms by (auto simp: mappable_def)
  then show ?thesis
    using register_step_trans [OF assms(1) u(2)] u(2) paging_l4_more [OF u(3)] assms(2) by auto
qed

lemma madt_more: "pageframe_state.more u = pageframe_state.more t \<Longrightarrow> s_madt_info u = s_madt_info t \<and> s_madt u = s_madt t"
  for t u :: "'a md"
  by (cases t; cases u) simp

lemma madt_record_step:
  fixes s s0 :: "'a md"
  assumes step: "register_step l4 A s0 s" "s_pagetable_l4 s = l4"
    and bytes: "record_bytes s0 l4 a"
    and limits: "within_limits (snd (collect (mem s0) a (lap, s_madt_info s)))"
    and dev: "of_type (mem s0) MADT_TYPE_IOAPIC a \<Longrightarrow> mappable s0 A (device_address (mem s0) a)"
  shows "\<exists>t. madt_record a (lap, s) = Some (fst (collect (mem s0) a (lap, s_madt_info s)), t)
    \<and> s_madt_info t = snd (collect (mem s0) a (lap, s_madt_info s)) \<and> s_madt t = s_madt s
    \<and> register_step l4 A s0 t \<and> register_step l4 A s t \<and> s_pagetable_l4 t = l4
    \<and> (of_type (mem s0) MADT_TYPE_IOAPIC a \<longrightarrow> registers_at l4 (device_address (mem s0) a) (mem t))"
proof -
  note reads = record_reads [OF step(1) bytes]
  show ?thesis
  proof (cases "of_type (mem s0) MADT_TYPE_IOAPIC a")
    case True
    obtain u where u: "map_registers (device_address (mem s0) a) s = Some u" "register_step l4 A s0 u"
      "register_step l4 A s u" "s_pagetable_l4 u = l4" "pageframe_state.more u = pageframe_state.more s"
      "registers_at l4 (device_address (mem s0) a) (mem u)"
      using map_registers_more [OF step dev [OF True]] by blast
    have ty: "record_type (get_MADTRecord (mem s0) a) = 1" using True by (simp add: of_type_def)
    have "length (ioapics (s_madt_info s)) < MADT_MAX_IO_APICS"
      using limits True ty by (simp add: collect.simps of_type_def within_limits_def)
    then show ?thesis
      using u madt_more [OF u(5)] ty reads register_step_madt [OF u(2)] register_step_madt [OF u(3)]
      by (simp add: collect.simps madt_record_def of_type_def Let_def array_add_def device_address_def)
  next
    case False
    have refl: "register_step l4 A s s" using step(1) by (intro register_step_refl) (simp_all add: register_step_def)
    show ?thesis
      using False limits reads step refl register_step_madt [OF step(1)] register_step_madt [OF refl]
      by (auto simp: collect.simps madt_record_def of_type_def Let_def array_add_def within_limits_def)
  qed
qed

section \<open>The loop\<close>

lemma within_limits_fold: "within_limits (snd (fold (collect m) as x)) \<Longrightarrow> within_limits (snd x)"
  using fold_collect [of m as "fst x" "snd x"] by (simp add: within_limits_def)

definition header_bytes :: "'a pf \<Rightarrow> addr \<Rightarrow> addr \<Rightarrow> bool" where
  "header_bytes s l4 madt \<longleftrightarrow> (\<forall>k < 44. other_page s l4 (page_of (madt + of_nat k)))"

lemma header_reads:
  assumes step: "register_step l4 A s t" and bytes: "header_bytes s l4 madt"
  shows "sdt_length (madt_header (get_MADTHeader (mem t) madt)) = sdt_length (madt_header (get_MADTHeader (mem s) madt))"
    "local_apic_address (get_MADTHeader (mem t) madt) = local_apic_address (get_MADTHeader (mem s) madt)"
proof -
  have b: "mem t (madt + of_nat k) = mem s (madt + of_nat k)" if "k < 44" for k
    using register_step_mem [OF step] bytes that by (simp add: header_bytes_def)
  have "mem t (madt + 4 + of_nat k) = mem s (madt + 4 + of_nat k)" if "k < 4" for k
    using b [of "4 + k"] that by (simp add: add.assoc)
  then show "sdt_length (madt_header (get_MADTHeader (mem t) madt)) = sdt_length (madt_header (get_MADTHeader (mem s) madt))"
    by (simp add: get_MADTHeader_def get_SDTHeader_def load32_def load_bytes_cong [of _ "mem t" "madt + 4" "mem s"])
  have "mem t (madt + 36 + of_nat k) = mem s (madt + 36 + of_nat k)" if "k < 4" for k
    using b [of "36 + k"] that by (simp add: add.assoc)
  then show "local_apic_address (get_MADTHeader (mem t) madt) = local_apic_address (get_MADTHeader (mem s) madt)"
    by (simp add: get_MADTHeader_def load32_def load_bytes_cong [of _ "mem t" "madt + 36" "mem s"])
qed

lemma madt_bound_less:
  assumes "44 \<le> unat (sdt_length (madt_header (get_MADTHeader m madt)))" "t \<le> madt_bound m madt + 255"
  shows "of_nat t < (ucast (sdt_length (madt_header (get_MADTHeader m madt))) - sizeof_MADTHeader :: u64)
    \<longleftrightarrow> t < madt_bound m madt"
proof -
  let ?l = "sdt_length (madt_header (get_MADTHeader m madt))"
  have l: "unat ?l < 2 ^ 32" using unsigned_less [of ?l, where ?'a = nat] by simp
  have up: "unat (ucast ?l :: u64) = unat ?l"
    using l by (simp add: unsigned_ucast_eq take_bit_nat_eq_self)
  have "unat (ucast ?l - sizeof_MADTHeader :: u64) = madt_bound m madt"
    using assms(1) by (simp add: sizeof_MADTHeader_def unat_sub_le word_le_nat_alt up madt_bound_def)
  moreover have "unat (of_nat t :: u64) = t"
    using assms(2) l by (intro of_nat_less_u64 [of t "2 ^ 33"]) (simp_all add: madt_bound_def)
  ultimately show ?thesis by (simp add: word_less_nat_alt)
qed

lemma madt_loop_walk:
  fixes s s0 :: "'a md"
  assumes header: "header_bytes s0 l4 madt" and len: "44 \<le> unat (sdt_length (madt_header (get_MADTHeader (mem s0) madt)))"
    and walk: "madt_walk (mem s0) madt (madt_bound (mem s0) madt) t = Some recs"
    and t: "t \<le> madt_bound (mem s0) madt + 255"
    and step: "register_step l4 A s0 s" "s_pagetable_l4 s = l4"
    and bytes: "\<And>a. a \<in> set recs \<Longrightarrow> record_bytes s0 l4 a"
    and limits: "within_limits (snd (fold (collect (mem s0)) recs (lap, s_madt_info s)))"
    and dev: "\<And>a. a \<in> set recs \<Longrightarrow> of_type (mem s0) MADT_TYPE_IOAPIC a \<Longrightarrow> mappable s0 A (device_address (mem s0) a)"
  shows "\<exists>u. madt_loop madt (of_nat t) (lap, s) = Some (fst (fold (collect (mem s0)) recs (lap, s_madt_info s)), u)
    \<and> s_madt_info u = snd (fold (collect (mem s0)) recs (lap, s_madt_info s)) \<and> s_madt u = s_madt s
    \<and> register_step l4 A s0 u \<and> register_step l4 A s u \<and> s_pagetable_l4 u = l4
    \<and> (\<forall>a. a \<in> set recs \<and> of_type (mem s0) MADT_TYPE_IOAPIC a \<longrightarrow> registers_at l4 (device_address (mem s0) a) (mem u))"
  using walk t step bytes limits dev
proof (induction recs arbitrary: t lap s)
  case Nil
  have "\<not> t < madt_bound (mem s0) madt"
    using Nil.prems(1) by (subst (asm) madt_walk.simps) (auto simp: Let_def split: if_splits)
  then have "\<not> of_nat t < (ucast (sdt_length (madt_header (get_MADTHeader (mem s) madt))) - sizeof_MADTHeader :: u64)"
    using madt_bound_less [OF len Nil.prems(2)] header_reads [OF Nil.prems(3) header] by simp
  moreover have "register_step l4 A s s"
    using Nil.prems(3) by (intro register_step_refl) (simp_all add: register_step_def)
  ultimately show ?case using Nil.prems by (subst madt_loop.simps) simp
next
  case (Cons a recs)
  let ?m = "mem s0" and ?b = "madt_bound (mem s0) madt"
  let ?a = "madt + sizeof_MADTHeader + of_nat t" and ?n = "record_length (get_MADTRecord ?m a)"
  have w: "t < ?b" "a = ?a" "?n \<noteq> 0" "madt_walk ?m madt ?b (t + unat ?n) = Some recs"
    using Cons.prems(1) by (subst (asm) madt_walk.simps, auto simp: Let_def split: if_splits)+
  have n: "unat ?n \<le> 255" using unsigned_less [of ?n, where ?'a = nat] by simp
  have lt: "of_nat t < (ucast (sdt_length (madt_header (get_MADTHeader (mem s) madt))) - sizeof_MADTHeader :: u64)"
    using w(1) madt_bound_less [OF len Cons.prems(2)] header_reads [OF Cons.prems(3) header] by simp
  have lim: "within_limits (snd (collect ?m a (lap, s_madt_info s)))"
    by (rule within_limits_fold [of ?m recs]) (use Cons.prems(6) in simp)
  have dev: "of_type ?m MADT_TYPE_IOAPIC a \<Longrightarrow> mappable s0 A (device_address ?m a)"
    using Cons.prems(7) by simp
  have bytes: "record_bytes s0 l4 a" using Cons.prems(5) by simp
  obtain v where v: "madt_record a (lap, s) = Some (fst (collect ?m a (lap, s_madt_info s)), v)"
    "s_madt_info v = snd (collect ?m a (lap, s_madt_info s))" "s_madt v = s_madt s"
    "register_step l4 A s0 v" "register_step l4 A s v" "s_pagetable_l4 v = l4"
    "of_type ?m MADT_TYPE_IOAPIC a \<longrightarrow> registers_at l4 (device_address ?m a) (mem v)"
    using madt_record_step [OF Cons.prems(3,4) bytes lim dev] by blast
  let ?lap = "fst (collect ?m a (lap, s_madt_info s))"
  have x: "(?lap, s_madt_info v) = collect ?m a (lap, s_madt_info s)" using v(2) by simp
  have f: "fold (collect ?m) (a # recs) (lap, s_madt_info s) = fold (collect ?m) recs (?lap, s_madt_info v)"
    unfolding x by simp
  obtain u where u: "madt_loop madt (of_nat (t + unat ?n)) (?lap, v) = Some (fst (fold (collect ?m) recs (?lap, s_madt_info v)), u)"
    "s_madt_info u = snd (fold (collect ?m) recs (?lap, s_madt_info v))" "s_madt u = s_madt v"
    "register_step l4 A s0 u" "register_step l4 A v u" "s_pagetable_l4 u = l4"
    "\<forall>a. a \<in> set recs \<and> of_type ?m MADT_TYPE_IOAPIC a \<longrightarrow> registers_at l4 (device_address ?m a) (mem u)"
    using Cons.IH [OF w(4) _ v(4,6), of ?lap] Cons.prems(5,6,7) w(1) n unfolding f by auto
  have "registers_at l4 (device_address ?m a) (mem u)" if "of_type ?m MADT_TYPE_IOAPIC a"
    using that v(7) u(5) by (simp add: register_step_def)
  moreover have "madt_loop madt (of_nat t) (lap, s) = madt_loop madt (of_nat (t + unat ?n)) (?lap, v)"
    using lt v(1) w(2) record_reads(1) [OF Cons.prems(3) bytes]
    by (subst madt_loop.simps) (simp add: Let_def)
  ultimately show ?case
    unfolding f using u v(3) register_step_trans [OF v(5) u(5)] by auto
qed

section \<open>Initialisation\<close>

text \<open>
  A well formed table: its records have non-zero lengths and fit into the kernel's arrays, and
  the table lies on pages of other data.
\<close>

definition madt_wf :: "'a pf \<Rightarrow> addr \<Rightarrow> addr \<Rightarrow> addr list \<Rightarrow> bool" where
  "madt_wf s l4 madt recs \<longleftrightarrow>
     44 \<le> unat (sdt_length (madt_header (get_MADTHeader (mem s) madt)))
     \<and> madt_walk (mem s) madt (madt_bound (mem s) madt) 0 = Some recs
     \<and> header_bytes s l4 madt \<and> (\<forall>a \<in> set recs. record_bytes s l4 a)
     \<and> madt div 4096 \<le> madt div 4096 + NEAREST_PAGE (ucast (sdt_length (madt_header (get_MADTHeader (mem s) madt))))
     \<and> (\<forall>j \<in> page_range madt (NEAREST_PAGE (ucast (sdt_length (madt_header (get_MADTHeader (mem s) madt))))). not_free s j)"

definition local_apic_of :: "memory \<Rightarrow> addr \<Rightarrow> addr list \<Rightarrow> addr" where
  "local_apic_of m madt recs =
     (case filter (of_type m MADT_TYPE_LOCAL_APIC_ADDRESS_OVERRIDE) recs of
        [] \<Rightarrow> ucast (local_apic_address (get_MADTHeader m madt))
      | bs \<Rightarrow> lao_local_apic_address (get_MADTLocalAPICAddressOverride m (last bs)))"

definition empty_info :: MADTInformation where
  "empty_info = \<lparr>local_apic_ptr = 0, processors = [], ioapics = [], isos = [], nmis = []\<rparr>"

definition madt_info_of :: "memory \<Rightarrow> addr \<Rightarrow> addr list \<Rightarrow> MADTInformation" where
  "madt_info_of m madt recs = \<lparr>local_apic_ptr = local_apic_of m madt recs,
     processors = map (\<lambda>a. \<lparr>local_processor = a, ap_stack_ptr = 0, ap_stack_size = 0\<rparr>)
        (filter (of_type m MADT_TYPE_LOCAL_PROCESSOR) recs),
     ioapics = map (\<lambda>a. \<lparr>ioapic = a, max_interrupts = 0\<rparr>) (filter (of_type m MADT_TYPE_IOAPIC) recs),
     isos = filter (of_type m MADT_TYPE_INTERRUPT_SOURCE_OVERRIDE) recs,
     nmis = filter (of_type m MADT_TYPE_NONMASKABLE_INTERRUPT) recs\<rparr>"

lemma madt_init_result:
  fixes s :: "'a md"
  assumes tree: "paging_tree s l4" "s_pagetable_l4 s = l4" "enough_frames s l4 A"
    and wf: "madt_wf s l4 madt recs" and empty: "s_madt_info s = empty_info"
    and limits: "within_limits (madt_info_of (mem s) madt recs)"
    and dev: "\<And>a. a \<in> set recs \<Longrightarrow> of_type (mem s) MADT_TYPE_IOAPIC a \<Longrightarrow> mappable s A (device_address (mem s) a)"
    and lap: "mappable s A (local_apic_of (mem s) madt recs)"
  shows "\<exists>t. madt_init madt s = Some t \<and> s_madt t = madt \<and> s_madt_info t = madt_info_of (mem s) madt recs
    \<and> register_step l4 A s t \<and> registers_at l4 (local_apic_of (mem s) madt recs) (mem t)
    \<and> (\<forall>a. a \<in> set recs \<and> of_type (mem s) MADT_TYPE_IOAPIC a \<longrightarrow> registers_at l4 (device_address (mem s) a) (mem t))"
proof -
  let ?m = "mem s" and ?len = "sdt_length (madt_header (get_MADTHeader (mem s) madt))"
  let ?s = "s\<lparr>s_madt := madt\<rparr>"
  have w: "44 \<le> unat ?len" "madt_walk ?m madt (madt_bound ?m madt) 0 = Some recs" "header_bytes s l4 madt"
    "\<And>a. a \<in> set recs \<Longrightarrow> record_bytes s l4 a" "madt div 4096 \<le> madt div 4096 + NEAREST_PAGE (ucast ?len)"
    "\<And>j. j \<in> page_range madt (NEAREST_PAGE (ucast ?len)) \<Longrightarrow> not_free s j"
    using wf by (auto simp: madt_wf_def)
  have "pf_idle ?s" using tree(1) by (simp add: paging_tree_def pf_alloc_inv_def pf_idle_def)
  then obtain z where r: "pageframe_reserve_size madt (ucast ?len) ?s = Some (?s\<lparr>s_memory_reserved_size := z\<rparr>)"
    using pageframe_reserve_not_free [of ?s madt "NEAREST_PAGE (ucast ?len)"] w(5,6)
      same_core(3) [OF same_core_madt(2) [where s = s and y = madt]]
    by (auto simp: pageframe_reserve_size_def)
  let ?r = "?s\<lparr>s_memory_reserved_size := z\<rparr>"
  have core: "same_core s ?r" by (simp add: same_core_def)
  have step: "register_step l4 A s ?r"
    by (rule register_step_core [OF core register_step_refl [OF tree(1,3)]])
  let ?lap = "ucast (local_apic_address (get_MADTHeader ?m madt)) :: addr"
  let ?f = "fold (collect ?m) recs (?lap, empty_info)"
  have snd: "snd ?f = (madt_info_of ?m madt recs)\<lparr>local_apic_ptr := 0\<rparr>"
    by (simp add: fold_collect madt_info_of_def empty_info_def)
  have fst: "fst ?f = local_apic_of ?m madt recs"
    by (simp add: fold_collect_override local_apic_of_def)
  have lim: "within_limits (snd ?f)" using limits by (simp add: snd within_limits_def)
  obtain u where u: "madt_loop madt 0 (?lap, ?r) = Some (fst ?f, u)" "s_madt_info u = snd ?f" "s_madt u = madt"
    "register_step l4 A s u" "s_pagetable_l4 u = l4"
    "\<forall>a. a \<in> set recs \<and> of_type ?m MADT_TYPE_IOAPIC a \<longrightarrow> registers_at l4 (device_address ?m a) (mem u)"
    using madt_loop_walk [OF w(3,1,2) _ step _ w(4), of ?lap] lim dev empty tree(2) by auto
  obtain v where v: "map_registers (fst ?f) u = Some v" "register_step l4 A s v" "register_step l4 A u v"
    "pageframe_state.more v = pageframe_state.more u" "registers_at l4 (fst ?f) (mem v)"
    using map_registers_more [OF u(4,5), of "fst ?f"] lap fst by auto
  let ?t = "v\<lparr>s_madt_info := (s_madt_info v)\<lparr>local_apic_ptr := fst ?f\<rparr>\<rparr>"
  have "madt_init madt s = Some ?t"
    using r u(1) v(1) by (simp add: madt_init_def)
  moreover have "s_madt_info ?t = madt_info_of ?m madt recs"
    using madt_more [OF v(4)] u(2) snd fst by (simp add: madt_info_of_def)
  moreover have "registers_at l4 (device_address ?m a) (mem ?t)" if "a \<in> set recs" "of_type ?m MADT_TYPE_IOAPIC a" for a
    using u(6) v(3) that by (simp add: register_step_def)
  ultimately show ?thesis
    using madt_more [OF v(4)] u(3) v(5) fst register_step_madt [OF v(2)] by auto
qed

text \<open>A record of length zero stops the walk: the loop never leaves it.\<close>

definition zero_record :: "memory \<Rightarrow> addr \<Rightarrow> u64 \<Rightarrow> bool" where
  "zero_record m madt t \<longleftrightarrow> t < ucast (sdt_length (madt_header (get_MADTHeader m madt))) - sizeof_MADTHeader
     \<and> record_length (get_MADTRecord m (madt + sizeof_MADTHeader + t)) = 0
     \<and> \<not> of_type m MADT_TYPE_IOAPIC (madt + sizeof_MADTHeader + t)"

lemma madt_record_mem:
  assumes "madt_record a x = Some y" "\<not> of_type (mem (snd x)) MADT_TYPE_IOAPIC a"
  shows "mem (snd y) = mem (snd x)"
  using assms by (cases x) (auto simp: madt_record_def of_type_def Let_def split: if_splits Option.bind_splits)

lemma madt_loop_zero_record:
  fixes x :: "addr \<times> 'a md"
  assumes "zero_record (mem (snd x)) madt t"
  shows "madt_loop madt t x = None"
proof -
  have "\<not> zero_record (mem (snd x)) madt t" if "madt_loop madt t x = Some y" for y
    using that
  proof (rule madt_loop.raw_induct [where P = "\<lambda>madt t x y. \<not> zero_record (mem (snd x)) madt t"
        and xa = "((madt, t), x)", unfolded prod.case, rotated], intro notI)
    fix loop and madt :: addr and t :: u64 and x :: "addr \<times> 'a md" and y
    let ?a = "madt + sizeof_MADTHeader + t"
    assume IH: "\<And>madt t x y. loop madt t x = Some y \<Longrightarrow> \<not> zero_record (mem (snd x)) madt t"
      and run: "(if t < ucast (sdt_length (madt_header (get_MADTHeader (mem (snd x)) madt))) - sizeof_MADTHeader
        then let a = ?a; t = t + ucast (record_length (get_MADTRecord (mem (snd x)) a))
          in madt_record a x \<bind> loop madt t
        else Some x) = Some y"
      and z: "zero_record (mem (snd x)) madt t"
    from z run obtain x' where x': "madt_record ?a x = Some x'" "loop madt t x' = Some y"
      by (auto simp: zero_record_def Let_def split: Option.bind_splits if_splits)
    have "mem (snd x') = mem (snd x)" using madt_record_mem [OF x'(1)] z by (simp add: zero_record_def)
    then show False using IH [OF x'(2)] z by simp
  qed
  then show ?thesis using assms by (cases "madt_loop madt t x") auto
qed

end
