(* ===== verification/Madt_Props.thy ===== *)
theory Madt_Props
  imports Madt_Correct Paging_Props
begin

text \<open>The properties of the interrupt controller tables, with their witnesses.\<close>

section \<open>A small state with data\<close>

text \<open>The small state of the page tables with data on page 0.\<close>

definition example_data :: "memory \<Rightarrow> 'a \<Rightarrow> 'a pf" where
  "example_data d x = (example_pf 0xE0 x)\<lparr>mem := (\<lambda>a. if page_of a = 0 then d a else if a = 0x1000 then 0xE0 else 0)\<rparr>"

lemma example_data_state:
  fixes x :: 'a
  shows "paging_tree (example_data d x) 0x2000" "other_page (example_data d x) 0x2000 0"
    "not_free (example_data d x) 0" "8 < j \<Longrightarrow> not_free (example_data d x) j" "3 \<le> frames_left (example_data d x)"
proof -
  let ?e = "example_pf 0xE0 x" and ?s = "example_data d x"
  have map: "map_byte ?e a \<longleftrightarrow> a = 0x1000" for a
    by (simp add: map_byte_def example_pf_simps in_region_def)
  have use: "frame_in_use ?e i \<longleftrightarrow> i < 8 \<and> bit (0xE0 :: u8) (7 - unat i)" for i
    by (auto simp: frame_in_use_def example_pf_simps example_pf_used)
  have inv: "pf_alloc_inv ?e"
    unfolding pf_alloc_inv_def map use
    using example_pf_good [of "0xE0" x] by (simp add: example_pf_simps page_of_def)
  have "pf_alloc_inv ?s \<and> frame_in_use ?s = frame_in_use ?e \<and> frames_left ?s = frames_left ?e \<and> map_byte ?s = map_byte ?e"
    unfolding example_data_def
    by (rule put_frame_pf [OF inv]) (simp only: map, simp add: page_of_def example_pf_def)
  then have s: "pf_alloc_inv ?s" "frame_in_use ?s = frame_in_use ?e" "frames_left ?s = frames_left ?e"
    "map_byte ?s = map_byte ?e" by simp_all
  have zero: "mem ?s a = 0" if "page_of a = page_of 0x2000" for a
    using that by (auto simp: example_data_def page_of_def)
  have "table_tree (frame_in_use ?s) (map_byte ?s) (mem ?s) 0x2000"
    by (rule empty_table_tree) (auto simp: s use map zero page_of_def page_aligned_def)
  with s(1) show tree: "paging_tree ?s 0x2000" by (simp add: paging_tree_def)
  have "table_at (mem ?s) 0x2000 p t \<longleftrightarrow> p = [] \<and> t = 0x2000" for p t
    by (rule empty_table_at) (simp_all add: zero page_aligned_def)
  then show "other_page ?s 0x2000 0"
    by (auto simp: other_page_def s use map page_of_def)
  show "not_free ?s 0" by (simp add: not_free_def s use)
  show "not_free ?s j" if "8 < j"
    using that by (simp add: not_free_def example_data_def example_pf_simps)
  have "{3, 4, 5} \<subseteq> free_ahead ?e"
    by (simp add: free_ahead_def example_pf_simps example_pf_used)
  from card_mono [OF _ this] have "3 \<le> frames_left ?e" by (simp add: frames_left_def)
  then show "3 \<le> frames_left ?s" by (simp only: s(3))
qed

section \<open>Properties\<close>

text \<open>
  C7.  \<open>madt_init\<close> returns on every well formed table, although it rewrites the page tables while
  it reads the table.  It records the processors, I/O controllers, interrupt source overrides and
  non-maskable interrupts of the table in the table's order, takes the address of the local
  controller from the last override or else from the header, leaves the registers of all
  controllers mapped to themselves and writable, and changes no page of other data.
\<close>

theorem madt_init_collects:
  fixes s :: "'a md"
  assumes "paging_tree s (s_pagetable_l4 s)" and "enough_frames s (s_pagetable_l4 s) A"
    and "madt_wf s (s_pagetable_l4 s) madt recs" and "madt_get_info s = empty_info"
    and "within_limits (madt_info_of (mem s) madt recs)"
    and "\<forall>a \<in> set recs. of_type (mem s) MADT_TYPE_IOAPIC a \<longrightarrow> mappable s A (device_address (mem s) a)"
    and "mappable s A (local_apic_of (mem s) madt recs)"
  shows "\<exists>t. madt_init madt s = Some t \<and> madt_get t = madt
    \<and> map local_processor (processors (madt_get_info t)) = filter (of_type (mem s) MADT_TYPE_LOCAL_PROCESSOR) recs
    \<and> map ioapic (ioapics (madt_get_info t)) = filter (of_type (mem s) MADT_TYPE_IOAPIC) recs
    \<and> isos (madt_get_info t) = filter (of_type (mem s) MADT_TYPE_INTERRUPT_SOURCE_OVERRIDE) recs
    \<and> nmis (madt_get_info t) = filter (of_type (mem s) MADT_TYPE_NONMASKABLE_INTERRUPT) recs
    \<and> local_apic_ptr (madt_get_info t) = local_apic_of (mem s) madt recs
    \<and> registers_at (s_pagetable_l4 s) (local_apic_of (mem s) madt recs) (mem t)
    \<and> (\<forall>a \<in> set recs. of_type (mem s) MADT_TYPE_IOAPIC a \<longrightarrow>
        registers_at (s_pagetable_l4 s) (device_address (mem s) a) (mem t))
    \<and> paging_tree t (s_pagetable_l4 s) \<and> keeps_other (s_pagetable_l4 s) s t"
proof -
  obtain t where t: "madt_init madt s = Some t" "s_madt t = madt" "s_madt_info t = madt_info_of (mem s) madt recs"
    "register_step (s_pagetable_l4 s) A s t" "registers_at (s_pagetable_l4 s) (local_apic_of (mem s) madt recs) (mem t)"
    "\<forall>a. a \<in> set recs \<and> of_type (mem s) MADT_TYPE_IOAPIC a \<longrightarrow>
        registers_at (s_pagetable_l4 s) (device_address (mem s) a) (mem t)"
    using madt_init_result [OF assms(1) refl assms(2,3) _ assms(5) _ assms(7)] assms(4,6)
    by (auto simp: madt_get_info_def)
  then show ?thesis
    by (auto simp: madt_get_def madt_get_info_def madt_info_of_def register_step_def comp_def)
qed

definition example_md :: madt_state where
  "example_md = example_data ((\<lambda>_. 0)(0x104 := 52, 0x126 := 0xE0, 0x127 := 0xFE, 0x12D := 8))
     \<lparr>s_pagetable_l4 = 0x2000, s_madt = 0, s_madt_info = empty_info\<rparr>"

lemma example_md_reads:
  "page_of a = 0 \<Longrightarrow> mem example_md a = ((\<lambda>_. 0)(0x104 := 52, 0x126 := 0xE0, 0x127 := 0xFE, 0x12D := 8)) a"
  by (simp add: example_md_def example_data_def)

theorem madt_init_collects_witness:
  "\<exists>t. madt_init 0x100 example_md = Some t \<and> map local_processor (processors (madt_get_info t)) = [0x12C]
     \<and> registers_at 0x2000 0xFEE00000 (mem t)"
proof -
  note e = example_data_state [where d = "(\<lambda>_. 0)(0x104 := 52, 0x126 := 0xE0, 0x127 := 0xFE, 0x12D := 8)"
      and x = "\<lparr>s_pagetable_l4 = 0x2000, s_madt = 0, s_madt_info = empty_info\<rparr>", folded example_md_def]
  have l4: "s_pagetable_l4 example_md = 0x2000"
    by (simp add: example_md_def example_data_def example_pf_def)
  have info: "madt_get_info example_md = empty_info"
    by (simp add: example_md_def example_data_def example_pf_def madt_get_info_def)
  have page0: "page_of (0x100 + of_nat k) = 0" if "k < 56" for k
  proof -
    have "unat (0x100 + of_nat k :: u64) = 256 + k" using that by (simp add: unat_word_ariths unat_of_nat)
    then show ?thesis using that by (simp add: page_of_div word_unat_eq_iff unat_div)
  qed
  have len: "sdt_length (madt_header (get_MADTHeader (mem example_md) 0x100)) = 52"
    by (simp add: get_MADTHeader_def get_SDTHeader_def load_eval example_md_reads page_of_def)
  have lap: "local_apic_address (get_MADTHeader (mem example_md) 0x100) = 0xFEE00000"
    by (simp add: get_MADTHeader_def load_eval example_md_reads page_of_def)
  have rec: "get_MADTRecord (mem example_md) 0x12C = \<lparr>record_type = 0, record_length = 8\<rparr>"
    by (simp add: get_MADTRecord_def example_md_reads page_of_def)
  have walk: "madt_walk (mem example_md) 0x100 8 0 = Some [0x12C]"
    by (simp add: madt_walk.simps [of _ _ 8 0] madt_walk.simps [of _ _ 8 8] rec sizeof_MADTHeader_def)
  have bound: "madt_bound (mem example_md) 0x100 = 8" by (simp add: madt_bound_def len)
  have pages: "NEAREST_PAGE 52 = 1" "page_range 0x100 1 = {0}"
    by (auto simp: NEAREST_PAGE_def ROUND_UP_PAGE_SIZE_def ROUND_UP_def MEMORY_PAGE_SIZE_def page_range_def
        word_less_nat_alt unsigned_eq_0_iff)
  have "page_of (0x12C + of_nat k) = 0" if "k < 12" for k
    using page0 [of "44 + k"] that by (simp add: add.assoc)
  then have wf: "madt_wf example_md 0x2000 0x100 [0x12C]"
    using e(2,3) page0 walk
    by (simp add: madt_wf_def len bound header_bytes_def record_bytes_def pages)
  have "local_apic_of (mem example_md) 0x100 [0x12C] = 0xFEE00000"
    by (simp add: local_apic_of_def of_type_def rec lap)
  moreover have "enough_frames example_md 0x2000 {path_of 0xFEE00000}"
    using e(5) by (rule enough_for_page)
  moreover have "mappable example_md {path_of 0xFEE00000} 0xFEE00000"
    using e(4) [of "0xFEE00"] by (simp add: mappable_def)
  moreover have "within_limits (madt_info_of (mem example_md) 0x100 [0x12C])"
    by (simp add: within_limits_def madt_info_of_def MADT_MAX_PROCESSORS_def MADT_MAX_IO_APICS_def
        MADT_MAX_INTERRUPT_SOURCE_OVERRIDES_def MADT_MAX_NONMASKABLE_INTERRUPTS_def)
  moreover have "\<not> of_type (mem example_md) MADT_TYPE_IOAPIC 0x12C" "of_type (mem example_md) MADT_TYPE_LOCAL_PROCESSOR 0x12C"
    by (simp_all add: of_type_def rec)
  ultimately show ?thesis
    using madt_init_collects [of example_md "{path_of 0xFEE00000}" "0x100" "[0x12C]"] e(1) wf info l4 by auto
qed



end
