(* ===== verification/Ioapic.thy ===== *)
theory Ioapic
  imports Madt Descriptors
begin

text \<open>
  \<^verbatim>\<open>x86_64/apic/ioapic.c\<close>: the I/O interrupt controller.  Its registers are reached indirectly: the
  number of a register is stored in the select register, and the register then appears in the
  window.  The select register is a word of memory; the registers behind the window are a part
  of the machine's state of their own and hold what was last written.
\<close>

section \<open>Redirection entries\<close>

definition IOAPIC_REG_SELECT_OFFSET :: u64 where "IOAPIC_REG_SELECT_OFFSET = 0x00"
definition IOAPIC_REG_WINDOW_OFFSET :: u64 where "IOAPIC_REG_WINDOW_OFFSET = 0x10"

text \<open>The enumerations that are fields of an entry, as bit fields of their width.\<close>

type_synonym u3 = "3 word"
type_synonym u1 = "1 word"

datatype IOAPICRedirectionEntryDeliveryMode =
  IOAPIC_REDIRECTION_ENTRY_DELIVERY_MODE_FIXED | IOAPIC_REDIRECTION_ENTRY_DELIVERY_MODE_LOW_PRIORITY
| IOAPIC_REDIRECTION_ENTRY_DELIVERY_MODE_SMI | IOAPIC_REDIRECTION_ENTRY_DELIVERY_MODE_NMI
| IOAPIC_REDIRECTION_ENTRY_DELIVERY_MODE_INIT | IOAPIC_REDIRECTION_ENTRY_DELIVERY_MODE_EXTINT

primrec delivery_mode_value :: "IOAPICRedirectionEntryDeliveryMode \<Rightarrow> u3" where
  "delivery_mode_value IOAPIC_REDIRECTION_ENTRY_DELIVERY_MODE_FIXED = 0b000"
| "delivery_mode_value IOAPIC_REDIRECTION_ENTRY_DELIVERY_MODE_LOW_PRIORITY = 0b001"
| "delivery_mode_value IOAPIC_REDIRECTION_ENTRY_DELIVERY_MODE_SMI = 0b010"
| "delivery_mode_value IOAPIC_REDIRECTION_ENTRY_DELIVERY_MODE_NMI = 0b100"
| "delivery_mode_value IOAPIC_REDIRECTION_ENTRY_DELIVERY_MODE_INIT = 0b101"
| "delivery_mode_value IOAPIC_REDIRECTION_ENTRY_DELIVERY_MODE_EXTINT = 0b111"

definition IOAPIC_REDIRECTION_ENTRY_DESTINATION_MODE_PHYSICAL :: u1 where
  "IOAPIC_REDIRECTION_ENTRY_DESTINATION_MODE_PHYSICAL = 0"
definition IOAPIC_REDIRECTION_ENTRY_PIN_POLARITY_ACTIVEHIGH :: u1 where
  "IOAPIC_REDIRECTION_ENTRY_PIN_POLARITY_ACTIVEHIGH = 0"
definition IOAPIC_REDIRECTION_ENTRY_PIN_POLARITY_ACTIVELOW :: u1 where
  "IOAPIC_REDIRECTION_ENTRY_PIN_POLARITY_ACTIVELOW = 1"
definition IOAPIC_REDIRECTION_ENTRY_TRIGGER_MODE_EDGE :: u1 where
  "IOAPIC_REDIRECTION_ENTRY_TRIGGER_MODE_EDGE = 0"
definition IOAPIC_REDIRECTION_ENTRY_TRIGGER_MODE_LEVEL :: u1 where
  "IOAPIC_REDIRECTION_ENTRY_TRIGGER_MODE_LEVEL = 1"
definition IOAPIC_REDIRECTION_ENTRY_MASK_ENABLE :: u1 where
  "IOAPIC_REDIRECTION_ENTRY_MASK_ENABLE = 0"
definition IOAPIC_REDIRECTION_ENTRY_MASK_DISABLE :: u1 where
  "IOAPIC_REDIRECTION_ENTRY_MASK_DISABLE = 1"

lemmas ioapic_entry_values =
  IOAPIC_REDIRECTION_ENTRY_DESTINATION_MODE_PHYSICAL_def
  IOAPIC_REDIRECTION_ENTRY_PIN_POLARITY_ACTIVEHIGH_def IOAPIC_REDIRECTION_ENTRY_PIN_POLARITY_ACTIVELOW_def
  IOAPIC_REDIRECTION_ENTRY_TRIGGER_MODE_EDGE_def IOAPIC_REDIRECTION_ENTRY_TRIGGER_MODE_LEVEL_def
  IOAPIC_REDIRECTION_ENTRY_MASK_ENABLE_def IOAPIC_REDIRECTION_ENTRY_MASK_DISABLE_def

datatype IOAPICRedirectionBitsLow =
  IOAPIC_REDIRECTION_BITS_LOW_VECTOR | IOAPIC_REDIRECTION_BITS_LOW_DELIVERY_MODE
| IOAPIC_REDIRECTION_BITS_LOW_DESTINATION_MODE | IOAPIC_REDIRECTION_BITS_LOW_DELIVERY_STATUS
| IOAPIC_REDIRECTION_BITS_LOW_PIN_POLARITY | IOAPIC_REDIRECTION_BITS_LOW_REMOTE_IRR
| IOAPIC_REDIRECTION_BITS_LOW_TRIGGER_MODE | IOAPIC_REDIRECTION_BITS_LOW_MASK

primrec low_bit :: "IOAPICRedirectionBitsLow \<Rightarrow> nat" where
  "low_bit IOAPIC_REDIRECTION_BITS_LOW_VECTOR = 0"
| "low_bit IOAPIC_REDIRECTION_BITS_LOW_DELIVERY_MODE = 8"
| "low_bit IOAPIC_REDIRECTION_BITS_LOW_DESTINATION_MODE = 11"
| "low_bit IOAPIC_REDIRECTION_BITS_LOW_DELIVERY_STATUS = 12"
| "low_bit IOAPIC_REDIRECTION_BITS_LOW_PIN_POLARITY = 13"
| "low_bit IOAPIC_REDIRECTION_BITS_LOW_REMOTE_IRR = 14"
| "low_bit IOAPIC_REDIRECTION_BITS_LOW_TRIGGER_MODE = 15"
| "low_bit IOAPIC_REDIRECTION_BITS_LOW_MASK = 16"

definition IOAPIC_REDIRECTION_BITS_HIGH_DESTINATION :: nat where
  "IOAPIC_REDIRECTION_BITS_HIGH_DESTINATION = 24"

record IOAPICRedirectionEntry =
  re_vector :: u8
  re_delivery_mode :: u3
  re_destination_mode :: u1
  re_delivery_status :: u1
  re_pin_polarity :: u1
  re_remote_irr :: u1
  re_trigger_mode :: u1
  re_mask :: u1
  re_destination :: u8

datatype IOAPICRegisterOffset =
  IOAPIC_REG_OFFSET_ID | IOAPIC_REG_OFFSET_VERSION | IOAPIC_REG_OFFSET_ARBITRATION
| IOAPIC_REG_OFFSET_REDIRECTION_TABLE

primrec ioapic_offset :: "IOAPICRegisterOffset \<Rightarrow> u64" where
  "ioapic_offset IOAPIC_REG_OFFSET_ID = 0x00"
| "ioapic_offset IOAPIC_REG_OFFSET_VERSION = 0x01"
| "ioapic_offset IOAPIC_REG_OFFSET_ARBITRATION = 0x02"
| "ioapic_offset IOAPIC_REG_OFFSET_REDIRECTION_TABLE = 0x10"

record ioapic_state = madt_state +
  ioapic_window :: "addr \<Rightarrow> u8 \<Rightarrow> u32"

type_synonym 'a ia = "'a ioapic_state_scheme"

section \<open>Register access\<close>

text \<open>\<open>selected p s\<close>: the register that shows in the window at \<open>p\<close>.\<close>

definition selected :: "addr \<Rightarrow> 'a ia \<Rightarrow> u8" where
  "selected p s = ucast (load32 (mem s) (p + IOAPIC_REG_SELECT_OFFSET))"

definition ioapic_get_register :: "addr \<Rightarrow> u8 \<Rightarrow> 'a ia \<Rightarrow> u32 \<times> 'a ia" where
  "ioapic_get_register p off s =
     (let s = s\<lparr>mem := store32 (mem s) (p + IOAPIC_REG_SELECT_OFFSET) (ucast off)\<rparr>
      in (ioapic_window s p (selected p s), s))"

definition ioapic_set_register :: "addr \<Rightarrow> u8 \<Rightarrow> u32 \<Rightarrow> 'a ia \<Rightarrow> 'a ia" where
  "ioapic_set_register p off v s =
     (let s = s\<lparr>mem := store32 (mem s) (p + IOAPIC_REG_SELECT_OFFSET) (ucast off)\<rparr>
      in s\<lparr>ioapic_window := (ioapic_window s)(p := (ioapic_window s p)(selected p s := v))\<rparr>)"

definition redirection_register :: "u64 \<Rightarrow> u64 \<Rightarrow> u8" where
  "redirection_register index half = ucast (ioapic_offset IOAPIC_REG_OFFSET_REDIRECTION_TABLE + 2 * index + half)"

definition entry_low :: "IOAPICRedirectionEntry \<Rightarrow> u32" where
  "entry_low e =
     push_bit (low_bit IOAPIC_REDIRECTION_BITS_LOW_VECTOR) (ucast (re_vector e))
     OR push_bit (low_bit IOAPIC_REDIRECTION_BITS_LOW_DELIVERY_MODE) (ucast (re_delivery_mode e))
     OR push_bit (low_bit IOAPIC_REDIRECTION_BITS_LOW_DESTINATION_MODE) (ucast (re_destination_mode e))
     OR push_bit (low_bit IOAPIC_REDIRECTION_BITS_LOW_DELIVERY_STATUS) (ucast (re_delivery_status e))
     OR push_bit (low_bit IOAPIC_REDIRECTION_BITS_LOW_PIN_POLARITY) (ucast (re_pin_polarity e))
     OR push_bit (low_bit IOAPIC_REDIRECTION_BITS_LOW_REMOTE_IRR) (ucast (re_remote_irr e))
     OR push_bit (low_bit IOAPIC_REDIRECTION_BITS_LOW_TRIGGER_MODE) (ucast (re_trigger_mode e))
     OR push_bit (low_bit IOAPIC_REDIRECTION_BITS_LOW_MASK) (ucast (re_mask e))"

definition entry_high :: "IOAPICRedirectionEntry \<Rightarrow> u32" where
  "entry_high e = push_bit IOAPIC_REDIRECTION_BITS_HIGH_DESTINATION (ucast (re_destination e))"

definition entry_of :: "u32 \<Rightarrow> u32 \<Rightarrow> IOAPICRedirectionEntry" where
  "entry_of low high = \<lparr>
     re_vector = ucast (drop_bit (low_bit IOAPIC_REDIRECTION_BITS_LOW_VECTOR) low),
     re_delivery_mode = ucast (drop_bit (low_bit IOAPIC_REDIRECTION_BITS_LOW_DELIVERY_MODE) low),
     re_destination_mode = ucast (drop_bit (low_bit IOAPIC_REDIRECTION_BITS_LOW_DESTINATION_MODE) low),
     re_delivery_status = ucast (drop_bit (low_bit IOAPIC_REDIRECTION_BITS_LOW_DELIVERY_STATUS) low),
     re_pin_polarity = ucast (drop_bit (low_bit IOAPIC_REDIRECTION_BITS_LOW_PIN_POLARITY) low),
     re_remote_irr = ucast (drop_bit (low_bit IOAPIC_REDIRECTION_BITS_LOW_REMOTE_IRR) low),
     re_trigger_mode = ucast (drop_bit (low_bit IOAPIC_REDIRECTION_BITS_LOW_TRIGGER_MODE) low),
     re_mask = ucast (drop_bit (low_bit IOAPIC_REDIRECTION_BITS_LOW_MASK) low),
     re_destination = ucast (drop_bit IOAPIC_REDIRECTION_BITS_HIGH_DESTINATION high)\<rparr>"


definition ioapic_set_redirection_entry :: "addr \<Rightarrow> u64 \<Rightarrow> IOAPICRedirectionEntry \<Rightarrow> 'a ia \<Rightarrow> 'a ia" where
  "ioapic_set_redirection_entry p index e s =
     (let s = ioapic_set_register p (redirection_register index 0) (entry_low e) s
      in ioapic_set_register p (redirection_register index 1) (entry_high e) s)"

section \<open>Operations\<close>

text \<open>The controller the code uses: the first of the table.  Without one the code reads a null pointer.\<close>

definition first_ioapic :: "'a ia \<Rightarrow> IOAPIC option" where
  "first_ioapic s = (case ioapics (madt_get_info s) of [] \<Rightarrow> None | x # _ \<Rightarrow> Some x)"

definition ioapic_base :: "'a ia \<Rightarrow> IOAPIC \<Rightarrow> addr" where
  "ioapic_base s x = ucast (ioapic_address (get_MADTIOAPIC (mem s) (ioapic x)))"

definition zero_entry :: IOAPICRedirectionEntry where
  "zero_entry = \<lparr>re_vector = 0, re_delivery_mode = 0, re_destination_mode = 0, re_delivery_status = 0,
     re_pin_polarity = 0, re_remote_irr = 0, re_trigger_mode = 0, re_mask = 0, re_destination = 0\<rparr>"

definition iso_entry :: "MADTInterruptSourceOverride \<Rightarrow> IOAPICRedirectionEntry" where
  "iso_entry ov = zero_entry\<lparr>
     re_vector := iso_source ov + of_nat ISR_IRQ_START,
     re_delivery_mode := delivery_mode_value IOAPIC_REDIRECTION_ENTRY_DELIVERY_MODE_FIXED,
     re_destination_mode := IOAPIC_REDIRECTION_ENTRY_DESTINATION_MODE_PHYSICAL,
     re_pin_polarity := (if iso_flags ov AND 0x03 = 0x03 then IOAPIC_REDIRECTION_ENTRY_PIN_POLARITY_ACTIVELOW
        else IOAPIC_REDIRECTION_ENTRY_PIN_POLARITY_ACTIVEHIGH),
     re_trigger_mode := (if iso_flags ov AND 0x0c = 0x0c then IOAPIC_REDIRECTION_ENTRY_TRIGGER_MODE_LEVEL
        else IOAPIC_REDIRECTION_ENTRY_TRIGGER_MODE_EDGE),
     re_mask := IOAPIC_REDIRECTION_ENTRY_MASK_ENABLE\<rparr>"

definition set_iso :: "addr \<Rightarrow> addr \<Rightarrow> 'a ia \<Rightarrow> 'a ia" where
  "set_iso p a s =
     (let ov = get_MADTInterruptSourceOverride (mem s) a
      in ioapic_set_redirection_entry p (ucast (global_interrupt ov)) (iso_entry ov) s)"

definition ioapic_init :: "'a ia \<Rightarrow> 'a ia option" where
  "ioapic_init s = do {
     x \<leftarrow> first_ioapic s;
     let p = ioapic_base s x;
     let (version, s) = ioapic_get_register p (ucast (ioapic_offset IOAPIC_REG_OFFSET_VERSION)) s;
     let max = ucast (drop_bit 16 version AND 0xff) + 1;
     let s = s\<lparr>s_madt_info := (s_madt_info s)\<lparr>ioapics := (ioapics (s_madt_info s))[0 := x\<lparr>max_interrupts := max\<rparr>]\<rparr>\<rparr>;
     Some (fold (set_iso p) (isos (madt_get_info s)) s) }"

definition overridden :: "nat \<Rightarrow> 'a ia \<Rightarrow> bool" where
  "overridden isr_num s = (\<exists>a \<in> set (isos (madt_get_info s)).
     unat (iso_source (get_MADTInterruptSourceOverride (mem s) a)) + ISR_IRQ_START = isr_num)"

definition isr_entry :: "nat \<Rightarrow> IOAPICRedirectionEntry" where
  "isr_entry isr_num = zero_entry\<lparr>
     re_vector := of_nat isr_num,
     re_delivery_mode := delivery_mode_value IOAPIC_REDIRECTION_ENTRY_DELIVERY_MODE_LOW_PRIORITY,
     re_destination_mode := IOAPIC_REDIRECTION_ENTRY_DESTINATION_MODE_PHYSICAL,
     re_pin_polarity := IOAPIC_REDIRECTION_ENTRY_PIN_POLARITY_ACTIVEHIGH,
     re_trigger_mode := IOAPIC_REDIRECTION_ENTRY_TRIGGER_MODE_EDGE,
     re_mask := IOAPIC_REDIRECTION_ENTRY_MASK_ENABLE\<rparr>"

definition set_from_isr :: "isr_handler option list \<Rightarrow> addr \<Rightarrow> nat \<Rightarrow> 'a ia \<Rightarrow> 'a ia" where
  "set_from_isr handlers p isr_num s =
     (if isr_exists isr_num handlers \<noteq> Some True then s
      else if overridden isr_num s then s
      else ioapic_set_redirection_entry p (of_nat (isr_num - ISR_IRQ_START)) (isr_entry isr_num) s)"

definition ioapic_set_from_isrs :: "isr_handler option list \<Rightarrow> 'a ia \<Rightarrow> 'a ia option" where
  "ioapic_set_from_isrs handlers s = do {
     x \<leftarrow> first_ioapic s;
     Some (fold (set_from_isr handlers (ioapic_base s x)) [ISR_IRQ_START..<ISR_MAX] s) }"

definition ioapic_entry_set_mask_at :: "addr \<Rightarrow> u64 \<Rightarrow> u1 \<Rightarrow> 'a ia \<Rightarrow> 'a ia" where
  "ioapic_entry_set_mask_at p index msk s =
     (let (low, s) = ioapic_get_register p (redirection_register index 0) s;
          low = ucast (SET_BIT (ucast low) (low_bit IOAPIC_REDIRECTION_BITS_LOW_MASK) (msk \<noteq> 0))
      in ioapic_set_register p (redirection_register index 0) low s)"

definition ioapic_entry_set_mask :: "u64 \<Rightarrow> u1 \<Rightarrow> 'a ia \<Rightarrow> 'a ia option" where
  "ioapic_entry_set_mask isr_num msk s = do {
     let source = isr_num - of_nat ISR_IRQ_START;
     x \<leftarrow> first_ioapic s;
     let p = ioapic_base s x;
     Some (case find (\<lambda>a. ucast (iso_source (get_MADTInterruptSourceOverride (mem s) a)) = source) (isos (madt_get_info s)) of
       Some a \<Rightarrow> ioapic_entry_set_mask_at p (ucast (global_interrupt (get_MADTInterruptSourceOverride (mem s) a))) msk s
     | None \<Rightarrow> ioapic_entry_set_mask_at p source msk s) }"

section \<open>Properties\<close>

lemma entry_of_low_high [simp]: "entry_of (entry_low e) (entry_high e) = e"
proof (cases e)
  case (fields v dm ds st pp ri tm ms de)
  have "ucast (drop_bit 0 (entry_low e)) = v" "ucast (drop_bit 8 (entry_low e)) = dm"
    "ucast (drop_bit 11 (entry_low e)) = ds" "ucast (drop_bit 12 (entry_low e)) = st"
    "ucast (drop_bit 13 (entry_low e)) = pp" "ucast (drop_bit 14 (entry_low e)) = ri"
    "ucast (drop_bit 15 (entry_low e)) = tm" "ucast (drop_bit 16 (entry_low e)) = ms"
    "ucast (drop_bit 24 (entry_high e)) = de"
    by (rule bit_word_eqI, auto simp: fields entry_low_def entry_high_def
        IOAPIC_REDIRECTION_BITS_HIGH_DESTINATION_def bit_simps dest: bit_imp_le_length)+
  then show ?thesis
    by (simp add: entry_of_def fields IOAPIC_REDIRECTION_BITS_HIGH_DESTINATION_def)
qed

lemma selected_store [simp]: "selected p (s\<lparr>mem := store32 (mem s) (p + IOAPIC_REG_SELECT_OFFSET) (ucast off)\<rparr>) = off"
  by (simp add: selected_def ucast_through take_bit_word_eq_self)















end
