(* ===== verification/Pci_Id.thy ===== *)
theory Pci_Id
  imports Machine
begin

text \<open>
  \<^verbatim>\<open>x86_64/pci_id.c\<close>: the tables that name classes, subclasses, programming interfaces and vendors of
  PCI devices, and the four searches in them.  All four element types occupy sixteen bytes (an
  identifier of at most three bytes and a pointer that is aligned to eight), so the element
  count each search computes with the size of \<open>PCIClassIdentifier\<close> is the length of its table.
\<close>

section \<open>Identifiers\<close>

record PCIDeviceHeader =
  vendor_id :: u16
  device_id :: u16
  command :: u16
  status :: u16
  revision_id :: u8
  program_if :: u8
  ph_subclass :: u8
  class_id :: u8
  cache_line_size :: u8
  latency_timer :: u8
  header_type :: u8
  bist :: u8

definition get_PCIDeviceHeader :: "memory \<Rightarrow> addr \<Rightarrow> PCIDeviceHeader" where
  "get_PCIDeviceHeader m a = \<lparr>vendor_id = load16 m a, device_id = load16 m (a + 2), command = load16 m (a + 4),
     status = load16 m (a + 6), revision_id = m (a + 8), program_if = m (a + 9), ph_subclass = m (a + 10),
     class_id = m (a + 11), cache_line_size = m (a + 12), latency_timer = m (a + 13),
     header_type = m (a + 14), bist = m (a + 15)\<rparr>"

record PCIClassIdentifier =
  c_class :: u8
  c_name :: string

record PCISublassIdentifier =
  sc_class :: u8
  sc_subclass :: u8
  sc_name :: string

record PCIProgrammingInterfaceIdentifier =
  pi_class :: u8
  pi_subclass :: u8
  pi_program_if :: u8
  pi_name :: string

record PCIVendorIdentifier =
  v_vendor_id :: u16
  v_name :: string

definition PCI_UNKNOWN_IDENTIFIER :: string where
  "PCI_UNKNOWN_IDENTIFIER = ''?''"

section \<open>Tables\<close>

definition g_pci_classes :: "PCIClassIdentifier list" where
  "g_pci_classes = [
     \<lparr>c_class = 0x00, c_name = ''Unclassified''\<rparr>,
    \<lparr>c_class = 0x01, c_name = ''Mass Storage Controller''\<rparr>,
    \<lparr>c_class = 0x02, c_name = ''Network Controller''\<rparr>,
    \<lparr>c_class = 0x03, c_name = ''Display Controller''\<rparr>,
    \<lparr>c_class = 0x04, c_name = ''Multimedia Controller''\<rparr>,
    \<lparr>c_class = 0x05, c_name = ''Memory Controller''\<rparr>,
    \<lparr>c_class = 0x06, c_name = ''Bridge Device''\<rparr>,
    \<lparr>c_class = 0x07, c_name = ''Simple Communication Controller''\<rparr>,
    \<lparr>c_class = 0x08, c_name = ''Base System Peripheral''\<rparr>,
    \<lparr>c_class = 0x09, c_name = ''Input Device Controller''\<rparr>,
    \<lparr>c_class = 0x0a, c_name = ''Docking Station''\<rparr>,
    \<lparr>c_class = 0x0b, c_name = ''Processor''\<rparr>,
    \<lparr>c_class = 0x0c, c_name = ''Serial Bus Controller''\<rparr>,
    \<lparr>c_class = 0x0d, c_name = ''Wireless Controller''\<rparr>,
    \<lparr>c_class = 0x0e, c_name = ''Intelligent Controller''\<rparr>,
    \<lparr>c_class = 0x0f, c_name = ''Satellite Communication Controller''\<rparr>,
    \<lparr>c_class = 0x10, c_name = ''Encryption Controller''\<rparr>,
    \<lparr>c_class = 0x11, c_name = ''Signal Processing Controller''\<rparr>,
    \<lparr>c_class = 0x12, c_name = ''Processing Accelerator''\<rparr>,
    \<lparr>c_class = 0x13, c_name = ''Non Essential Instrumentation''\<rparr>,
    \<lparr>c_class = 0x40, c_name = ''Co-Processor''\<rparr>]"

definition g_pci_subclasses :: "PCISublassIdentifier list" where
  "g_pci_subclasses = [
    \<lparr>sc_class = 0x00, sc_subclass = 0x00, sc_name = ''Non-VGA-Compatible devices''\<rparr>,
    \<lparr>sc_class = 0x00, sc_subclass = 0x01, sc_name = ''VGA-Compatible Device''\<rparr>,
    \<lparr>sc_class = 0x01, sc_subclass = 0x00, sc_name = ''SCSI Bus Controller''\<rparr>,
    \<lparr>sc_class = 0x01, sc_subclass = 0x01, sc_name = ''IDE Controller''\<rparr>,
    \<lparr>sc_class = 0x01, sc_subclass = 0x02, sc_name = ''Floppy Disk Controller''\<rparr>,
    \<lparr>sc_class = 0x01, sc_subclass = 0x03, sc_name = ''IPI Bus Controller''\<rparr>,
    \<lparr>sc_class = 0x01, sc_subclass = 0x04, sc_name = ''RAID Controller''\<rparr>,
    \<lparr>sc_class = 0x01, sc_subclass = 0x05, sc_name = ''ATA Controller''\<rparr>,
    \<lparr>sc_class = 0x01, sc_subclass = 0x06, sc_name = ''Serial ATA''\<rparr>,
    \<lparr>sc_class = 0x01, sc_subclass = 0x07, sc_name = ''Serial Attached SCSI''\<rparr>,
    \<lparr>sc_class = 0x01, sc_subclass = 0x08, sc_name = ''Non-Volatile Memory Controller''\<rparr>,
    \<lparr>sc_class = 0x01, sc_subclass = 0x80, sc_name = ''Other''\<rparr>,
    \<lparr>sc_class = 0x02, sc_subclass = 0x00, sc_name = ''Ethernet Controller''\<rparr>,
    \<lparr>sc_class = 0x02, sc_subclass = 0x01, sc_name = ''Token Ring Controller''\<rparr>,
    \<lparr>sc_class = 0x02, sc_subclass = 0x02, sc_name = ''FDDI Controller''\<rparr>,
    \<lparr>sc_class = 0x02, sc_subclass = 0x03, sc_name = ''ATM Controller''\<rparr>,
    \<lparr>sc_class = 0x02, sc_subclass = 0x04, sc_name = ''ISDN Controller''\<rparr>,
    \<lparr>sc_class = 0x02, sc_subclass = 0x05, sc_name = ''WorldFip Controller''\<rparr>,
    \<lparr>sc_class = 0x02, sc_subclass = 0x06, sc_name = ''PICMG 2.14 Multi Computing''\<rparr>,
    \<lparr>sc_class = 0x02, sc_subclass = 0x07, sc_name = ''Infiniband Controller''\<rparr>,
    \<lparr>sc_class = 0x02, sc_subclass = 0x08, sc_name = ''Fabric Controller''\<rparr>,
    \<lparr>sc_class = 0x02, sc_subclass = 0x80, sc_name = ''Other''\<rparr>,
    \<lparr>sc_class = 0x03, sc_subclass = 0x00, sc_name = ''VGA Compatible Controller''\<rparr>,
    \<lparr>sc_class = 0x03, sc_subclass = 0x01, sc_name = ''XGA Controller''\<rparr>,
    \<lparr>sc_class = 0x03, sc_subclass = 0x02, sc_name = ''3D Controller (Not VGA-Compatible)''\<rparr>,
    \<lparr>sc_class = 0x03, sc_subclass = 0x80, sc_name = ''Other''\<rparr>,
    \<lparr>sc_class = 0x04, sc_subclass = 0x00, sc_name = ''Multimedia Video Controller''\<rparr>,
    \<lparr>sc_class = 0x04, sc_subclass = 0x01, sc_name = ''Multimedia Audio Controller''\<rparr>,
    \<lparr>sc_class = 0x04, sc_subclass = 0x02, sc_name = ''Computer Telephony Device''\<rparr>,
    \<lparr>sc_class = 0x04, sc_subclass = 0x03, sc_name = ''Audio Device''\<rparr>,
    \<lparr>sc_class = 0x04, sc_subclass = 0x80, sc_name = ''Other''\<rparr>,
    \<lparr>sc_class = 0x05, sc_subclass = 0x00, sc_name = ''RAM Controller''\<rparr>,
    \<lparr>sc_class = 0x05, sc_subclass = 0x01, sc_name = ''Flash Controller''\<rparr>,
    \<lparr>sc_class = 0x05, sc_subclass = 0x80, sc_name = ''Other''\<rparr>,
    \<lparr>sc_class = 0x06, sc_subclass = 0x00, sc_name = ''Host Bridge''\<rparr>,
    \<lparr>sc_class = 0x06, sc_subclass = 0x01, sc_name = ''ISA Bridge''\<rparr>,
    \<lparr>sc_class = 0x06, sc_subclass = 0x02, sc_name = ''EISA Bridge''\<rparr>,
    \<lparr>sc_class = 0x06, sc_subclass = 0x03, sc_name = ''MCA Bridge''\<rparr>,
    \<lparr>sc_class = 0x06, sc_subclass = 0x04, sc_name = ''PCI-to-PCI Bridge''\<rparr>,
    \<lparr>sc_class = 0x06, sc_subclass = 0x05, sc_name = ''PCMCIA Bridge''\<rparr>,
    \<lparr>sc_class = 0x06, sc_subclass = 0x06, sc_name = ''NuBus Bridge''\<rparr>,
    \<lparr>sc_class = 0x06, sc_subclass = 0x07, sc_name = ''CardBus Bridge''\<rparr>,
    \<lparr>sc_class = 0x06, sc_subclass = 0x08, sc_name = ''RACEway Bridge''\<rparr>,
    \<lparr>sc_class = 0x06, sc_subclass = 0x09, sc_name = ''PCI-to-PCI Bridge''\<rparr>,
    \<lparr>sc_class = 0x06, sc_subclass = 0x0a, sc_name = ''InfiniBand-to-PCI Host Bridge''\<rparr>,
    \<lparr>sc_class = 0x06, sc_subclass = 0x80, sc_name = ''Other''\<rparr>,
    \<lparr>sc_class = 0x07, sc_subclass = 0x00, sc_name = ''Serial Controller''\<rparr>,
    \<lparr>sc_class = 0x07, sc_subclass = 0x01, sc_name = ''Parallel Controller''\<rparr>,
    \<lparr>sc_class = 0x07, sc_subclass = 0x02, sc_name = ''Multiport Serial Controller''\<rparr>,
    \<lparr>sc_class = 0x07, sc_subclass = 0x03, sc_name = ''Modem''\<rparr>,
    \<lparr>sc_class = 0x07, sc_subclass = 0x04, sc_name = ''IEEE 488.1/2 (GPIB) Controller''\<rparr>,
    \<lparr>sc_class = 0x07, sc_subclass = 0x05, sc_name = ''Smart Card''\<rparr>,
    \<lparr>sc_class = 0x07, sc_subclass = 0x80, sc_name = ''Other''\<rparr>,
    \<lparr>sc_class = 0x08, sc_subclass = 0x00, sc_name = ''PIC''\<rparr>,
    \<lparr>sc_class = 0x08, sc_subclass = 0x01, sc_name = ''DMA Controller''\<rparr>,
    \<lparr>sc_class = 0x08, sc_subclass = 0x02, sc_name = ''Timer''\<rparr>,
    \<lparr>sc_class = 0x08, sc_subclass = 0x03, sc_name = ''RTC Controller''\<rparr>,
    \<lparr>sc_class = 0x08, sc_subclass = 0x04, sc_name = ''PCI Hot-Plug Controller''\<rparr>,
    \<lparr>sc_class = 0x08, sc_subclass = 0x05, sc_name = ''SD Host controller''\<rparr>,
    \<lparr>sc_class = 0x08, sc_subclass = 0x06, sc_name = ''IOMMU''\<rparr>,
    \<lparr>sc_class = 0x08, sc_subclass = 0x80, sc_name = ''Other''\<rparr>,
    \<lparr>sc_class = 0x09, sc_subclass = 0x00, sc_name = ''Keyboard Controller''\<rparr>,
    \<lparr>sc_class = 0x09, sc_subclass = 0x01, sc_name = ''Digitizer Pen''\<rparr>,
    \<lparr>sc_class = 0x09, sc_subclass = 0x02, sc_name = ''Mouse Controller''\<rparr>,
    \<lparr>sc_class = 0x09, sc_subclass = 0x03, sc_name = ''Scanner Controller''\<rparr>,
    \<lparr>sc_class = 0x09, sc_subclass = 0x04, sc_name = ''Gameport Controller''\<rparr>,
    \<lparr>sc_class = 0x09, sc_subclass = 0x80, sc_name = ''Other''\<rparr>,
    \<lparr>sc_class = 0x0a, sc_subclass = 0x00, sc_name = ''Generic''\<rparr>,
    \<lparr>sc_class = 0x0a, sc_subclass = 0x80, sc_name = ''Other''\<rparr>,
    \<lparr>sc_class = 0x0b, sc_subclass = 0x00, sc_name = ''386''\<rparr>,
    \<lparr>sc_class = 0x0b, sc_subclass = 0x01, sc_name = ''486''\<rparr>,
    \<lparr>sc_class = 0x0b, sc_subclass = 0x02, sc_name = ''Pentium''\<rparr>,
    \<lparr>sc_class = 0x0b, sc_subclass = 0x03, sc_name = ''Pentium Pro''\<rparr>,
    \<lparr>sc_class = 0x0b, sc_subclass = 0x10, sc_name = ''Alpha''\<rparr>,
    \<lparr>sc_class = 0x0b, sc_subclass = 0x20, sc_name = ''PowerPC''\<rparr>,
    \<lparr>sc_class = 0x0b, sc_subclass = 0x30, sc_name = ''MIPS''\<rparr>,
    \<lparr>sc_class = 0x0b, sc_subclass = 0x40, sc_name = ''Co-Processor''\<rparr>,
    \<lparr>sc_class = 0x0b, sc_subclass = 0x80, sc_name = ''Other''\<rparr>,
    \<lparr>sc_class = 0x0c, sc_subclass = 0x00, sc_name = ''FireWire (IEEE 1394) Controller''\<rparr>,
    \<lparr>sc_class = 0x0c, sc_subclass = 0x01, sc_name = ''ACCESS Bus''\<rparr>,
    \<lparr>sc_class = 0x0c, sc_subclass = 0x02, sc_name = ''SSA''\<rparr>,
    \<lparr>sc_class = 0x0c, sc_subclass = 0x03, sc_name = ''USB Controller''\<rparr>,
    \<lparr>sc_class = 0x0c, sc_subclass = 0x04, sc_name = ''Fiber Channel''\<rparr>,
    \<lparr>sc_class = 0x0c, sc_subclass = 0x05, sc_name = ''SMBus''\<rparr>,
    \<lparr>sc_class = 0x0c, sc_subclass = 0x06, sc_name = ''InfiniBand''\<rparr>,
    \<lparr>sc_class = 0x0c, sc_subclass = 0x07, sc_name = ''IPMI Interface''\<rparr>,
    \<lparr>sc_class = 0x0c, sc_subclass = 0x08, sc_name = ''SERCOS Interface (IEC 61491)''\<rparr>,
    \<lparr>sc_class = 0x0c, sc_subclass = 0x09, sc_name = ''CANbus''\<rparr>,
    \<lparr>sc_class = 0x0c, sc_subclass = 0x80, sc_name = ''Other''\<rparr>,
    \<lparr>sc_class = 0x0d, sc_subclass = 0x00, sc_name = ''iRDA Compatible Controller''\<rparr>,
    \<lparr>sc_class = 0x0d, sc_subclass = 0x01, sc_name = ''Consumer IR Controller''\<rparr>,
    \<lparr>sc_class = 0x0d, sc_subclass = 0x10, sc_name = ''RF Controller''\<rparr>,
    \<lparr>sc_class = 0x0d, sc_subclass = 0x11, sc_name = ''Bluetooth Controller''\<rparr>,
    \<lparr>sc_class = 0x0d, sc_subclass = 0x12, sc_name = ''Broadband Controller''\<rparr>,
    \<lparr>sc_class = 0x0d, sc_subclass = 0x20, sc_name = ''Ethernet Controller (802.1a)''\<rparr>,
    \<lparr>sc_class = 0x0d, sc_subclass = 0x21, sc_name = ''Ethernet Controller (802.1b)''\<rparr>,
    \<lparr>sc_class = 0x0d, sc_subclass = 0x80, sc_name = ''Other''\<rparr>,
    \<lparr>sc_class = 0x0e, sc_subclass = 0x00, sc_name = ''I20''\<rparr>,
    \<lparr>sc_class = 0x0f, sc_subclass = 0x01, sc_name = ''Satellite TV Controller''\<rparr>,
    \<lparr>sc_class = 0x0f, sc_subclass = 0x02, sc_name = ''Satellite Audio Controller''\<rparr>,
    \<lparr>sc_class = 0x0f, sc_subclass = 0x03, sc_name = ''Satellite Voice Controller''\<rparr>,
    \<lparr>sc_class = 0x0f, sc_subclass = 0x04, sc_name = ''Satellite Data Controller''\<rparr>,
    \<lparr>sc_class = 0x10, sc_subclass = 0x00, sc_name = ''Network and Computing Encrpytion/Decryption''\<rparr>,
    \<lparr>sc_class = 0x10, sc_subclass = 0x01, sc_name = ''Entertainment Encryption/Decryption''\<rparr>,
    \<lparr>sc_class = 0x10, sc_subclass = 0x80, sc_name = ''Other Encryption/Decryption''\<rparr>,
    \<lparr>sc_class = 0x11, sc_subclass = 0x00, sc_name = ''DPIO Modules''\<rparr>,
    \<lparr>sc_class = 0x11, sc_subclass = 0x01, sc_name = ''Performance Counters''\<rparr>,
    \<lparr>sc_class = 0x11, sc_subclass = 0x10, sc_name = ''Communication Synchronizer''\<rparr>,
    \<lparr>sc_class = 0x11, sc_subclass = 0x20, sc_name = ''Signal Processing Management''\<rparr>,
    \<lparr>sc_class = 0x11, sc_subclass = 0x80, sc_name = ''Other''\<rparr>]"

definition g_pci_progifs :: "PCIProgrammingInterfaceIdentifier list" where
  "g_pci_progifs = [
    \<lparr>pi_class = 0x01, pi_subclass = 0x01, pi_program_if = 0x00, pi_name = ''ISA Compatibility mode-only controller''\<rparr>,
    \<lparr>pi_class = 0x01, pi_subclass = 0x01, pi_program_if = 0x05, pi_name = ''PCI native mode-only controller''\<rparr>,
    \<lparr>pi_class = 0x01, pi_subclass = 0x01, pi_program_if = 0x0a, pi_name = ''ISA Compatibility mode controller w/ both channels PCI''\<rparr>,
    \<lparr>pi_class = 0x01, pi_subclass = 0x01, pi_program_if = 0x0f, pi_name = ''PCI native mode controller w/ both channels ISA''\<rparr>,
    \<lparr>pi_class = 0x01, pi_subclass = 0x01, pi_program_if = 0x80, pi_name = ''ISA Compatibility mode-only controller w/ mastering''\<rparr>,
    \<lparr>pi_class = 0x01, pi_subclass = 0x01, pi_program_if = 0x85, pi_name = ''PCI native mode-only controller w/ mastering''\<rparr>,
    \<lparr>pi_class = 0x01, pi_subclass = 0x01, pi_program_if = 0x8a, pi_name = ''ISA Compatibility mode controller w/ both channels PCI & mastering''\<rparr>,
    \<lparr>pi_class = 0x01, pi_subclass = 0x01, pi_program_if = 0x8f, pi_name = ''PCI native mode controller w/ both channels ISA & mastering''\<rparr>,
    \<lparr>pi_class = 0x01, pi_subclass = 0x05, pi_program_if = 0x20, pi_name = ''Single DMA''\<rparr>,
    \<lparr>pi_class = 0x01, pi_subclass = 0x05, pi_program_if = 0x30, pi_name = ''Chained DMA''\<rparr>,
    \<lparr>pi_class = 0x01, pi_subclass = 0x06, pi_program_if = 0x00, pi_name = ''Vendor Specific Interface''\<rparr>,
    \<lparr>pi_class = 0x01, pi_subclass = 0x06, pi_program_if = 0x01, pi_name = ''AHCI 1.0''\<rparr>,
    \<lparr>pi_class = 0x01, pi_subclass = 0x06, pi_program_if = 0x02, pi_name = ''Serial Storage Bus''\<rparr>,
    \<lparr>pi_class = 0x01, pi_subclass = 0x07, pi_program_if = 0x00, pi_name = ''SAS''\<rparr>,
    \<lparr>pi_class = 0x01, pi_subclass = 0x07, pi_program_if = 0x01, pi_name = ''Serial Storage Bus''\<rparr>,
    \<lparr>pi_class = 0x01, pi_subclass = 0x08, pi_program_if = 0x01, pi_name = ''NVMHCI''\<rparr>,
    \<lparr>pi_class = 0x01, pi_subclass = 0x08, pi_program_if = 0x02, pi_name = ''NVM Express''\<rparr>,
    \<lparr>pi_class = 0x03, pi_subclass = 0x00, pi_program_if = 0x00, pi_name = ''VGA Controller''\<rparr>,
    \<lparr>pi_class = 0x03, pi_subclass = 0x00, pi_program_if = 0x01, pi_name = ''8514-Compatible Controller''\<rparr>,
    \<lparr>pi_class = 0x06, pi_subclass = 0x04, pi_program_if = 0x00, pi_name = ''Normal Decode''\<rparr>,
    \<lparr>pi_class = 0x06, pi_subclass = 0x04, pi_program_if = 0x01, pi_name = ''Subtractive Decode''\<rparr>,
    \<lparr>pi_class = 0x06, pi_subclass = 0x08, pi_program_if = 0x00, pi_name = ''Transparent Mode''\<rparr>,
    \<lparr>pi_class = 0x06, pi_subclass = 0x08, pi_program_if = 0x01, pi_name = ''Endpoint Mode''\<rparr>,
    \<lparr>pi_class = 0x06, pi_subclass = 0x09, pi_program_if = 0x40, pi_name = ''Semi-Transparent (primary bus toward CPU)''\<rparr>,
    \<lparr>pi_class = 0x06, pi_subclass = 0x09, pi_program_if = 0x80, pi_name = ''Semi-Transparent (secondary bus toward CPU)''\<rparr>,
    \<lparr>pi_class = 0x07, pi_subclass = 0x00, pi_program_if = 0x00, pi_name = ''8250-Compatible (Generic XT)''\<rparr>,
    \<lparr>pi_class = 0x07, pi_subclass = 0x00, pi_program_if = 0x01, pi_name = ''16450-Compatible''\<rparr>,
    \<lparr>pi_class = 0x07, pi_subclass = 0x00, pi_program_if = 0x02, pi_name = ''16550-Compatible''\<rparr>,
    \<lparr>pi_class = 0x07, pi_subclass = 0x00, pi_program_if = 0x03, pi_name = ''16650-Compatible''\<rparr>,
    \<lparr>pi_class = 0x07, pi_subclass = 0x00, pi_program_if = 0x04, pi_name = ''16750-Compatible''\<rparr>,
    \<lparr>pi_class = 0x07, pi_subclass = 0x00, pi_program_if = 0x05, pi_name = ''16850-Compatible''\<rparr>,
    \<lparr>pi_class = 0x07, pi_subclass = 0x00, pi_program_if = 0x06, pi_name = ''16950-Compatible''\<rparr>,
    \<lparr>pi_class = 0x07, pi_subclass = 0x01, pi_program_if = 0x00, pi_name = ''Standard Parallel Port''\<rparr>,
    \<lparr>pi_class = 0x07, pi_subclass = 0x01, pi_program_if = 0x01, pi_name = ''Bi-Directional Parallel Port''\<rparr>,
    \<lparr>pi_class = 0x07, pi_subclass = 0x01, pi_program_if = 0x02, pi_name = ''ECP 1.X Compliant Parallel Port''\<rparr>,
    \<lparr>pi_class = 0x07, pi_subclass = 0x01, pi_program_if = 0x03, pi_name = ''IEEE 1284 Controller''\<rparr>,
    \<lparr>pi_class = 0x07, pi_subclass = 0x01, pi_program_if = 0xFE, pi_name = ''IEEE 1284 Target Device''\<rparr>,
    \<lparr>pi_class = 0x07, pi_subclass = 0x03, pi_program_if = 0x00, pi_name = ''Generic Modem''\<rparr>,
    \<lparr>pi_class = 0x07, pi_subclass = 0x03, pi_program_if = 0x01, pi_name = ''Hayes 16450-Compatible Interface''\<rparr>,
    \<lparr>pi_class = 0x07, pi_subclass = 0x03, pi_program_if = 0x02, pi_name = ''Hayes 16550-Compatible Interface''\<rparr>,
    \<lparr>pi_class = 0x07, pi_subclass = 0x03, pi_program_if = 0x03, pi_name = ''Hayes 16650-Compatible Interface''\<rparr>,
    \<lparr>pi_class = 0x07, pi_subclass = 0x03, pi_program_if = 0x04, pi_name = ''Hayes 16750-Compatible Interface''\<rparr>,
    \<lparr>pi_class = 0x08, pi_subclass = 0x00, pi_program_if = 0x00, pi_name = ''Generic 8259-Compatible''\<rparr>,
    \<lparr>pi_class = 0x08, pi_subclass = 0x00, pi_program_if = 0x01, pi_name = ''ISA-Compatible''\<rparr>,
    \<lparr>pi_class = 0x08, pi_subclass = 0x00, pi_program_if = 0x02, pi_name = ''EISA-Compatible''\<rparr>,
    \<lparr>pi_class = 0x08, pi_subclass = 0x00, pi_program_if = 0x10, pi_name = ''I/O APIC Interrupt Controller''\<rparr>,
    \<lparr>pi_class = 0x08, pi_subclass = 0x00, pi_program_if = 0x20, pi_name = ''I/O(x) APIC Interrupt Controller''\<rparr>,
    \<lparr>pi_class = 0x08, pi_subclass = 0x01, pi_program_if = 0x00, pi_name = ''Generic 8237-Compatible''\<rparr>,
    \<lparr>pi_class = 0x08, pi_subclass = 0x01, pi_program_if = 0x01, pi_name = ''ISA-Compatible''\<rparr>,
    \<lparr>pi_class = 0x08, pi_subclass = 0x01, pi_program_if = 0x02, pi_name = ''EISA-Compatible''\<rparr>,
    \<lparr>pi_class = 0x08, pi_subclass = 0x02, pi_program_if = 0x00, pi_name = ''Generic 8254-Compatible''\<rparr>,
    \<lparr>pi_class = 0x08, pi_subclass = 0x02, pi_program_if = 0x01, pi_name = ''ISA-Compatible''\<rparr>,
    \<lparr>pi_class = 0x08, pi_subclass = 0x02, pi_program_if = 0x02, pi_name = ''EISA-Compatible''\<rparr>,
    \<lparr>pi_class = 0x08, pi_subclass = 0x02, pi_program_if = 0x03, pi_name = ''HPET''\<rparr>,
    \<lparr>pi_class = 0x08, pi_subclass = 0x03, pi_program_if = 0x00, pi_name = ''Generic RTC''\<rparr>,
    \<lparr>pi_class = 0x08, pi_subclass = 0x03, pi_program_if = 0x01, pi_name = ''ISA-Compatible''\<rparr>,
    \<lparr>pi_class = 0x09, pi_subclass = 0x04, pi_program_if = 0x00, pi_name = ''Generic''\<rparr>,
    \<lparr>pi_class = 0x09, pi_subclass = 0x04, pi_program_if = 0x10, pi_name = ''Extended''\<rparr>,
    \<lparr>pi_class = 0x0c, pi_subclass = 0x00, pi_program_if = 0x00, pi_name = ''Generic''\<rparr>,
    \<lparr>pi_class = 0x0c, pi_subclass = 0x00, pi_program_if = 0x10, pi_name = ''OHCI''\<rparr>,
    \<lparr>pi_class = 0x0c, pi_subclass = 0x03, pi_program_if = 0x00, pi_name = ''UHCI Controller''\<rparr>,
    \<lparr>pi_class = 0x0c, pi_subclass = 0x03, pi_program_if = 0x10, pi_name = ''OHCI Controller''\<rparr>,
    \<lparr>pi_class = 0x0c, pi_subclass = 0x03, pi_program_if = 0x20, pi_name = ''EHCI (USB2) Controller''\<rparr>,
    \<lparr>pi_class = 0x0c, pi_subclass = 0x03, pi_program_if = 0x30, pi_name = ''XHCI (USB3) Controller''\<rparr>,
    \<lparr>pi_class = 0x0c, pi_subclass = 0x03, pi_program_if = 0x80, pi_name = ''Unspecified''\<rparr>,
    \<lparr>pi_class = 0x0c, pi_subclass = 0x03, pi_program_if = 0xfe, pi_name = ''USB Device''\<rparr>,
    \<lparr>pi_class = 0x0c, pi_subclass = 0x07, pi_program_if = 0x00, pi_name = ''SMIC''\<rparr>,
    \<lparr>pi_class = 0x0c, pi_subclass = 0x07, pi_program_if = 0x01, pi_name = ''Keyboard Controller Style''\<rparr>,
    \<lparr>pi_class = 0x0c, pi_subclass = 0x07, pi_program_if = 0x02, pi_name = ''Block Transfer''\<rparr>]"

definition g_pci_vendors :: "PCIVendorIdentifier list" where
  "g_pci_vendors = [
    \<lparr>v_vendor_id = 0x8086, v_name = ''Intel Corp.''\<rparr>,
    \<lparr>v_vendor_id = 0x1022, v_name = ''Advanced Micro Devices, Inc. [AMD/ATI]''\<rparr>,
    \<lparr>v_vendor_id = 0x10de, v_name = ''NVIDIA Corp.''\<rparr>,
    \<lparr>v_vendor_id = 0x10ec, v_name = ''Realtek Semiconductor Co., Ltd.''\<rparr>,
    \<lparr>v_vendor_id = 0x0bda, v_name = ''Realtek Semiconductor Corp.''\<rparr>,
    \<lparr>v_vendor_id = 0x168c, v_name = ''Qualcomm Atheros''\<rparr>]"

section \<open>Searches\<close>

definition pci_get_class_str :: "PCIDeviceHeader \<Rightarrow> string" where
  "pci_get_class_str h = (case find (\<lambda>x. c_class x = class_id h) g_pci_classes of
     Some x \<Rightarrow> c_name x | None \<Rightarrow> PCI_UNKNOWN_IDENTIFIER)"

definition pci_get_subclass_str :: "PCIDeviceHeader \<Rightarrow> string" where
  "pci_get_subclass_str h = (case find (\<lambda>x. sc_class x = class_id h \<and> sc_subclass x = ph_subclass h) g_pci_subclasses of
     Some x \<Rightarrow> sc_name x | None \<Rightarrow> PCI_UNKNOWN_IDENTIFIER)"

definition pci_get_progif_str :: "PCIDeviceHeader \<Rightarrow> string" where
  "pci_get_progif_str h = (case find (\<lambda>x. pi_class x = class_id h \<and> pi_subclass x = ph_subclass h \<and> pi_program_if x = program_if h)
       g_pci_progifs of
     Some x \<Rightarrow> pi_name x | None \<Rightarrow> PCI_UNKNOWN_IDENTIFIER)"

definition pci_get_vendor_str :: "PCIDeviceHeader \<Rightarrow> string" where
  "pci_get_vendor_str h = (case find (\<lambda>x. v_vendor_id x = vendor_id h) g_pci_vendors of
     Some x \<Rightarrow> v_name x | None \<Rightarrow> PCI_UNKNOWN_IDENTIFIER)"

end
