(* ===== verification/Pci.thy ===== *)
theory Pci
  imports Pci_Id Acpi Paging_Attributes
begin

text \<open>
  \<^verbatim>\<open>x86_64/pci.c\<close>: the search for PCI devices in the configuration space the firmware describes by the
  MCFG table.  The configuration space is memory; a page of it is mapped before it is read.
\<close>

definition PCI_MAX_LANES :: nat where "PCI_MAX_LANES = 32"
definition PCI_MAX_DEVICES :: u8 where "PCI_MAX_DEVICES = 32"
definition PCI_MAX_FUNCTIONS :: u8 where "PCI_MAX_FUNCTIONS = 8"

record PCIDeviceConfigurationDescriptor =
  dc_base :: u64
  pci_segment_group :: u16
  bus_start :: u8
  bus_end :: u8
  dc_reserved :: "u8 list"

definition get_PCIDeviceConfigurationDescriptor :: "memory \<Rightarrow> addr \<Rightarrow> PCIDeviceConfigurationDescriptor" where
  "get_PCIDeviceConfigurationDescriptor m a = \<lparr>dc_base = load64 m a, pci_segment_group = load16 m (a + 8),
     bus_start = m (a + 10), bus_end = m (a + 11), dc_reserved = load_array 4 m (a + 12)\<rparr>"

definition sizeof_PCIDeviceConfigurationDescriptor :: u64 where
  "sizeof_PCIDeviceConfigurationDescriptor = 16"

text \<open>
  The state: the array of devices, with its number of elements as the length of the list, beside
  the memory management.  A device past the end of the array is written out of bounds: \<open>None\<close>.
\<close>

type_synonym 'a pci = "addr list \<times> 'a pg"

section \<open>Search\<close>

definition pci_map :: "addr \<Rightarrow> 'a pci \<Rightarrow> 'a pci option" where
  "pci_map a = (\<lambda>(devices, s). do {
     s \<leftarrow> pageframe_reserve a 1 s;
     s \<leftarrow> paging_identity_map a 1 s;
     Some (devices, s) })"

definition invalid_device :: "addr \<Rightarrow> 'a pci \<Rightarrow> bool" where
  "invalid_device a x =
     (let h = get_PCIDeviceHeader (mem (snd x)) a in device_id h = 0 \<or> device_id h = 0xffff)"

definition pci_function :: "addr \<Rightarrow> u8 \<Rightarrow> 'a pci \<Rightarrow> 'a pci option" where
  "pci_function device function_i x = do {
     let a = device + push_bit 12 (ucast function_i);
     (devices, s) \<leftarrow> pci_map a x;
     if invalid_device a (devices, s) then Some (devices, s)
     else if length devices < PCI_MAX_LANES then Some (devices @ [a], s)
     else None }"

partial_function (option) function_loop :: "addr \<Rightarrow> u8 \<Rightarrow> 'a pci \<Rightarrow> 'a pci option" where
  "function_loop device function_i x =
     (if function_i < PCI_MAX_FUNCTIONS then do {
        x \<leftarrow> pci_function device function_i x;
        function_loop device (function_i + 1) x }
      else Some x)"

definition pci_device :: "addr \<Rightarrow> u8 \<Rightarrow> 'a pci \<Rightarrow> 'a pci option" where
  "pci_device bus device_i x = do {
     let a = bus + push_bit 15 (ucast device_i);
     x \<leftarrow> pci_map a x;
     if invalid_device a x then Some x else function_loop a 0 x }"

partial_function (option) device_loop :: "addr \<Rightarrow> u8 \<Rightarrow> 'a pci \<Rightarrow> 'a pci option" where
  "device_loop bus device_i x =
     (if device_i < PCI_MAX_DEVICES then do {
        x \<leftarrow> pci_device bus device_i x;
        device_loop bus (device_i + 1) x }
      else Some x)"

definition pci_bus :: "addr \<Rightarrow> u8 \<Rightarrow> 'a pci \<Rightarrow> 'a pci option" where
  "pci_bus descriptor bus_i x = do {
     let a = dc_base (get_PCIDeviceConfigurationDescriptor (mem (snd x)) descriptor) + push_bit 20 (ucast bus_i);
     x \<leftarrow> pci_map a x;
     if invalid_device a x then Some x else device_loop a 0 x }"

partial_function (option) bus_loop :: "addr \<Rightarrow> u8 \<Rightarrow> 'a pci \<Rightarrow> 'a pci option" where
  "bus_loop descriptor bus_i x =
     (if bus_i < bus_end (get_PCIDeviceConfigurationDescriptor (mem (snd x)) descriptor) then do {
        x \<leftarrow> pci_bus descriptor bus_i x;
        bus_loop descriptor (bus_i + 1) x }
      else Some x)"

partial_function (option) descriptor_loop :: "addr \<Rightarrow> u64 \<Rightarrow> 'a pci \<Rightarrow> 'a pci option" where
  "descriptor_loop mcfg t x =
     (if t < ucast (sdt_length (mcfg_header (get_MCFGHeader (mem (snd x)) mcfg))) - sizeof_MCFGHeader then do {
        let descriptor = mcfg + sizeof_MCFGHeader + t;
        x \<leftarrow> bus_loop descriptor (bus_start (get_PCIDeviceConfigurationDescriptor (mem (snd x)) descriptor)) x;
        descriptor_loop mcfg (t + sizeof_PCIDeviceConfigurationDescriptor) x }
      else Some x)"

declare function_loop.simps [code] device_loop.simps [code] bus_loop.simps [code] descriptor_loop.simps [code]

definition pci_init :: "addr \<Rightarrow> 'a pci \<Rightarrow> 'a pci option" where
  "pci_init mcfg x = descriptor_loop mcfg 0 x"

text \<open>The text \<open>pci_print\<close> writes, as the arguments of its two calls of \<open>printf\<close> for each device.\<close>

definition pci_print :: "'a pci \<Rightarrow> (u16 \<times> string \<times> string \<times> string \<times> string) list" where
  "pci_print = (\<lambda>(devices, s). map (\<lambda>a. let h = get_PCIDeviceHeader (mem s) a
     in (device_id h, pci_get_vendor_str h, pci_get_class_str h, pci_get_subclass_str h, pci_get_progif_str h)) devices)"

end
