(* ===== verification/Local_Apic.thy ===== *)
theory Local_Apic
  imports Madt Io Descriptors
begin

text \<open>
  \<^verbatim>\<open>x86_64/apic/local_apic.c\<close> and \<^verbatim>\<open>scheduler/timer.c\<close>: the interrupt controller of a processor.  Its
  registers lie in memory and hold what was last written to them.
\<close>

section \<open>Registers\<close>

definition LOCAL_APIC_TRAMPOLINE_TARGET :: addr where "LOCAL_APIC_TRAMPOLINE_TARGET = 0x8000"
definition LOCAL_APIC_TRAMPOLINE_TARGET_SIZE :: u64 where "LOCAL_APIC_TRAMPOLINE_TARGET_SIZE = 4096"
definition LOCAL_APIC_AP_CPU_CONTEXT_ALIGNMENT :: u64 where "LOCAL_APIC_AP_CPU_CONTEXT_ALIGNMENT = 16"
definition LOCAL_APIC_AP_STACK_PAGES :: u64 where "LOCAL_APIC_AP_STACK_PAGES = 2"

datatype LocalAPICInterruptRegisterMessageType =
  LOCAL_APIC_INTERRUPT_REGISTER_MESSAGE_TYPE_FIXED | LOCAL_APIC_INTERRUPT_REGISTER_MESSAGE_TYPE_SMI
| LOCAL_APIC_INTERRUPT_REGISTER_MESSAGE_TYPE_NMI | LOCAL_APIC_INTERRUPT_REGISTER_MESSAGE_TYPE_EXTINT

primrec message_type_value :: "LocalAPICInterruptRegisterMessageType \<Rightarrow> u32" where
  "message_type_value LOCAL_APIC_INTERRUPT_REGISTER_MESSAGE_TYPE_FIXED = 0b000"
| "message_type_value LOCAL_APIC_INTERRUPT_REGISTER_MESSAGE_TYPE_SMI = 0b010"
| "message_type_value LOCAL_APIC_INTERRUPT_REGISTER_MESSAGE_TYPE_NMI = 0b100"
| "message_type_value LOCAL_APIC_INTERRUPT_REGISTER_MESSAGE_TYPE_EXTINT = 0b111"

datatype LocalAPICInterruptRegisterDeliveryStatus =
  LOCAL_APIC_INTERRUPT_REGISTER_DELIVERY_STATUS_IDLE | LOCAL_APIC_INTERRUPT_REGISTER_DELIVERY_STATUS_PENDING

primrec delivery_status_value :: "LocalAPICInterruptRegisterDeliveryStatus \<Rightarrow> u32" where
  "delivery_status_value LOCAL_APIC_INTERRUPT_REGISTER_DELIVERY_STATUS_IDLE = 0"
| "delivery_status_value LOCAL_APIC_INTERRUPT_REGISTER_DELIVERY_STATUS_PENDING = 1"

datatype LocalAPICInterruptRegisterRemoteIRR =
  LOCAL_APIC_INTERRUPT_REGISTER_REMOTE_COMPLETED | LOCAL_APIC_INTERRUPT_REGISTER_REMOTE_ACCEPTED

datatype LocalAPICInterruptRegisterTriggerMode =
  LOCAL_APIC_INTERRUPT_REGISTER_TRIGGER_MODE_EDGE | LOCAL_APIC_INTERRUPT_REGISTER_TRIGGER_MODE_LEVEL

primrec trigger_mode_value :: "LocalAPICInterruptRegisterTriggerMode \<Rightarrow> u32" where
  "trigger_mode_value LOCAL_APIC_INTERRUPT_REGISTER_TRIGGER_MODE_EDGE = 0"
| "trigger_mode_value LOCAL_APIC_INTERRUPT_REGISTER_TRIGGER_MODE_LEVEL = 1"

datatype LocalAPICInterruptRegisterMask =
  LOCAL_APIC_INTERRUPT_REGISTER_MASK_ENABLE | LOCAL_APIC_INTERRUPT_REGISTER_MASK_DISABLE

primrec mask_value :: "LocalAPICInterruptRegisterMask \<Rightarrow> u32" where
  "mask_value LOCAL_APIC_INTERRUPT_REGISTER_MASK_ENABLE = 0"
| "mask_value LOCAL_APIC_INTERRUPT_REGISTER_MASK_DISABLE = 1"

datatype LocalAPICInterruptTimerMode =
  LOCAL_APIC_INTERRUPT_REGISTER_TIMER_MODE_ONESHOT | LOCAL_APIC_INTERRUPT_REGISTER_TIMER_MODE_PERIODIC

primrec timer_mode_value :: "LocalAPICInterruptTimerMode \<Rightarrow> u32" where
  "timer_mode_value LOCAL_APIC_INTERRUPT_REGISTER_TIMER_MODE_ONESHOT = 0"
| "timer_mode_value LOCAL_APIC_INTERRUPT_REGISTER_TIMER_MODE_PERIODIC = 1"

datatype LocalAPICInterruptBits =
  LOCAL_APIC_INTERRUPT_REGISTER_VECTOR | LOCAL_APIC_INTERRUPT_REGISTER_MESSAGE_TYPE
| LOCAL_APIC_INTERRUPT_REGISTER_DELIVERY_STATUS | LOCAL_APIC_INTERRUPT_REGISTER_TRIGGER_MODE
| LOCAL_APIC_INTERRUPT_REGISTER_MASK | LOCAL_APIC_INTERRUPT_REGISTER_TIMER_MODE

primrec interrupt_bit :: "LocalAPICInterruptBits \<Rightarrow> nat" where
  "interrupt_bit LOCAL_APIC_INTERRUPT_REGISTER_VECTOR = 0"
| "interrupt_bit LOCAL_APIC_INTERRUPT_REGISTER_MESSAGE_TYPE = 8"
| "interrupt_bit LOCAL_APIC_INTERRUPT_REGISTER_DELIVERY_STATUS = 12"
| "interrupt_bit LOCAL_APIC_INTERRUPT_REGISTER_TRIGGER_MODE = 15"
| "interrupt_bit LOCAL_APIC_INTERRUPT_REGISTER_MASK = 16"
| "interrupt_bit LOCAL_APIC_INTERRUPT_REGISTER_TIMER_MODE = 17"

record LocalAPICInterruptRegister =
  lir_vector :: u8
  lir_message_type :: LocalAPICInterruptRegisterMessageType
  lir_delivery_status :: LocalAPICInterruptRegisterDeliveryStatus
  lir_remote_irr :: LocalAPICInterruptRegisterRemoteIRR
  lir_trigger_mode :: LocalAPICInterruptRegisterTriggerMode
  lir_mask :: LocalAPICInterruptRegisterMask
  lir_timer_mode :: LocalAPICInterruptTimerMode

datatype LocalAPICInterruptVectors =
  LOCAL_APIC_INTERRUPT_VECTOR_SPURIOUS | LOCAL_APIC_INTERRUPT_VECTOR_LINT | LOCAL_APIC_INTERRUPT_VECTOR_TIMER

primrec interrupt_vector :: "LocalAPICInterruptVectors \<Rightarrow> u8" where
  "interrupt_vector LOCAL_APIC_INTERRUPT_VECTOR_SPURIOUS = 39"
| "interrupt_vector LOCAL_APIC_INTERRUPT_VECTOR_LINT = 255"
| "interrupt_vector LOCAL_APIC_INTERRUPT_VECTOR_TIMER = 48"

datatype LocalAPICRegisterOffset =
  LOCAL_APIC_REG_OFFSET_ID | LOCAL_APIC_REG_OFFSET_VERSION | LOCAL_APIC_REG_OFFSET_TASK_PRIORITY
| LOCAL_APIC_REG_OFFSET_ARBITRATION_PRIORITY | LOCAL_APIC_REG_OFFSET_PROCESSOR_PRIORITY
| LOCAL_APIC_REG_OFFSET_EOI | LOCAL_APIC_REG_OFFSET_REMOTE_READ | LOCAL_APIC_REG_OFFSET_LOGICAL_DESTINATION
| LOCAL_APIC_REG_OFFSET_DESTINATION_FORMAT | LOCAL_APIC_REG_OFFSET_SPURIOUS_INT_VECTOR
| LOCAL_APIC_REG_OFFSET_IN_SERVICE | LOCAL_APIC_REG_OFFSET_TRIGGER_MODE | LOCAL_APIC_REG_OFFSET_INTERRUPT_REQUEST
| LOCAL_APIC_REG_OFFSET_ERROR_STATUS | LOCAL_APIC_REG_OFFSET_CMCI | LOCAL_APIC_REG_OFFSET_INTERRUPT_COMMAND
| LOCAL_APIC_REG_OFFSET_LVT_TIMER | LOCAL_APIC_REG_OFFSET_LVT_THERMAL_SENSOR | LOCAL_APIC_REG_OFFSET_LVT_PERF_MONITOR
| LOCAL_APIC_REG_OFFSET_LVT_LINT0 | LOCAL_APIC_REG_OFFSET_LVT_LINT1 | LOCAL_APIC_REG_OFFSET_LVT_ERROR
| LOCAL_APIC_REG_OFFSET_INITIAL_COUNT | LOCAL_APIC_REG_OFFSET_CURRENT_COUNT | LOCAL_APIC_REG_OFFSET_DIVIDE_CONFIG

primrec reg_offset :: "LocalAPICRegisterOffset \<Rightarrow> u64" where
  "reg_offset LOCAL_APIC_REG_OFFSET_ID = 0x0020"
| "reg_offset LOCAL_APIC_REG_OFFSET_VERSION = 0x0030"
| "reg_offset LOCAL_APIC_REG_OFFSET_TASK_PRIORITY = 0x0080"
| "reg_offset LOCAL_APIC_REG_OFFSET_ARBITRATION_PRIORITY = 0x0090"
| "reg_offset LOCAL_APIC_REG_OFFSET_PROCESSOR_PRIORITY = 0x00a0"
| "reg_offset LOCAL_APIC_REG_OFFSET_EOI = 0x00b0"
| "reg_offset LOCAL_APIC_REG_OFFSET_REMOTE_READ = 0x00c0"
| "reg_offset LOCAL_APIC_REG_OFFSET_LOGICAL_DESTINATION = 0x00d0"
| "reg_offset LOCAL_APIC_REG_OFFSET_DESTINATION_FORMAT = 0x00e0"
| "reg_offset LOCAL_APIC_REG_OFFSET_SPURIOUS_INT_VECTOR = 0x00f0"
| "reg_offset LOCAL_APIC_REG_OFFSET_IN_SERVICE = 0x0100"
| "reg_offset LOCAL_APIC_REG_OFFSET_TRIGGER_MODE = 0x0180"
| "reg_offset LOCAL_APIC_REG_OFFSET_INTERRUPT_REQUEST = 0x0200"
| "reg_offset LOCAL_APIC_REG_OFFSET_ERROR_STATUS = 0x0280"
| "reg_offset LOCAL_APIC_REG_OFFSET_CMCI = 0x02f0"
| "reg_offset LOCAL_APIC_REG_OFFSET_INTERRUPT_COMMAND = 0x0300"
| "reg_offset LOCAL_APIC_REG_OFFSET_LVT_TIMER = 0x0320"
| "reg_offset LOCAL_APIC_REG_OFFSET_LVT_THERMAL_SENSOR = 0x0330"
| "reg_offset LOCAL_APIC_REG_OFFSET_LVT_PERF_MONITOR = 0x0340"
| "reg_offset LOCAL_APIC_REG_OFFSET_LVT_LINT0 = 0x0350"
| "reg_offset LOCAL_APIC_REG_OFFSET_LVT_LINT1 = 0x0360"
| "reg_offset LOCAL_APIC_REG_OFFSET_LVT_ERROR = 0x0370"
| "reg_offset LOCAL_APIC_REG_OFFSET_INITIAL_COUNT = 0x0380"
| "reg_offset LOCAL_APIC_REG_OFFSET_CURRENT_COUNT = 0x0390"
| "reg_offset LOCAL_APIC_REG_OFFSET_DIVIDE_CONFIG = 0x03e0"

definition local_apic_get_register :: "addr \<Rightarrow> u64 \<Rightarrow> 'a machine_scheme \<Rightarrow> u32" where
  "local_apic_get_register lap off s = load32 (mem s) (lap + off)"

definition local_apic_set_register :: "addr \<Rightarrow> u64 \<Rightarrow> u32 \<Rightarrow> 'a machine_scheme \<Rightarrow> 'a machine_scheme" where
  "local_apic_set_register lap off v s = s\<lparr>mem := store32 (mem s) (lap + off) v\<rparr>"

definition local_apic_create_register_value :: "LocalAPICInterruptRegister \<Rightarrow> u32" where
  "local_apic_create_register_value reg =
     push_bit (interrupt_bit LOCAL_APIC_INTERRUPT_REGISTER_VECTOR) (ucast (lir_vector reg))
     OR push_bit (interrupt_bit LOCAL_APIC_INTERRUPT_REGISTER_MESSAGE_TYPE) (message_type_value (lir_message_type reg))
     OR push_bit (interrupt_bit LOCAL_APIC_INTERRUPT_REGISTER_DELIVERY_STATUS) (delivery_status_value (lir_delivery_status reg))
     OR push_bit (interrupt_bit LOCAL_APIC_INTERRUPT_REGISTER_TRIGGER_MODE) (trigger_mode_value (lir_trigger_mode reg))
     OR push_bit (interrupt_bit LOCAL_APIC_INTERRUPT_REGISTER_MASK) (mask_value (lir_mask reg))
     OR push_bit (interrupt_bit LOCAL_APIC_INTERRUPT_REGISTER_TIMER_MODE) (timer_mode_value (lir_timer_mode reg))"

section \<open>Operations\<close>

definition local_apic_init :: "'a md \<Rightarrow> 'a md option" where
  "local_apic_init s = do {
     let trampoline_target = LOCAL_APIC_TRAMPOLINE_TARGET;
     s \<leftarrow> pageframe_lock trampoline_target (NEAREST_PAGE LOCAL_APIC_TRAMPOLINE_TARGET_SIZE) s;
     let s = paging_set_writable_size trampoline_target LOCAL_APIC_TRAMPOLINE_TARGET_SIZE s;
     let p = local_apic_ptr (madt_get_info s);
     let spurious_reg = local_apic_get_register p (reg_offset LOCAL_APIC_REG_OFFSET_SPURIOUS_INT_VECTOR) s;
     Some (local_apic_set_register p (reg_offset LOCAL_APIC_REG_OFFSET_SPURIOUS_INT_VECTOR) (spurious_reg OR 0x100) s) }"

definition local_apic_set_timer_count :: "u32 \<Rightarrow> 'a md \<Rightarrow> 'a md" where
  "local_apic_set_timer_count v s =
     local_apic_set_register (local_apic_ptr (madt_get_info s)) (reg_offset LOCAL_APIC_REG_OFFSET_INITIAL_COUNT) v s"

definition local_apic_eoi :: "'a md \<Rightarrow> 'a md" where
  "local_apic_eoi s =
     local_apic_set_register (local_apic_ptr (madt_get_info s)) (reg_offset LOCAL_APIC_REG_OFFSET_EOI) 0 s"

text \<open>The two halves of the interrupt command register.  A caller of the source that passes a null
  pointer for one of them ignores that half.\<close>

definition local_apic_ipi_get_command :: "addr \<Rightarrow> 'a machine_scheme \<Rightarrow> u32 \<times> u32" where
  "local_apic_ipi_get_command lap s =
     (local_apic_get_register lap (reg_offset LOCAL_APIC_REG_OFFSET_INTERRUPT_COMMAND + 0x00) s,
      local_apic_get_register lap (reg_offset LOCAL_APIC_REG_OFFSET_INTERRUPT_COMMAND + 0x10) s)"

definition local_apic_ipi_set_command :: "addr \<Rightarrow> u32 \<Rightarrow> u32 \<Rightarrow> 'a machine_scheme \<Rightarrow> 'a machine_scheme" where
  "local_apic_ipi_set_command lap command_low command_high s =
     (let s = local_apic_set_register lap (reg_offset LOCAL_APIC_REG_OFFSET_INTERRUPT_COMMAND + 0x10) command_high s
      in local_apic_set_register lap (reg_offset LOCAL_APIC_REG_OFFSET_INTERRUPT_COMMAND + 0x00) command_low s)"

definition local_apic_get_id :: "addr \<Rightarrow> 'a machine_scheme \<Rightarrow> u8" where
  "local_apic_get_id lap s =
     ucast (drop_bit 24 (local_apic_get_register lap (reg_offset LOCAL_APIC_REG_OFFSET_ID) s))"

definition TIMER_TICKS_DEFAULT :: u32 where "TIMER_TICKS_DEFAULT = 0x100000"

definition lint_register :: LocalAPICInterruptRegister where
  "lint_register = \<lparr>lir_vector = 0, lir_message_type = LOCAL_APIC_INTERRUPT_REGISTER_MESSAGE_TYPE_FIXED,
     lir_delivery_status = LOCAL_APIC_INTERRUPT_REGISTER_DELIVERY_STATUS_IDLE,
     lir_remote_irr = LOCAL_APIC_INTERRUPT_REGISTER_REMOTE_COMPLETED,
     lir_trigger_mode = LOCAL_APIC_INTERRUPT_REGISTER_TRIGGER_MODE_EDGE,
     lir_mask = LOCAL_APIC_INTERRUPT_REGISTER_MASK_ENABLE,
     lir_timer_mode = LOCAL_APIC_INTERRUPT_REGISTER_TIMER_MODE_ONESHOT\<rparr>"

text \<open>The body of the loop over the non-maskable interrupts.\<close>

definition set_nmi :: "addr \<Rightarrow> u8 \<Rightarrow> addr \<Rightarrow> 'a machine_scheme \<Rightarrow> 'a machine_scheme" where
  "set_nmi lap lapic_id a s =
     (let nmi = get_MADTNonMaskableInterrupt (mem s) a
      in if nmi_local_apic_id nmi \<noteq> 0xff \<and> nmi_local_apic_id nmi \<noteq> lapic_id then s
         else let entry = local_apic_create_register_value (lint_register
                \<lparr>lir_vector := interrupt_vector LOCAL_APIC_INTERRUPT_VECTOR_LINT,
                 lir_message_type := LOCAL_APIC_INTERRUPT_REGISTER_MESSAGE_TYPE_NMI,
                 lir_trigger_mode := (if nmi_flags nmi AND 8 \<noteq> 0 then LOCAL_APIC_INTERRUPT_REGISTER_TRIGGER_MODE_LEVEL
                    else LOCAL_APIC_INTERRUPT_REGISTER_TRIGGER_MODE_EDGE),
                 lir_mask := LOCAL_APIC_INTERRUPT_REGISTER_MASK_DISABLE\<rparr>)
              in if lint nmi = 0 then local_apic_set_register lap (reg_offset LOCAL_APIC_REG_OFFSET_LVT_LINT0) entry s
                 else if lint nmi = 1 then local_apic_set_register lap (reg_offset LOCAL_APIC_REG_OFFSET_LVT_LINT1) entry s
                 else s)"

definition local_apic_start_lints :: "'a md \<Rightarrow> 'a md" where
  "local_apic_start_lints s =
     (let p = local_apic_ptr (madt_get_info s);
          lapic_id = local_apic_get_id p s;
          spurious_reg = local_apic_get_register p (reg_offset LOCAL_APIC_REG_OFFSET_SPURIOUS_INT_VECTOR) s;
          s = local_apic_set_register p (reg_offset LOCAL_APIC_REG_OFFSET_SPURIOUS_INT_VECTOR)
            (spurious_reg OR ucast (interrupt_vector LOCAL_APIC_INTERRUPT_VECTOR_SPURIOUS) OR 0x100) s;
          s = fold (set_nmi p lapic_id) (nmis (madt_get_info s)) s;
          s = local_apic_set_register p (reg_offset LOCAL_APIC_REG_OFFSET_INITIAL_COUNT) TIMER_TICKS_DEFAULT s;
          divide_reg = local_apic_get_register p (reg_offset LOCAL_APIC_REG_OFFSET_DIVIDE_CONFIG) s;
          s = local_apic_set_register p (reg_offset LOCAL_APIC_REG_OFFSET_DIVIDE_CONFIG) ((divide_reg AND 0xfffffff4) OR 0b1010) s;
          timer_reg = local_apic_get_register p (reg_offset LOCAL_APIC_REG_OFFSET_LVT_TIMER) s
      in local_apic_set_register p (reg_offset LOCAL_APIC_REG_OFFSET_LVT_TIMER)
           (local_apic_create_register_value (lint_register
              \<lparr>lir_vector := interrupt_vector LOCAL_APIC_INTERRUPT_VECTOR_TIMER,
               lir_mask := LOCAL_APIC_INTERRUPT_REGISTER_MASK_ENABLE,
               lir_timer_mode := LOCAL_APIC_INTERRUPT_REGISTER_TIMER_MODE_PERIODIC\<rparr>)
            OR (timer_reg AND 0xfffcef00)) s)"

text \<open>
  Waiting for the delivery of a command.  The status bit is set and cleared by the controller, so
  the loop runs over what the controller answers to successive reads.
\<close>

partial_function (option) local_apic_wait :: "(nat \<Rightarrow> u32) \<Rightarrow> nat \<Rightarrow> u32 option" where
  "local_apic_wait reads n =
     (let command_low = reads n
      in if command_low AND push_bit 12 1 \<noteq> 0 then local_apic_wait reads (n + 1) else Some command_low)"

text \<open>The interrupt commands that start another processor, from the command read before.\<close>

definition init_command :: "u8 \<Rightarrow> u32 \<times> u32 \<Rightarrow> u32 \<times> u32" where
  "init_command lapic_id = (\<lambda>(low, high). ((low AND 0xfff32000) OR 0xc500, (high AND 0x00ffffff) OR push_bit 24 (ucast lapic_id)))"

definition deassert_command :: "u8 \<Rightarrow> u32 \<times> u32 \<Rightarrow> u32 \<times> u32" where
  "deassert_command lapic_id = (\<lambda>(low, high). ((low AND 0xfff00000) OR 0x8500, (high AND 0x00ffffff) OR push_bit 24 (ucast lapic_id)))"

definition startup_command :: "u8 \<Rightarrow> u32 \<times> u32 \<Rightarrow> u32 \<times> u32" where
  "startup_command lapic_id = (\<lambda>(low, high).
     ((low AND 0xfff0f800) OR 0x600 OR ucast (ucast (drop_bit 12 LOCAL_APIC_TRAMPOLINE_TARGET AND 0xff) :: u8),
      (high AND 0x00ffffff) OR push_bit 24 (ucast lapic_id)))"

text \<open>\<^verbatim>\<open>scheduler/timer.c\<close>: the argument is a 64 bit count, the register has 32 bits.\<close>

definition timer_set_ticks :: "u64 \<Rightarrow> 'a md \<Rightarrow> 'a md" where
  "timer_set_ticks ticks s = local_apic_set_timer_count (ucast ticks) s"

section \<open>Different registers\<close>

lemma load32_store32_other:
  assumes "4 \<le> b - a" "4 \<le> a - b"
  shows "load32 (store32 m a v) b = load32 m b"
proof -
  have ne: "b + of_nat k \<noteq> a + of_nat l" if "k < 4" "l < 4" for k l :: nat
  proof
    assume eq: "b + of_nat k = a + of_nat l"
    have small: "unat (of_nat n :: u64) = n" if "n < 4" for n using that by (simp add: unat_of_nat)
    show False
    proof (cases "k \<le> l")
      case True
      have "b - a = of_nat l - of_nat k" using eq by (simp add: algebra_simps)
      also have "\<dots> = of_nat (l - k)" using True by (simp add: of_nat_diff)
      finally have "unat (b - a) = l - k" using that by (simp add: small)
      then show False using assms(1) that by (simp add: word_le_nat_alt)
    next
      case False
      have "a - b = of_nat k - of_nat l" using eq by (simp add: algebra_simps)
      also have "\<dots> = of_nat (k - l)" using False by (simp add: of_nat_diff)
      finally have "unat (a - b) = k - l" using that by (simp add: small)
      then show False using assms(2) that by (simp add: word_le_nat_alt)
    qed
  qed
  show ?thesis unfolding load32_def store32_def
    by (rule load_bytes_cong, rule store_bytes_other) (use ne in blast)
qed

definition registers :: "LocalAPICRegisterOffset list" where
  "registers = [LOCAL_APIC_REG_OFFSET_ID, LOCAL_APIC_REG_OFFSET_VERSION, LOCAL_APIC_REG_OFFSET_TASK_PRIORITY,
     LOCAL_APIC_REG_OFFSET_ARBITRATION_PRIORITY, LOCAL_APIC_REG_OFFSET_PROCESSOR_PRIORITY,
     LOCAL_APIC_REG_OFFSET_EOI, LOCAL_APIC_REG_OFFSET_REMOTE_READ, LOCAL_APIC_REG_OFFSET_LOGICAL_DESTINATION,
     LOCAL_APIC_REG_OFFSET_DESTINATION_FORMAT, LOCAL_APIC_REG_OFFSET_SPURIOUS_INT_VECTOR,
     LOCAL_APIC_REG_OFFSET_IN_SERVICE, LOCAL_APIC_REG_OFFSET_TRIGGER_MODE, LOCAL_APIC_REG_OFFSET_INTERRUPT_REQUEST,
     LOCAL_APIC_REG_OFFSET_ERROR_STATUS, LOCAL_APIC_REG_OFFSET_CMCI, LOCAL_APIC_REG_OFFSET_INTERRUPT_COMMAND,
     LOCAL_APIC_REG_OFFSET_LVT_TIMER, LOCAL_APIC_REG_OFFSET_LVT_THERMAL_SENSOR, LOCAL_APIC_REG_OFFSET_LVT_PERF_MONITOR,
     LOCAL_APIC_REG_OFFSET_LVT_LINT0, LOCAL_APIC_REG_OFFSET_LVT_LINT1, LOCAL_APIC_REG_OFFSET_LVT_ERROR,
     LOCAL_APIC_REG_OFFSET_INITIAL_COUNT, LOCAL_APIC_REG_OFFSET_CURRENT_COUNT, LOCAL_APIC_REG_OFFSET_DIVIDE_CONFIG]"

lemma reg_offset_inj: "reg_offset r = reg_offset q \<longleftrightarrow> r = q"
proof -
  have "find (\<lambda>q. reg_offset q = reg_offset r) registers = Some r" for r
    by (cases r) (simp_all add: registers_def)
  then show ?thesis by (metis option.inject)
qed

lemma reg_offset_multiple: "16 dvd unat (reg_offset r)" "unat (reg_offset r) < 1024"
  by (cases r; simp)+

lemma reg_offset_apart:
  assumes "r \<noteq> q"
  shows "4 \<le> reg_offset r - reg_offset q"
proof -
  obtain i j where ij: "unat (reg_offset r) = 16 * i" "unat (reg_offset q) = 16 * j"
    using reg_offset_multiple(1) by (meson dvdE)
  have "i \<noteq> j" using assms ij by (metis reg_offset_inj word_unat_eq_iff)
  moreover have "16 * i < 1024" "16 * j < 1024" using ij reg_offset_multiple(2) by metis+
  ultimately have "4 \<le> unat (reg_offset r - reg_offset q)"
    by (simp add: unat_sub_if' ij) arith
  then show ?thesis by (simp add: word_le_nat_alt)
qed

lemma get_set_register:
  "local_apic_get_register p (reg_offset r) (local_apic_set_register p (reg_offset q) v s) =
     (if r = q then v else local_apic_get_register p (reg_offset r) s)"
  using reg_offset_apart [of r q] reg_offset_apart [of q r]
  by (auto simp: local_apic_get_register_def local_apic_set_register_def load32_store32_other)

lemma set_nmi_register:
  assumes "r \<noteq> LOCAL_APIC_REG_OFFSET_LVT_LINT0" "r \<noteq> LOCAL_APIC_REG_OFFSET_LVT_LINT1"
  shows "local_apic_get_register p (reg_offset r) (fold (set_nmi p i) as s) = local_apic_get_register p (reg_offset r) s"
proof (induction as arbitrary: s)
  case (Cons a as)
  have "local_apic_get_register p (reg_offset r) (set_nmi p i a s) = local_apic_get_register p (reg_offset r) s"
    using assms by (simp only: set_nmi_def Let_def get_set_register if_distrib [of "local_apic_get_register p _"] if_False if_cancel)
  then show ?case using Cons.IH by simp
qed simp

text \<open>
  C31.  After \<open>local_apic_start_lints\<close>, whatever the non-maskable interrupts of the table are, the
  controller is enabled, its timer counts down periodically from the default number of ticks,
  unmasked and on vector 48, the vector \<open>isr_init\<close> registers the scheduler's handler for, and the divider's
  low bits that are not reserved are 1010 (divide by 128).
\<close>

theorem local_apic_timer_started:
  "let t = local_apic_start_lints s; p = local_apic_ptr (madt_get_info s);
       timer = local_apic_get_register p (reg_offset LOCAL_APIC_REG_OFFSET_LVT_TIMER) t
   in bit (local_apic_get_register p (reg_offset LOCAL_APIC_REG_OFFSET_SPURIOUS_INT_VECTOR) t) 8
    \<and> local_apic_get_register p (reg_offset LOCAL_APIC_REG_OFFSET_INITIAL_COUNT) t = TIMER_TICKS_DEFAULT
    \<and> local_apic_get_register p (reg_offset LOCAL_APIC_REG_OFFSET_DIVIDE_CONFIG) t AND 0b1011 = 0b1010
    \<and> ucast timer = interrupt_vector LOCAL_APIC_INTERRUPT_VECTOR_TIMER \<and> \<not> bit timer 16 \<and> bit timer 17"
proof -
  let ?p = "local_apic_ptr (madt_get_info s)"
  let ?timer = "local_apic_create_register_value (lint_register
              \<lparr>lir_vector := interrupt_vector LOCAL_APIC_INTERRUPT_VECTOR_TIMER,
               lir_mask := LOCAL_APIC_INTERRUPT_REGISTER_MASK_ENABLE,
               lir_timer_mode := LOCAL_APIC_INTERRUPT_REGISTER_TIMER_MODE_PERIODIC\<rparr>)"
  have tv: "?timer = 0x20030"
    by (simp add: local_apic_create_register_value_def lint_register_def)
  have timer: "ucast (0x20030 OR (v AND 0xfffcef00) :: u32) = (48 :: u8)" "\<not> bit (0x20030 OR (v AND 0xfffcef00) :: u32) 16"
    "bit (0x20030 OR (v AND 0xfffcef00) :: u32) 17" for v :: u32
  proof -
    let ?w = "0x20030 OR (v AND 0xfffcef00) :: u32"
    have "?w AND mask 8 = 0x30"
      by (simp add: mask_eq_exp_minus_1 bit.conj_disj_distrib2 and.assoc)
    then have "ucast (0x30 :: u32) = (ucast ?w :: u8)" using ucast_and_mask [of 8 ?w, where ?'b = 8] by simp
    then show "ucast ?w = (48 :: u8)" by simp
  qed (simp_all add: bit_simps)
  have divide: "((v AND 0xfffffff4) OR 0b1010) AND 0b1011 = (0b1010 :: u32)" for v :: u32
    by (simp add: bit.conj_disj_distrib2 and.assoc)
  have spur: "bit (v OR 295 :: u32) 8" for v :: u32
    by (simp add: bit_simps)
  show ?thesis
    unfolding local_apic_start_lints_def Let_def tv
    using timer divide spur by (simp add: get_set_register set_nmi_register del: reg_offset.simps)
qed

end
