(* ===== verification/Scheduler.thy ===== *)
theory Scheduler
  imports Local_Apic Atomic
begin

text \<open>
  \<^verbatim>\<open>scheduler/scheduler.c\<close>: tasks in three circular doubly linked queues.  The nodes are objects of the
  heap, a map from addresses to nodes; an access to an address without a node faults (\<open>None\<close>).
  The definitions are what one processor does while no other one interferes: a spin on a lock
  that is held does not return.  \<open>malloc\<close> is not part of the kernel's code; its result is an
  argument of the operation that calls it.
\<close>

section \<open>Data\<close>

record Thread =
  tid :: u64
  t_process :: addr
  t_next :: addr

record SchedulerContextFrameRegisters =
  rax :: u64  rbx :: u64  rcx :: u64  rdx :: u64  rsi :: u64  rdi :: u64  rbp :: u64
  r8 :: u64  r9 :: u64  r10 :: u64  r11 :: u64  r12 :: u64  r13 :: u64  r14 :: u64  r15 :: u64

record SchedulerContextFrame =
  cf_general :: SchedulerContextFrameRegisters
  rip :: u64
  cs :: u64
  rflags :: u64
  rsp :: u64
  ss :: u64
  cf_self :: u64

record SchedulerContext =
  context_frame :: SchedulerContextFrame
  flags :: u64
  error_code :: u64
  task :: Thread

record SchedulerNode =
  context_of :: SchedulerContext
  queue_num :: u64
  n_previous :: addr
  n_next :: addr

record SchedulerTaskInitialState =
  is_general :: SchedulerContextFrameRegisters
  is_entry :: addr
  is_stack :: addr
  is_rpl :: u8

datatype SchedulerQueueNumber = SCHEDULER_QUEUE_PRIORITY | SCHEDULER_QUEUE_REGULAR | SCHEDULER_QUEUE_BATCH

primrec queue_index :: "SchedulerQueueNumber \<Rightarrow> nat" where
  "queue_index SCHEDULER_QUEUE_PRIORITY = 0"
| "queue_index SCHEDULER_QUEUE_REGULAR = 1"
| "queue_index SCHEDULER_QUEUE_BATCH = 2"

definition SCHEDULER_QUEUES_NUM :: nat where "SCHEDULER_QUEUES_NUM = 3"
definition SCHEDULER_QUEUE_FLAG_LOCKED :: nat where "SCHEDULER_QUEUE_FLAG_LOCKED = 0"
definition SCHEDULER_CONTEXT_FLAG_LOCKED :: nat where "SCHEDULER_CONTEXT_FLAG_LOCKED = 0"
definition SCHEDULER_CONTEXT_FLAG_FINISHED :: nat where "SCHEDULER_CONTEXT_FLAG_FINISHED = 1"

record SchedulerQueue =
  q_first :: addr
  q_num :: u64
  q_flags :: u64

definition pass_flags :: u64 where
  "pass_flags = push_bit SCHEDULER_CONTEXT_FLAG_LOCKED 1 OR push_bit SCHEDULER_CONTEXT_FLAG_FINISHED 1"

definition zero_registers :: SchedulerContextFrameRegisters where
  "zero_registers = \<lparr>rax = 0, rbx = 0, rcx = 0, rdx = 0, rsi = 0, rdi = 0, rbp = 0, r8 = 0, r9 = 0, r10 = 0,
     r11 = 0, r12 = 0, r13 = 0, r14 = 0, r15 = 0\<rparr>"

definition zero_node :: SchedulerNode where
  "zero_node = \<lparr>context_of = \<lparr>context_frame = \<lparr>cf_general = zero_registers, rip = 0, cs = 0, rflags = 0, rsp = 0, ss = 0,
       cf_self = 0\<rparr>, flags = 0, error_code = 0, task = \<lparr>tid = 0, t_process = 0, t_next = 0\<rparr>\<rparr>,
     queue_num = 0, n_previous = 0, n_next = 0\<rparr>"

text \<open>The idle node, given the address \<open>a\<close> of the variable and the entry of \<open>scheduler_idle\<close>.\<close>

definition s_idle_node :: "addr \<Rightarrow> addr \<Rightarrow> SchedulerNode" where
  "s_idle_node a scheduler_idle = zero_node\<lparr>
     context_of := (context_of zero_node)\<lparr>context_frame := (context_frame (context_of zero_node))\<lparr>
       rip := scheduler_idle, cs := ucast GDT_OFFSET_KERNEL_CODE, rflags := RFLAGS, ss := ucast GDT_OFFSET_KERNEL_DATA\<rparr>\<rparr>,
     n_previous := a, n_next := a\<rparr>"

definition s_ticks_table :: "u64 list" where
  "s_ticks_table = [0x100000, 0x200000, 0x400000]"

record scheduler_state = madt_state +
  s_nodes :: "addr \<rightharpoonup> SchedulerNode"
  s_queues :: "SchedulerQueue list"
  s_tid_accumulator :: u64

type_synonym 'a sc = "'a scheduler_state_scheme"

section \<open>Locks\<close>

definition scheduler_node_lock :: "SchedulerNode \<Rightarrow> SchedulerNode \<times> bool" where
  "scheduler_node_lock n =
     (let (f, ok) = atomic_lock (flags (context_of n)) SCHEDULER_CONTEXT_FLAG_LOCKED
      in (n\<lparr>context_of := (context_of n)\<lparr>flags := f\<rparr>\<rparr>, ok))"

definition scheduler_node_unlock :: "SchedulerNode \<Rightarrow> SchedulerNode \<times> bool" where
  "scheduler_node_unlock n =
     (let (f, ok) = atomic_unlock (flags (context_of n)) SCHEDULER_CONTEXT_FLAG_LOCKED
      in (n\<lparr>context_of := (context_of n)\<lparr>flags := f\<rparr>\<rparr>, ok))"

definition scheduler_queue_lock :: "SchedulerQueue \<Rightarrow> SchedulerQueue \<times> bool" where
  "scheduler_queue_lock q =
     (let (f, ok) = atomic_lock (q_flags q) SCHEDULER_QUEUE_FLAG_LOCKED in (q\<lparr>q_flags := f\<rparr>, ok))"

definition scheduler_queue_unlock :: "SchedulerQueue \<Rightarrow> SchedulerQueue \<times> bool" where
  "scheduler_queue_unlock q =
     (let (f, ok) = atomic_unlock (q_flags q) SCHEDULER_QUEUE_FLAG_LOCKED in (q\<lparr>q_flags := f\<rparr>, ok))"

definition scheduler_queue_spinlock :: "SchedulerQueue \<Rightarrow> SchedulerQueue option" where
  "scheduler_queue_spinlock q = do {
     f \<leftarrow> atomic_spinlock (q_flags q) SCHEDULER_QUEUE_FLAG_LOCKED;
     Some (q\<lparr>q_flags := f\<rparr>) }"

section \<open>Queues\<close>

definition queue_at :: "nat \<Rightarrow> 'a sc \<Rightarrow> SchedulerQueue option" where
  "queue_at i s = (if i < length (s_queues s) then Some (s_queues s ! i) else None)"

definition set_queue :: "nat \<Rightarrow> SchedulerQueue \<Rightarrow> 'a sc \<Rightarrow> 'a sc" where
  "set_queue i q s = s\<lparr>s_queues := (s_queues s)[i := q]\<rparr>"

text \<open>An assignment to a part of the node at \<open>a\<close>.\<close>

definition node_update :: "(SchedulerNode \<Rightarrow> SchedulerNode) \<Rightarrow> addr \<Rightarrow> 'a sc \<Rightarrow> 'a sc option" where
  "node_update f a s = do {
     n \<leftarrow> s_nodes s a;
     Some (s\<lparr>s_nodes := (s_nodes s)(a \<mapsto> f n)\<rparr>) }"

definition scheduler_enqueue_task :: "addr \<Rightarrow> 'a sc \<Rightarrow> 'a sc option" where
  "scheduler_enqueue_task node s = do {
     n \<leftarrow> s_nodes s node;
     let i = unat (queue_num n);
     q \<leftarrow> queue_at i s;
     s \<leftarrow> (if q_num q = 0 then do {
         s \<leftarrow> node_update (n_previous_update (\<lambda>_. node)) node s;
         s \<leftarrow> node_update (n_next_update (\<lambda>_. node)) node s;
         Some (set_queue i (q\<lparr>q_first := node\<rparr>) s) }
       else do {
         let first = q_first q;
         f \<leftarrow> s_nodes s first;
         s \<leftarrow> node_update (n_previous_update (\<lambda>_. n_previous f)) node s;
         s \<leftarrow> node_update (n_next_update (\<lambda>_. first)) node s;
         f \<leftarrow> s_nodes s first;
         s \<leftarrow> node_update (n_next_update (\<lambda>_. node)) (n_previous f) s;
         node_update (n_previous_update (\<lambda>_. node)) first s });
     q \<leftarrow> queue_at i s;
     Some (set_queue i (q\<lparr>q_num := q_num q + 1\<rparr>) s) }"

definition scheduler_dequeue_task :: "addr \<Rightarrow> 'a sc \<Rightarrow> 'a sc option" where
  "scheduler_dequeue_task node s = do {
     n \<leftarrow> s_nodes s node;
     let i = unat (queue_num n);
     q \<leftarrow> queue_at i s;
     s \<leftarrow> (if q_num q \<le> 1 then Some (set_queue i (q\<lparr>q_first := 0\<rparr>) s)
       else do {
         s \<leftarrow> node_update (n_previous_update (\<lambda>_. n_previous n)) (n_next n) s;
         n \<leftarrow> s_nodes s node;
         node_update (n_next_update (\<lambda>_. n_next n)) (n_previous n) s });
     q \<leftarrow> queue_at i s;
     Some (set_queue i (q\<lparr>q_num := q_num q - 1\<rparr>) s) }"

section \<open>Operations\<close>

definition scheduler_init :: "'a sc \<Rightarrow> 'a sc" where
  "scheduler_init s = s\<lparr>s_queues := replicate SCHEDULER_QUEUES_NUM \<lparr>q_first = 0, q_num = 0, q_flags = 0\<rparr>\<rparr>"

definition new_node :: "SchedulerTaskInitialState \<Rightarrow> nat \<Rightarrow> u64 \<Rightarrow> SchedulerNode" where
  "new_node st q t = zero_node\<lparr>queue_num := of_nat q,
     context_of := (context_of zero_node)\<lparr>
       task := \<lparr>tid = t, t_process = 0, t_next = 0\<rparr>,
       context_frame := \<lparr>cf_general = is_general st, rip = is_entry st,
         cs = ucast (if is_rpl st = 3 then GDT_OFFSET_USER_CODE else GDT_OFFSET_KERNEL_CODE) OR ucast (is_rpl st),
         rflags = RFLAGS, rsp = is_stack st,
         ss = ucast (if is_rpl st = 3 then GDT_OFFSET_USER_DATA else GDT_OFFSET_KERNEL_DATA) OR ucast (is_rpl st),
         cf_self = 0\<rparr>\<rparr>\<rparr>"

definition scheduler_add_task :: "addr \<Rightarrow> SchedulerTaskInitialState \<Rightarrow> SchedulerQueueNumber \<Rightarrow> 'a sc \<Rightarrow> (addr \<times> 'a sc) option" where
  "scheduler_add_task malloc st queue s = do {
     let node = malloc;
     let i = queue_index queue;
     let (accumulator, t) = atomic_accumulate (s_tid_accumulator s) 1;
     let s = s\<lparr>s_tid_accumulator := accumulator\<rparr>;
     s \<leftarrow> (if node = 0 then None else Some (s\<lparr>s_nodes := (s_nodes s)(node \<mapsto> new_node st i t)\<rparr>));
     q \<leftarrow> queue_at i s;
     q \<leftarrow> scheduler_queue_spinlock q;
     s \<leftarrow> scheduler_enqueue_task node (set_queue i q s);
     q \<leftarrow> queue_at i s;
     Some (node, set_queue i (fst (scheduler_queue_unlock q)) s) }"

definition scheduler_free_task :: "addr \<Rightarrow> addr \<Rightarrow> 'a sc \<Rightarrow> 'a sc option" where
  "scheduler_free_task idle node s =
     (if node = 0 \<or> node = idle then Some s
      else do {
        s \<leftarrow> scheduler_dequeue_task node s;
        Some (s\<lparr>s_nodes := (s_nodes s)(node := None)\<rparr>) })"

text \<open>The first half of \<open>scheduler_next_task\<close>: the task that ran until now goes to the end of its queue, or leaves it.\<close>

definition mutate_current :: "addr \<Rightarrow> addr \<Rightarrow> 'a sc \<Rightarrow> (u64 \<times> 'a sc) option" where
  "mutate_current idle current s =
     (if current \<noteq> 0 \<and> current \<noteq> idle then do {
        c \<leftarrow> s_nodes s current;
        s \<leftarrow> (if flags (context_of c) AND push_bit SCHEDULER_CONTEXT_FLAG_LOCKED 1 = 0
          then node_update (\<lambda>n. fst (scheduler_node_lock n)) current s else Some s);
        let i = unat (queue_num c);
        q \<leftarrow> queue_at i s;
        q \<leftarrow> scheduler_queue_spinlock q;
        let s = set_queue i q s;
        c \<leftarrow> s_nodes s current;
        let s = set_queue i (q\<lparr>q_first := n_next c\<rparr>) s;
        s \<leftarrow> (if flags (context_of c) AND push_bit SCHEDULER_CONTEXT_FLAG_FINISHED 1 \<noteq> 0
          then scheduler_free_task idle current s
          else node_update (\<lambda>n. fst (scheduler_node_unlock n)) current s);
        q \<leftarrow> queue_at i s;
        Some (queue_num c, set_queue i (fst (scheduler_queue_unlock q)) s) }
      else Some (- 1, s))"

text \<open>
  The entry \<open>j\<close> of the table of ticks; the index is the position in the queue, not the number of
  the queue, and \<open>beyond\<close> is what memory holds behind the table.
\<close>

definition ticks_at :: "(u64 \<Rightarrow> u64) \<Rightarrow> u64 \<Rightarrow> u64" where
  "ticks_at beyond j = (if unat j < length s_ticks_table then s_ticks_table ! unat j else beyond j)"

partial_function (option) find_in_queue ::
    "(u64 \<Rightarrow> u64) \<Rightarrow> u64 \<Rightarrow> nat \<Rightarrow> u64 \<Rightarrow> addr \<Rightarrow> 'a sc \<Rightarrow> (addr \<times> 'a sc) option" where
  "find_in_queue beyond current_queue_num i j node s = do {
     q \<leftarrow> queue_at i s;
     if j < q_num q then do {
       n \<leftarrow> s_nodes s node;
       (locked, s) \<leftarrow> (if flags (context_of n) AND pass_flags = 0
         then Some (snd (scheduler_node_lock n), s\<lparr>s_nodes := (s_nodes s)(node \<mapsto> fst (scheduler_node_lock n))\<rparr>)
         else Some (False, s));
       if locked then Some (node, if current_queue_num \<noteq> j then timer_set_ticks (ticks_at beyond j) s else s)
       else do {
         n \<leftarrow> s_nodes s node;
         find_in_queue beyond current_queue_num i (j + 1) (n_next n) s } }
     else Some (0, s) }"

declare find_in_queue.simps [code]

text \<open>The test of the queue's flags uses the number of the bit, which is 0, as the mask.\<close>

primrec find_next :: "(u64 \<Rightarrow> u64) \<Rightarrow> u64 \<Rightarrow> nat list \<Rightarrow> 'a sc \<Rightarrow> (addr \<times> 'a sc) option" where
  "find_next beyond current_queue_num [] s = Some (0, s)"
| "find_next beyond current_queue_num (i # is) s = do {
     q \<leftarrow> queue_at i s;
     if q_first q = 0 then find_next beyond current_queue_num is s
     else if q_flags q AND of_nat SCHEDULER_CONTEXT_FLAG_LOCKED \<noteq> 0 then find_next beyond current_queue_num is s
     else do {
       (node, s) \<leftarrow> find_in_queue beyond current_queue_num i 0 (q_first q) s;
       if node \<noteq> 0 then Some (node, s) else find_next beyond current_queue_num is s } }"

definition scheduler_next_task :: "(u64 \<Rightarrow> u64) \<Rightarrow> addr \<Rightarrow> addr \<Rightarrow> 'a sc \<Rightarrow> (addr \<times> 'a sc) option" where
  "scheduler_next_task beyond idle current s = do {
     (current_queue_num, s) \<leftarrow> mutate_current idle current s;
     (node, s) \<leftarrow> find_next beyond current_queue_num [0..<SCHEDULER_QUEUES_NUM] s;
     Some (if node = 0 then idle else node, s) }"

end
