(* ===== verification/Ring.thy ===== *)
theory Ring
  imports Main
begin

text \<open>
  Circular doubly linked lists.  \<open>ring nx pv xs\<close>: following \<open>nx\<close> from the head of \<open>xs\<close> goes round
  through the elements of \<open>xs\<close> in their order, and \<open>pv\<close> goes round the other way.
\<close>

definition ring :: "('a \<Rightarrow> 'a) \<Rightarrow> ('a \<Rightarrow> 'a) \<Rightarrow> 'a list \<Rightarrow> bool" where
  "ring nx pv xs \<longleftrightarrow> distinct xs \<and> map nx xs = rotate1 xs \<and> map pv (rotate1 xs) = xs"

lemma ring_distinct: "ring nx pv xs \<Longrightarrow> distinct xs"
  by (simp add: ring_def)

lemma ring_Nil [simp]: "ring nx pv []"
  by (simp add: ring_def)

lemma ring_single [simp]: "ring nx pv [a] \<longleftrightarrow> nx a = a \<and> pv a = a"
  by (auto simp: ring_def)

lemma ring_cong:
  assumes "\<And>a. a \<in> set xs \<Longrightarrow> nx a = nx' a" "\<And>a. a \<in> set xs \<Longrightarrow> pv a = pv' a"
  shows "ring nx pv xs \<longleftrightarrow> ring nx' pv' xs"
proof -
  have "map nx xs = map nx' xs" "map pv (rotate1 xs) = map pv' (rotate1 xs)" using assms by simp_all
  then show ?thesis unfolding ring_def by (simp only:)
qed

lemma ring_rotate1: "ring nx pv xs \<Longrightarrow> ring nx pv (rotate1 xs)"
  by (simp add: ring_def rotate1_map [symmetric])

lemma ring_rotate: "ring nx pv xs \<Longrightarrow> ring nx pv (rotate k xs)"
  by (induction k) (simp_all add: ring_rotate1)

lemma ring_swap: "ring nx pv (xs @ ys) \<longleftrightarrow> ring nx pv (ys @ xs)"
  using ring_rotate [of nx pv "xs @ ys" "length xs"] ring_rotate [of nx pv "ys @ xs" "length ys"]
  by (auto simp: rotate_append)

lemma ring_next: "ring nx pv (xs @ a # b # ys) \<Longrightarrow> nx a = b"
proof -
  assume "ring nx pv (xs @ a # b # ys)"
  then have "ring nx pv (a # b # ys @ xs)" by (subst (asm) ring_swap) simp
  then show ?thesis by (simp add: ring_def)
qed

lemma ring_ends:
  assumes "ring nx pv (zs @ [x])" "zs \<noteq> []"
  shows "nx x = hd zs" "pv x = last zs" "nx (last zs) = x" "pv (hd zs) = x"
proof -
  have m: "map nx (zs @ [x]) = tl zs @ [x, hd zs]" "map pv (tl zs @ [x, hd zs]) = zs @ [x]"
    using assms by (cases zs; simp add: ring_def)+
  have "map nx zs @ [nx x] = (tl zs @ [x]) @ [hd zs]" using m(1) by simp
  then have n: "map nx zs = tl zs @ [x]" "nx x = hd zs" by (simp_all only: append1_eq_conv)
  then show "nx x = hd zs" "nx (last zs) = x" using assms(2) by (simp, metis last_map last_snoc)
  have "(map pv (tl zs) @ [pv x]) @ [pv (hd zs)] = (butlast zs @ [last zs]) @ [x]" using m(2) assms(2) by simp
  then show "pv x = last zs" "pv (hd zs) = x" by (simp_all only: append1_eq_conv)
qed

lemma ring_close:
  assumes "ring nx pv xs" "xs \<noteq> []"
  shows "nx (last xs) = hd xs" "pv (hd xs) = last xs"
proof -
  have "nx (last xs) = last (rotate1 xs)" "pv (last (rotate1 xs)) = last xs"
    using assms by (metis last_map ring_def rotate1_is_Nil_conv)+
  moreover have "last (rotate1 xs) = hd xs" using assms(2) by (cases xs) simp_all
  ultimately show "nx (last xs) = hd xs" "pv (hd xs) = last xs" by simp_all
qed

lemma map_update_last:
  assumes "distinct xs" "xs \<noteq> []"
  shows "map (f(last xs := v)) xs = butlast (map f xs) @ [v]"
  using assms by (cases xs rule: rev_cases) auto

text \<open>Inserting an element before the head, at the end of the round.\<close>

lemma ring_snoc:
  assumes "ring nx pv xs" "xs \<noteq> []" "p \<notin> set xs"
  shows "ring (nx(last xs := p, p := hd xs)) (pv(hd xs := p, p := last xs)) (xs @ [p])"
proof -
  have d: "distinct xs" "map nx xs = rotate1 xs" "map pv (rotate1 xs) = xs" using assms by (simp_all add: ring_def)
  have r: "rotate1 xs = tl xs @ [hd xs]" "rotate1 (xs @ [p]) = tl xs @ [p, hd xs]"
    using assms(2) by (cases xs; simp)+
  have rd: "distinct (rotate1 xs)" "last (rotate1 xs) = hd xs" "rotate1 xs \<noteq> []" using d(1) assms(2) by (cases xs; simp)+
  have "map (nx(last xs := p)) xs = tl xs @ [p]"
    using map_update_last [OF d(1) assms(2), of nx p] by (simp add: d(2) r(1))
  moreover have "map (pv(hd xs := p)) (rotate1 xs) = butlast xs @ [p]"
    using map_update_last [OF rd(1,3), of pv p] by (simp add: rd(2) d(3))
  then have "map (pv(hd xs := p)) (tl xs) = butlast xs" by (simp add: r(1))
  moreover have "p \<notin> set (tl xs)" "hd xs \<noteq> p" "last xs \<noteq> p" using assms(2,3) by (cases xs; auto)+
  ultimately have "map (nx(last xs := p, p := hd xs)) xs = tl xs @ [p]"
    "map (pv(hd xs := p, p := last xs)) (tl xs) = butlast xs" using assms(3) by (simp_all only: map_fun_upd simp_thms)
  then show ?thesis
    using assms(2,3) d(1) \<open>hd xs \<noteq> p\<close> by (simp add: ring_def r(2))
qed

text \<open>Removing the last element of the round.\<close>

lemma ring_remove:
  assumes "ring nx pv (zs @ [x])" "zs \<noteq> []"
  shows "ring (nx(last zs := hd zs)) (pv(hd zs := last zs)) zs"
proof -
  have d: "distinct zs" "x \<notin> set zs" using assms(1) by (simp_all add: ring_def)
  have m: "map nx zs @ [nx x] = tl zs @ [x, hd zs]" "map pv (tl zs) @ [pv x, pv (hd zs)] = zs @ [x]"
    using assms by (cases zs; simp add: ring_def)+
  have r: "rotate1 zs = tl zs @ [hd zs]" using assms(2) by (cases zs) simp_all
  have rd: "distinct (rotate1 zs)" "last (rotate1 zs) = hd zs" "rotate1 zs \<noteq> []" using d(1) assms(2) by (cases zs; simp)+
  have "map nx zs @ [nx x] = (tl zs @ [x]) @ [hd zs]" using m(1) by simp
  then have "map nx zs = tl zs @ [x]" by (simp only: append1_eq_conv)
  then have n: "map (nx(last zs := hd zs)) zs = rotate1 zs"
    using map_update_last [OF d(1) assms(2), of nx "hd zs"] by (simp add: r)
  have "(map pv (tl zs) @ [pv x]) @ [pv (hd zs)] = (butlast zs @ [last zs]) @ [x]" using m(2) assms(2) by simp
  then have "map pv (tl zs) = butlast zs" by (simp only: append1_eq_conv)
  then have "map (pv(hd zs := last zs)) (rotate1 zs) = butlast zs @ [last zs]"
    using map_update_last [OF rd(1,3), of pv "last zs"] by (simp add: rd(2) r map_butlast [symmetric])
  then show ?thesis using n d(1) assms(2) by (simp add: ring_def)
qed

end
