(* ===== verification/Scheduler_Correct.thy ===== *)
theory Scheduler_Correct
  imports Scheduler Ring
begin

text \<open>
  The queues of the scheduler as lists.  \<open>queue_ok\<close> relates a queue in the heap with the list of its
  tasks; the lemmas give the effect of every operation of \<^verbatim>\<open>scheduler.c\<close> on the lists.
\<close>

section \<open>Queues in the heap\<close>

type_synonym nodes = "addr \<rightharpoonup> SchedulerNode"

definition nx :: "nodes \<Rightarrow> addr \<Rightarrow> addr" where
  "nx N a = (case N a of None \<Rightarrow> 0 | Some n \<Rightarrow> n_next n)"

definition pv :: "nodes \<Rightarrow> addr \<Rightarrow> addr" where
  "pv N a = (case N a of None \<Rightarrow> 0 | Some n \<Rightarrow> n_previous n)"

definition node_flags :: "nodes \<Rightarrow> addr \<Rightarrow> u64" where
  "node_flags N a = (case N a of None \<Rightarrow> 0 | Some n \<Rightarrow> flags (context_of n))"

definition queue_ok :: "addr \<Rightarrow> nodes \<Rightarrow> nat \<Rightarrow> SchedulerQueue \<Rightarrow> addr list \<Rightarrow> bool" where
  "queue_ok idle N k q xs \<longleftrightarrow> unat (q_num q) = length xs \<and> q_first q = (if xs = [] then 0 else hd xs)
     \<and> ring (nx N) (pv N) xs \<and> 0 \<notin> set xs \<and> idle \<notin> set xs
     \<and> (\<forall>a \<in> set xs. \<exists>n. N a = Some n \<and> queue_num n = of_nat k)"

text \<open>What a change of links keeps of a node, and of which nodes it keeps everything.\<close>

definition content :: "SchedulerNode \<Rightarrow> SchedulerContext \<times> u64" where
  "content n = (context_of n, queue_num n)"

definition relinked :: "addr set \<Rightarrow> nodes \<Rightarrow> nodes \<Rightarrow> bool" where
  "relinked X N M \<longleftrightarrow> (\<forall>a. a \<notin> X \<longrightarrow> M a = N a) \<and> (\<forall>a. map_option content (M a) = map_option content (N a))"

lemma relinked_mono: "relinked X N M \<Longrightarrow> X \<subseteq> Y \<Longrightarrow> relinked Y N M"
  by (auto simp: relinked_def)

lemma relinked_flags: "relinked X N M \<Longrightarrow> node_flags M = node_flags N"
proof
  fix a assume "relinked X N M"
  then have "map_option content (M a) = map_option content (N a)" by (simp add: relinked_def)
  then show "node_flags M a = node_flags N a"
    by (cases "M a"; cases "N a"; simp add: node_flags_def content_def)
qed

lemma relinked_queue_num:
  assumes "relinked X N M"
  shows "(\<exists>n. M a = Some n \<and> queue_num n = k) \<longleftrightarrow> (\<exists>n. N a = Some n \<and> queue_num n = k)"
proof -
  have "map_option content (M a) = map_option content (N a)" using assms by (simp add: relinked_def)
  then show ?thesis by (cases "M a"; cases "N a"; simp add: content_def)
qed

lemma queue_ok_distinct: "queue_ok idle N k q xs \<Longrightarrow> distinct xs"
  by (auto simp: queue_ok_def dest: ring_distinct)

lemma queue_ok_cong:
  assumes "\<And>a. a \<in> set xs \<Longrightarrow> M a = N a" "q_num q' = q_num q" "q_first q' = q_first q"
  shows "queue_ok idle M k q' xs \<longleftrightarrow> queue_ok idle N k q xs"
  using ring_cong [of xs "nx M" "nx N" "pv M" "pv N"] assms by (auto simp: queue_ok_def nx_def pv_def)

lemma queue_ok_outside:
  assumes "queue_ok idle N k q xs" "\<And>a. a \<in> set xs \<Longrightarrow> M a = N a"
  shows "queue_ok idle M k q xs"
  using assms(1) queue_ok_cong [of xs M N q q] assms(2) by blast

lemma queue_ok_nodes:
  assumes "queue_ok idle N k q xs" "a \<in> set xs"
  obtains n where "N a = Some n" "queue_num n = of_nat k" "nx N a = n_next n" "pv N a = n_previous n"
    "node_flags N a = flags (context_of n)"
  using assms by (fastforce simp: queue_ok_def nx_def pv_def node_flags_def)

lemma distinct_nonzero_bound:
  fixes xs :: "u64 list"
  assumes "distinct xs" "0 \<notin> set xs"
  shows "length xs < 2 ^ 64"
proof -
  have "length xs = card (set xs)" using assms(1) by (simp add: distinct_card)
  also have "\<dots> < card (UNIV :: u64 set)"
    using assms(2) by (intro psubset_card_mono) auto
  also have "\<dots> = 2 ^ 64" by (simp add: card_word)
  finally show ?thesis .
qed

lemma unat_inc:
  fixes w :: u64
  assumes "unat w = n" "n + 1 < 2 ^ 64"
  shows "unat (w + 1) = n + 1"
  using assms by (simp add: unat_word_ariths)

section \<open>Enqueueing\<close>

lemma queue_at_set_queue [simp]: "queue_at i (set_queue i q s) = (if i < length (s_queues s) then Some q else None)"
  by (simp add: queue_at_def set_queue_def)

lemma queue_at_nodes [simp]: "queue_at i (s\<lparr>s_nodes := N\<rparr>) = queue_at i s"
  by (simp add: queue_at_def)

lemma set_queue_twice [simp]: "set_queue i q (set_queue i r s) = set_queue i q s"
  by (simp add: set_queue_def)

lemma set_queue_nodes [simp]: "s_nodes (set_queue i q s) = s_nodes s"
  by (simp add: set_queue_def)

lemma queue_at_SomeD: "queue_at i s = Some q \<Longrightarrow> i < length (s_queues s) \<and> s_queues s ! i = q"
  by (simp add: queue_at_def split: if_splits)

lemma enqueue_first:
  assumes "s_nodes s p = Some n" "queue_at (unat (queue_num n)) s = Some q" "q_num q = 0"
  shows "\<exists>M. scheduler_enqueue_task p s =
      Some (set_queue (unat (queue_num n)) (q\<lparr>q_first := p, q_num := 1\<rparr>) (s\<lparr>s_nodes := M\<rparr>)) \<and>
    nx M p = p \<and> pv M p = p \<and> relinked {p} (s_nodes s) M"
  using assms queue_at_SomeD [OF assms(2)]
  by (auto simp: scheduler_enqueue_task_def node_update_def set_queue_def queue_at_def
      nx_def pv_def relinked_def content_def)

lemma enqueue_further:
  assumes "s_nodes s p = Some n" "queue_at (unat (queue_num n)) s = Some q" "q_num q \<noteq> 0"
    and "s_nodes s (q_first q) = Some f" "s_nodes s (n_previous f) = Some l" "p \<noteq> q_first q" "p \<noteq> n_previous f"
  shows "\<exists>M. scheduler_enqueue_task p s =
      Some (set_queue (unat (queue_num n)) (q\<lparr>q_num := q_num q + 1\<rparr>) (s\<lparr>s_nodes := M\<rparr>)) \<and>
    nx M = (nx (s_nodes s))(n_previous f := p, p := q_first q) \<and>
    pv M = (pv (s_nodes s))(q_first q := p, p := n_previous f) \<and>
    relinked {p, q_first q, n_previous f} (s_nodes s) M"
proof -
  let ?M = "(s_nodes s)(p \<mapsto> n\<lparr>n_previous := n_previous f, n_next := q_first q\<rparr>, n_previous f \<mapsto> l\<lparr>n_next := p\<rparr>,
    q_first q \<mapsto> (if n_previous f = q_first q then l\<lparr>n_next := p\<rparr> else f)\<lparr>n_previous := p\<rparr>)"
  have "scheduler_enqueue_task p s = Some (set_queue (unat (queue_num n)) (q\<lparr>q_num := q_num q + 1\<rparr>) (s\<lparr>s_nodes := ?M\<rparr>))"
    using assms by (auto simp: scheduler_enqueue_task_def node_update_def Let_def)
  moreover have "nx ?M = (nx (s_nodes s))(n_previous f := p, p := q_first q)"
    "pv ?M = (pv (s_nodes s))(q_first q := p, p := n_previous f)"
    "relinked {p, q_first q, n_previous f} (s_nodes s) ?M"
    using assms by (auto simp: nx_def pv_def relinked_def content_def)
  ultimately show ?thesis by blast
qed

lemma enqueue_queue_ok:
  assumes ok: "queue_ok idle (s_nodes s) k q xs" and q: "queue_at k s = Some q" and k: "k < 3"
    and n: "s_nodes s p = Some n" "queue_num n = of_nat k" and p: "p \<notin> set xs" "p \<noteq> 0" "p \<noteq> idle"
  shows "\<exists>M q'. scheduler_enqueue_task p s = Some (set_queue k q' (s\<lparr>s_nodes := M\<rparr>)) \<and> q_flags q' = q_flags q \<and>
    queue_ok idle M k q' (xs @ [p]) \<and> relinked (insert p (set xs)) (s_nodes s) M"
proof -
  have i: "unat (queue_num n) = k" using k n(2) by (simp add: unat_of_nat)
  have len: "length xs + 1 < 2 ^ 64"
    using distinct_nonzero_bound [of "xs @ [p]"] ok p ring_distinct by (auto simp: queue_ok_def)
  have num: "unat (q_num q) = length xs" and d: "ring (nx (s_nodes s)) (pv (s_nodes s)) xs" using ok by (simp_all add: queue_ok_def)
  show ?thesis
  proof (cases "xs = []")
    case True
    then have z: "q_num q = 0" using num by (simp add: unsigned_eq_0_iff)
    obtain M where M: "scheduler_enqueue_task p s =
        Some (set_queue k (q\<lparr>q_first := p, q_num := 1\<rparr>) (s\<lparr>s_nodes := M\<rparr>))" "nx M p = p" "pv M p = p" "relinked {p} (s_nodes s) M"
      using enqueue_first [OF n(1) q [folded i] z] unfolding i by blast
    have "\<exists>n. M p = Some n \<and> queue_num n = of_nat k"
      using relinked_queue_num [OF M(4), of p "of_nat k"] n by simp
    then show ?thesis
      using M True p by (intro exI [of _ M] exI [of _ "q\<lparr>q_first := p, q_num := 1\<rparr>"]) (simp add: queue_ok_def)
  next
    case False
    then have z: "q_num q \<noteq> 0" "q_first q = hd xs" using num ok by (auto simp: queue_ok_def)
    note close = ring_close [OF d False]
    obtain f where f: "s_nodes s (q_first q) = Some f" "n_previous f = last xs"
      using queue_ok_nodes [OF ok, of "hd xs"] False close z(2) by (metis hd_in_set)
    obtain l where l: "s_nodes s (n_previous f) = Some l"
      using queue_ok_nodes [OF ok, of "last xs"] False f(2) by (metis last_in_set)
    have pn: "p \<noteq> q_first q" "p \<noteq> n_previous f" using p(1) False z(2) f(2) by auto
    obtain M where M: "scheduler_enqueue_task p s =
        Some (set_queue k (q\<lparr>q_num := q_num q + 1\<rparr>) (s\<lparr>s_nodes := M\<rparr>))"
      "nx M = (nx (s_nodes s))(last xs := p, p := hd xs)" "pv M = (pv (s_nodes s))(hd xs := p, p := last xs)"
      "relinked {p, hd xs, last xs} (s_nodes s) M"
      using enqueue_further [OF n(1) q [folded i] z(1) f(1) l pn] unfolding i f(2) z(2) by blast
    have r: "ring (nx M) (pv M) (xs @ [p])" unfolding M(2,3) by (rule ring_snoc [OF d False p(1)])
    have "\<exists>n. M a = Some n \<and> queue_num n = of_nat k" if "a \<in> set (xs @ [p])" for a
      using relinked_queue_num [OF M(4), of a "of_nat k"] n ok that by (auto simp: queue_ok_def)
    then have "queue_ok idle M k (q\<lparr>q_num := q_num q + 1\<rparr>) (xs @ [p])"
      using r p ok False z(2) unat_inc [OF num len] by (simp add: queue_ok_def)
    moreover have "relinked (insert p (set xs)) (s_nodes s) M"
      using M(4) False by (auto simp: relinked_def)
    ultimately show ?thesis using M(1) by fastforce
  qed
qed

section \<open>Dequeueing\<close>

lemma dequeue_last:
  assumes "s_nodes s x = Some n" "queue_at (unat (queue_num n)) s = Some q" "q_num q \<le> 1"
  shows "scheduler_dequeue_task x s = Some (set_queue (unat (queue_num n)) (q\<lparr>q_first := 0, q_num := q_num q - 1\<rparr>) s)"
  using assms queue_at_SomeD [OF assms(2)]
  by (simp add: scheduler_dequeue_task_def set_queue_def queue_at_def)

lemma dequeue_further:
  assumes "s_nodes s x = Some n" "queue_at (unat (queue_num n)) s = Some q" "1 < q_num q"
    and "s_nodes s (n_next n) = Some a" "s_nodes s (n_previous n) = Some b" "x \<noteq> n_next n" "x \<noteq> n_previous n"
  shows "\<exists>M. scheduler_dequeue_task x s =
      Some (set_queue (unat (queue_num n)) (q\<lparr>q_num := q_num q - 1\<rparr>) (s\<lparr>s_nodes := M\<rparr>)) \<and>
    nx M = (nx (s_nodes s))(n_previous n := n_next n) \<and> pv M = (pv (s_nodes s))(n_next n := n_previous n) \<and>
    relinked {n_next n, n_previous n} (s_nodes s) M"
proof -
  let ?M = "(s_nodes s)(n_next n \<mapsto> a\<lparr>n_previous := n_previous n\<rparr>,
    n_previous n \<mapsto> (if n_next n = n_previous n then a\<lparr>n_previous := n_previous n\<rparr> else b)\<lparr>n_next := n_next n\<rparr>)"
  have "scheduler_dequeue_task x s = Some (set_queue (unat (queue_num n)) (q\<lparr>q_num := q_num q - 1\<rparr>) (s\<lparr>s_nodes := ?M\<rparr>))"
    using assms by (auto simp: scheduler_dequeue_task_def node_update_def Let_def)
  moreover have "nx ?M = (nx (s_nodes s))(n_previous n := n_next n)" "pv ?M = (pv (s_nodes s))(n_next n := n_previous n)"
    "relinked {n_next n, n_previous n} (s_nodes s) ?M"
    using assms by (auto simp: nx_def pv_def relinked_def content_def)
  ultimately show ?thesis by blast
qed

text \<open>
  Removing the task \<open>x\<close> from a queue whose first task is another one, or that has no other.  The
  list is \<open>as @ x # bs\<close>; a queue that was rotated past \<open>x\<close> has \<open>bs = []\<close>.
\<close>

lemma dequeue_queue_ok:
  assumes ok: "queue_ok idle (s_nodes s) k q (as @ x # bs)" and q: "queue_at k s = Some q" and k: "k < 3"
    and first: "as = [] \<Longrightarrow> bs = []"
  shows "\<exists>M q'. scheduler_dequeue_task x s = Some (set_queue k q' (s\<lparr>s_nodes := M\<rparr>)) \<and> q_flags q' = q_flags q \<and>
    queue_ok idle M k q' (as @ bs) \<and> relinked (set as \<union> set bs) (s_nodes s) M"
proof -
  obtain n where n: "s_nodes s x = Some n" "queue_num n = of_nat k" "nx (s_nodes s) x = n_next n" "pv (s_nodes s) x = n_previous n"
    by (rule queue_ok_nodes [OF ok, of x]) simp_all
  have i: "unat (queue_num n) = k" using k n(2) by (simp add: unat_of_nat)
  have num: "unat (q_num q) = length as + length bs + 1" using ok by (simp add: queue_ok_def)
  have dec: "unat (q_num q - 1) = length as + length bs" using num by (simp add: unat_sub_if')
  show ?thesis
  proof (cases "as = []")
    case True
    then have "bs = []" by (rule first)
    then have "q_num q \<le> 1" using True num by (simp add: word_le_nat_alt)
    then have "scheduler_dequeue_task x s = Some (set_queue k (q\<lparr>q_first := 0, q_num := q_num q - 1\<rparr>) s)"
      using dequeue_last [OF n(1) q [folded i]] i by simp
    moreover have "queue_ok idle (s_nodes s) k (q\<lparr>q_first := 0, q_num := q_num q - 1\<rparr>) (as @ bs)"
      using dec True \<open>bs = []\<close> by (simp add: queue_ok_def)
    ultimately show ?thesis
      by (intro exI [of _ "s_nodes s"] exI [of _ "q\<lparr>q_first := 0, q_num := q_num q - 1\<rparr>"]) (simp add: relinked_def)
  next
    case False
    let ?zs = "bs @ as"
    have r: "ring (nx (s_nodes s)) (pv (s_nodes s)) (?zs @ [x])"
      using ok ring_swap [of _ _ "as @ [x]" bs] ring_swap [of _ _ as "[x] @ bs"] by (simp add: queue_ok_def)
    have zs: "?zs \<noteq> []" using False by simp
    note ends = ring_ends [OF r zs] n(3,4)
    have x: "x \<notin> set ?zs" using ring_distinct [OF r] by simp
    have links: "n_next n = hd ?zs" "n_previous n = last ?zs" using ends by simp_all
    have mem: "hd ?zs \<in> set ?zs" "last ?zs \<in> set ?zs" using zs by (metis hd_in_set, metis last_in_set)
    obtain a where a: "s_nodes s (n_next n) = Some a"
      by (rule queue_ok_nodes [OF ok, of "hd ?zs"]) (use mem links in auto)
    obtain b where b: "s_nodes s (n_previous n) = Some b"
      by (rule queue_ok_nodes [OF ok, of "last ?zs"]) (use mem links in auto)
    have ne: "x \<noteq> n_next n" "x \<noteq> n_previous n" using x mem links by auto
    have big: "1 < q_num q" using num False by (cases as) (simp_all add: word_less_nat_alt)
    obtain M where M: "scheduler_dequeue_task x s = Some (set_queue k (q\<lparr>q_num := q_num q - 1\<rparr>) (s\<lparr>s_nodes := M\<rparr>))"
      "nx M = (nx (s_nodes s))(last ?zs := hd ?zs)" "pv M = (pv (s_nodes s))(hd ?zs := last ?zs)"
      "relinked {hd ?zs, last ?zs} (s_nodes s) M"
      using dequeue_further [OF n(1) q [folded i] big a b ne] unfolding i links by blast
    have "ring (nx M) (pv M) ?zs" unfolding M(2,3) by (rule ring_remove [OF r zs])
    then have "ring (nx M) (pv M) (as @ bs)" by (simp add: ring_swap)
    moreover have "\<exists>n. M c = Some n \<and> queue_num n = of_nat k" if "c \<in> set (as @ bs)" for c
      using relinked_queue_num [OF M(4), of c "of_nat k"] ok that by (auto simp: queue_ok_def)
    ultimately have "queue_ok idle M k (q\<lparr>q_num := q_num q - 1\<rparr>) (as @ bs)"
      using ok False dec by (simp add: queue_ok_def)
    moreover have "relinked (set as \<union> set bs) (s_nodes s) M"
      by (rule relinked_mono [OF M(4)]) (use mem in auto)
    ultimately show ?thesis using M(1) by fastforce
  qed
qed

section \<open>Three queues\<close>

text \<open>
  \<open>sched_rel idle s Q fl\<close>: between two operations of the scheduler the queues are unlocked, the queue
  \<open>k\<close> holds the tasks \<open>Q k\<close> in this order, and a task \<open>a\<close> in a queue has the flags \<open>fl a\<close>.
\<close>

definition sched_rel :: "addr \<Rightarrow> 'a sc \<Rightarrow> (nat \<Rightarrow> addr list) \<Rightarrow> (addr \<Rightarrow> u64) \<Rightarrow> bool" where
  "sched_rel idle s Q fl \<longleftrightarrow> length (s_queues s) = 3 \<and>
     (\<forall>k<3. queue_ok idle (s_nodes s) k (s_queues s ! k) (Q k) \<and> \<not> bit (q_flags (s_queues s ! k)) 0 \<and>
        (\<forall>a \<in> set (Q k). node_flags (s_nodes s) a = fl a))"

lemma sched_relD:
  assumes "sched_rel idle s Q fl" "k < 3"
  shows "queue_ok idle (s_nodes s) k (s_queues s ! k) (Q k)" "\<not> bit (q_flags (s_queues s ! k)) 0"
    "queue_at k s = Some (s_queues s ! k)" "a \<in> set (Q k) \<Longrightarrow> node_flags (s_nodes s) a = fl a"
  using assms by (simp_all add: sched_rel_def queue_at_def)

lemma sched_rel_disjoint:
  assumes "sched_rel idle s Q fl" "j < 3" "k < 3" "a \<in> set (Q j)" "a \<in> set (Q k)"
  shows "j = k"
proof -
  have "(of_nat j :: u64) = of_nat k"
    using assms sched_relD(1) [OF assms(1)] unfolding queue_ok_def by (metis option.inject)
  then show ?thesis using assms(2,3) by (simp add: of_nat_eq_iff word_of_nat_eq_iff take_bit_nat_def)
qed

text \<open>A change that concerns the queue \<open>k\<close> alone.\<close>

lemma sched_rel_update:
  assumes s: "sched_rel idle s Q fl" and k: "k < 3"
    and t: "s_queues t = (s_queues s)[k := q]" "s_nodes t = M"
    and q: "queue_ok idle M k q xs" "\<not> bit (q_flags q) 0" "\<And>a. a \<in> set xs \<Longrightarrow> node_flags M a = fl' a"
    and others: "\<And>j a. j < 3 \<Longrightarrow> j \<noteq> k \<Longrightarrow> a \<in> set (Q j) \<Longrightarrow> M a = s_nodes s a \<and> fl' a = fl a"
  shows "sched_rel idle t (Q(k := xs)) fl'"
proof -
  have "queue_ok idle M j (s_queues s ! j) (Q j) \<and> (\<forall>a \<in> set (Q j). node_flags M a = fl' a)" if "j < 3" "j \<noteq> k" for j
    using queue_ok_cong [of "Q j" M "s_nodes s"] others [OF that] sched_relD(1,4) [OF s that(1)]
    by (auto simp: node_flags_def)
  then show ?thesis
    using s k q t by (simp add: sched_rel_def nth_list_update)
qed

lemma scheduler_init_rel: "sched_rel idle (scheduler_init s) (\<lambda>_. []) fl"
  by (simp add: sched_rel_def scheduler_init_def SCHEDULER_QUEUES_NUM_def queue_ok_def)

lemma queue_ok_lock:
  "queue_ok idle N k (q\<lparr>q_flags := f\<rparr>) xs \<longleftrightarrow> queue_ok idle N k q xs"
  by (rule queue_ok_cong) simp_all

lemma spinlock_free: "\<not> bit (q_flags q) 0 \<Longrightarrow> scheduler_queue_spinlock q = Some (q\<lparr>q_flags := set_bit 0 (q_flags q)\<rparr>)"
  by (simp add: scheduler_queue_spinlock_def atomic_spinlock_eq SCHEDULER_QUEUE_FLAG_LOCKED_def)

lemma unlock_queue: "fst (scheduler_queue_unlock q) = q\<lparr>q_flags := unset_bit 0 (q_flags q)\<rparr>"
  by (simp add: scheduler_queue_unlock_def atomic_unlock_def SCHEDULER_QUEUE_FLAG_LOCKED_def)

text \<open>The queue locks keep the contract of a bit lock.\<close>

interpretation queue_mutex: bit_lock scheduler_queue_spinlock "\<lambda>q. fst (scheduler_queue_unlock q)" "\<lambda>q. bit (q_flags q) 0"
  by unfold_locales
    (auto simp: scheduler_queue_spinlock_def atomic_spinlock_eq unlock_queue SCHEDULER_QUEUE_FLAG_LOCKED_def split: if_splits)

lemma sched_rel_add_task:
  fixes qn :: SchedulerQueueNumber
  assumes s: "sched_rel idle s Q fl" and p: "p \<noteq> 0" "p \<noteq> idle" "s_nodes s p = None"
  defines "k \<equiv> queue_index qn"
  shows "\<exists>t n. scheduler_add_task p st qn s = Some (p, t) \<and> sched_rel idle t (Q(k := Q k @ [p])) (fl(p := 0)) \<and>
    s_tid_accumulator t = s_tid_accumulator s + 1 \<and> s_nodes t p = Some n \<and>
    content n = content (new_node st k (s_tid_accumulator s)) \<and>
    (\<forall>a. a \<notin> insert p (set (Q k)) \<longrightarrow> s_nodes t a = s_nodes s a)"
proof -
  have k: "k < 3" unfolding k_def by (cases qn) simp_all
  note q = sched_relD [OF s k]
  let ?q = "s_queues s ! k" and ?n = "new_node st k (s_tid_accumulator s)"
  let ?N = "(s_nodes s)(p \<mapsto> ?n)" and ?l = "?q\<lparr>q_flags := set_bit 0 (q_flags ?q)\<rparr>"
  let ?s = "set_queue k ?l (s\<lparr>s_tid_accumulator := s_tid_accumulator s + 1, s_nodes := ?N\<rparr>)"
  have new: "p \<notin> set (Q j)" if "j < 3" for j
    using queue_ok_nodes [OF sched_relD(1) [OF s that], of p] p(3) by auto
  have "queue_ok idle ?N k ?l (Q k)"
    unfolding queue_ok_lock by (rule queue_ok_outside [OF q(1)]) (use new [OF k] in auto)
  moreover have "queue_at k ?s = Some ?l" using k s by (simp add: queue_at_def set_queue_def sched_rel_def)
  moreover have "queue_num ?n = of_nat k" by (simp add: new_node_def)
  ultimately obtain M r where M: "scheduler_enqueue_task p ?s = Some (set_queue k r (?s\<lparr>s_nodes := M\<rparr>))"
    "q_flags r = q_flags ?l" "queue_ok idle M k r (Q k @ [p])" "relinked (insert p (set (Q k))) ?N M"
    using enqueue_queue_ok [of idle ?s k ?l "Q k" p ?n] k p new [OF k] by auto
  let ?r = "r\<lparr>q_flags := unset_bit 0 (q_flags r)\<rparr>"
  let ?t = "s\<lparr>s_tid_accumulator := s_tid_accumulator s + 1, s_nodes := M, s_queues := (s_queues s)[k := ?r]\<rparr>"
  have "k < length (s_queues s)" using k s by (simp add: sched_rel_def)
  then have "scheduler_add_task p st qn s = Some (p, ?t)"
    using M(1) p q(2,3)
    by (simp add: scheduler_add_task_def atomic_accumulate_def k_def [symmetric] spinlock_free unlock_queue
        set_queue_def queue_at_def)
  moreover have "sched_rel idle ?t (Q(k := Q k @ [p])) (fl(p := 0))"
  proof (rule sched_rel_update [OF s k, where q = ?r])
    fix a assume "a \<in> set (Q k @ [p])"
    then show "node_flags M a = (fl(p := 0)) a"
      using relinked_flags [OF M(4)] new [OF k] q(4) by (auto simp: node_flags_def new_node_def zero_node_def)
  next
    fix j a assume "j < 3" "j \<noteq> k" "a \<in> set (Q j)"
    then have "a \<noteq> p" "a \<notin> set (Q k)" using new sched_rel_disjoint [OF s _ k] by auto
    then show "M a = s_nodes s a \<and> (fl(p := 0)) a = fl a" using M(4) by (simp add: relinked_def)
  qed (use M(3) in \<open>simp_all add: queue_ok_lock\<close>)
  moreover obtain n where "M p = Some n" "content n = content ?n"
    using M(4) by (auto simp: relinked_def dest!: spec [of _ p])
  moreover have "\<forall>a. a \<notin> insert p (set (Q k)) \<longrightarrow> M a = s_nodes s a"
    using M(4) by (simp add: relinked_def)
  ultimately show ?thesis by simp
qed

section \<open>The task that ran\<close>

text \<open>A change of the contexts of nodes leaves the links alone.\<close>

definition same_links :: "nodes \<Rightarrow> nodes \<Rightarrow> bool" where
  "same_links N M \<longleftrightarrow> (\<forall>a. map_option (\<lambda>n. (queue_num n, n_previous n, n_next n)) (M a) =
     map_option (\<lambda>n. (queue_num n, n_previous n, n_next n)) (N a))"

lemma same_links_update: "N a = Some n \<Longrightarrow> same_links N (N(a \<mapsto> n\<lparr>context_of := c\<rparr>))"
  by (simp add: same_links_def)

lemma queue_ok_same_links:
  assumes "same_links N M" "queue_ok idle N k q xs"
  shows "queue_ok idle M k q xs"
proof -
  have "map_option (\<lambda>n. (queue_num n, n_previous n, n_next n)) (M a) =
     map_option (\<lambda>n. (queue_num n, n_previous n, n_next n)) (N a)" for a using assms(1) by (simp add: same_links_def)
  then have l: "nx M a = nx N a \<and> pv M a = pv N a \<and> (\<forall>j. (\<exists>n. M a = Some n \<and> queue_num n = j) = (\<exists>n. N a = Some n \<and> queue_num n = j))" for a
    unfolding nx_def pv_def by (cases "M a"; cases "N a"; metis (mono_tags, lifting) map_option_is_None option.distinct(1)
      option.inject option.simps(5) option.map(2) prod.inject)
  then have "ring (nx M) (pv M) xs = ring (nx N) (pv N) xs" by (intro ring_cong) simp_all
  then show ?thesis using assms(2) l by (simp add: queue_ok_def)
qed

lemma queue_ok_rotate:
  assumes "queue_ok idle N k q (as @ c # bs)"
  shows "queue_ok idle N k (q\<lparr>q_first := nx N c\<rparr>) (bs @ as @ [c])"
proof -
  have r: "ring (nx N) (pv N) (bs @ as @ [c])"
    using assms ring_swap [of "nx N" "pv N" "as @ [c]" bs] by (simp add: queue_ok_def)
  then have "nx N c = hd (bs @ as @ [c])" using ring_close(1) [OF r] by simp
  then show ?thesis using assms r by (auto simp: queue_ok_def)
qed

text \<open>What the specification says of it: it goes behind the other tasks of its queue and is unlocked; a finished task leaves.\<close>

definition behind :: "addr \<Rightarrow> addr list \<Rightarrow> addr list" where
  "behind c xs = tl (dropWhile (\<lambda>a. a \<noteq> c) xs) @ takeWhile (\<lambda>a. a \<noteq> c) xs"

lemma behind_split:
  assumes "c \<notin> set as"
  shows "behind c (as @ c # bs) = bs @ as"
proof -
  have "dropWhile (\<lambda>a. a \<noteq> c) (as @ c # bs) = c # bs \<and> takeWhile (\<lambda>a. a \<noteq> c) (as @ c # bs) = as"
    using assms by (induction as) auto
  then show ?thesis by (simp add: behind_def)
qed

definition spec_yield :: "addr \<Rightarrow> (nat \<Rightarrow> addr list) \<Rightarrow> (addr \<Rightarrow> u64) \<Rightarrow> nat \<Rightarrow> addr list" where
  "spec_yield c Q fl k = (if c \<in> set (Q k) then behind c (Q k) @ (if bit (fl c) 1 then [] else [c]) else Q k)"

lemma flag_tests:
  "f AND push_bit SCHEDULER_CONTEXT_FLAG_LOCKED 1 = 0 \<longleftrightarrow> \<not> bit (f :: u64) 0"
  "f AND push_bit SCHEDULER_CONTEXT_FLAG_FINISHED 1 = 0 \<longleftrightarrow> \<not> bit (f :: u64) 1"
  unfolding push_bit_of_1 and_exp_eq_0_iff_not_bit
  by (simp_all add: SCHEDULER_CONTEXT_FLAG_LOCKED_def SCHEDULER_CONTEXT_FLAG_FINISHED_def)

lemma unset_set_bit_flags: "unset_bit n (set_bit n f) = unset_bit n (f :: u64)"
  by (rule bit_word_eqI) (auto simp: bit_simps)

lemma mutate_none: "current = 0 \<or> current = idle \<Longrightarrow> mutate_current idle current s = Some (- 1, s)"
  by (auto simp: mutate_current_def)

lemma mutate_current_eq:
  assumes "c \<noteq> 0" "c \<noteq> idle" "s_nodes s c = Some n" "unat (queue_num n) = k" "k < length (s_queues s)"
    "\<not> bit (q_flags (s_queues s ! k)) 0"
  defines "q \<equiv> s_queues s ! k" and "m \<equiv> n\<lparr>context_of := (context_of n)\<lparr>flags := set_bit 0 (flags (context_of n))\<rparr>\<rparr>"
  shows "mutate_current idle c s = do {
     s \<leftarrow> (let s = set_queue k (q\<lparr>q_flags := set_bit 0 (q_flags q), q_first := n_next n\<rparr>) (s\<lparr>s_nodes := (s_nodes s)(c \<mapsto> m)\<rparr>)
       in if bit (flags (context_of n)) 1 then scheduler_free_task idle c s
       else node_update (\<lambda>n. fst (scheduler_node_unlock n)) c s);
     q \<leftarrow> queue_at k s;
     Some (queue_num n, set_queue k (fst (scheduler_queue_unlock q)) s) }"
proof -
  have lock: "bit f 0 \<Longrightarrow> set_bit 0 f = f" for f :: u64
    by (rule bit_word_eqI) auto
  have "(if flags (context_of n) AND push_bit SCHEDULER_CONTEXT_FLAG_LOCKED 1 = 0
      then node_update (\<lambda>n. fst (scheduler_node_lock n)) c s else Some s) = Some (s\<lparr>s_nodes := (s_nodes s)(c \<mapsto> m)\<rparr>)"
    using assms(3) lock
    unfolding flag_tests
    by (auto simp: SCHEDULER_CONTEXT_FLAG_LOCKED_def node_update_def scheduler_node_lock_def atomic_lock_def m_def map_upd_triv)
  moreover have "queue_at k s = Some q" using assms(5) by (simp add: queue_at_def q_def)
  ultimately show ?thesis
    using assms(1-4,6)
    by (simp add: mutate_current_def spinlock_free Let_def flag_tests m_def q_def [symmetric] bit_set_bit_iff
        del: push_bit_of_1)
qed

text \<open>
  The state in the middle of \<open>mutate_current\<close>: the current task \<open>c\<close> and its queue \<open>k\<close> are locked, and the queue is
  rotated to the task behind \<open>c\<close>.
\<close>

definition current_taken ::
  "addr \<Rightarrow> 'a sc \<Rightarrow> (nat \<Rightarrow> addr list) \<Rightarrow> (addr \<Rightarrow> u64) \<Rightarrow> nat \<Rightarrow> addr \<Rightarrow> addr list \<Rightarrow> addr list \<Rightarrow> SchedulerNode \<Rightarrow> SchedulerQueue \<Rightarrow> bool" where
  "current_taken idle s Q fl k c as bs m q \<longleftrightarrow> sched_rel idle s Q fl \<and> k < 3 \<and> Q k = as @ c # bs \<and> c \<noteq> 0 \<and> c \<noteq> idle
     \<and> queue_ok idle ((s_nodes s)(c \<mapsto> m)) k q (bs @ as @ [c]) \<and> flags (context_of m) = set_bit 0 (fl c)"

lemma current_taken_other:
  assumes "current_taken idle s Q fl k c as bs m q" and "j < 3" "j \<noteq> k" "a \<in> set (Q j)"
  shows "a \<notin> set (Q k)" and "a \<noteq> c"
proof -
  show "a \<notin> set (Q k)" using assms sched_rel_disjoint [of idle s Q fl j k a] by (auto simp: current_taken_def)
  then show "a \<noteq> c" using assms(1) by (auto simp: current_taken_def)
qed

lemma current_taken_flags:
  assumes "current_taken idle s Q fl k c as bs m q" and "a \<in> set (Q k)"
  shows "node_flags ((s_nodes s)(c \<mapsto> m)) a = (if a = c then set_bit 0 (fl c) else fl a)"
  using assms sched_relD(4) [of idle s Q fl k a] by (simp add: current_taken_def node_flags_def)

text \<open>A finished task is removed and freed.\<close>

lemma current_taken_free:
  assumes t: "current_taken idle s Q fl k c as bs m q" and "distinct (Q k)"
  shows "\<exists>M q2. scheduler_free_task idle c (set_queue k q (s\<lparr>s_nodes := (s_nodes s)(c \<mapsto> m)\<rparr>))
      = Some (s\<lparr>s_nodes := M, s_queues := (s_queues s)[k := q2]\<rparr>)
    \<and> sched_rel idle (s\<lparr>s_nodes := M, s_queues := (s_queues s)[k := q2\<lparr>q_flags := unset_bit 0 (q_flags q2)\<rparr>]\<rparr>)
        (Q(k := bs @ as)) (fl(c := unset_bit 0 (fl c)))"
proof -
  from t have s: "sched_rel idle s Q fl" and k: "k < 3" and split: "Q k = as @ c # bs" and cz: "c \<noteq> 0" "c \<noteq> idle"
    and q: "queue_ok idle ((s_nodes s)(c \<mapsto> m)) k q (bs @ as @ [c])" by (simp_all add: current_taken_def)
  let ?N = "(s_nodes s)(c \<mapsto> m)" and ?s = "set_queue k q (s\<lparr>s_nodes := (s_nodes s)(c \<mapsto> m)\<rparr>)"
  have len: "k < length (s_queues s)" using s k by (simp add: sched_rel_def)
  have d: "c \<notin> set as" "c \<notin> set bs" using assms(2) by (simp_all add: split)
  obtain M q2 where M: "scheduler_dequeue_task c ?s = Some (set_queue k q2 (?s\<lparr>s_nodes := M\<rparr>))"
    "queue_ok idle M k q2 (bs @ as)" "relinked (set bs \<union> set as) ?N M"
    using dequeue_queue_ok [of idle ?s k q "bs @ as" c "[]"] q k len by auto
  let ?q = "q2\<lparr>q_flags := unset_bit 0 (q_flags q2)\<rparr>"
  have "sched_rel idle (s\<lparr>s_nodes := M(c := None), s_queues := (s_queues s)[k := ?q]\<rparr>) (Q(k := bs @ as)) (fl(c := unset_bit 0 (fl c)))"
  proof (rule sched_rel_update [OF s k])
    show "queue_ok idle (M(c := None)) k ?q (bs @ as)"
      by (rule queue_ok_outside [of _ M]) (use M(2) d in \<open>auto simp: queue_ok_lock\<close>)
    fix a assume "a \<in> set (bs @ as)"
    then have "a \<in> set (Q k)" "a \<noteq> c" using d by (auto simp: split)
    then show "node_flags (M(c := None)) a = (fl(c := unset_bit 0 (fl c))) a"
      using current_taken_flags [OF t, of a] relinked_flags [OF M(3)] by (simp add: node_flags_def fun_eq_iff)
  next
    fix j a assume "j < 3" "j \<noteq> k" "a \<in> set (Q j)"
    note a = current_taken_other [OF t this]
    then show "(M(c := None)) a = s_nodes s a \<and> (fl(c := unset_bit 0 (fl c))) a = fl a"
      using M(3) by (simp add: relinked_def split)
  qed simp_all
  then show ?thesis using M(1) cz
    by (intro exI [of _ "M(c := None)"] exI [of _ q2]) (simp add: scheduler_free_task_def set_queue_def)
qed

text \<open>Any other task is unlocked.\<close>

lemma current_taken_unlock:
  assumes t: "current_taken idle s Q fl k c as bs m q"
  shows "sched_rel idle (s\<lparr>s_nodes := (s_nodes s)(c \<mapsto> fst (scheduler_node_unlock m)),
       s_queues := (s_queues s)[k := q\<lparr>q_flags := unset_bit 0 (q_flags q)\<rparr>]\<rparr>)
     (Q(k := bs @ as @ [c])) (fl(c := unset_bit 0 (fl c)))"
proof -
  from t have s: "sched_rel idle s Q fl" and k: "k < 3" and split: "Q k = as @ c # bs"
    and q: "queue_ok idle ((s_nodes s)(c \<mapsto> m)) k q (bs @ as @ [c])" and fm: "flags (context_of m) = set_bit 0 (fl c)"
    by (simp_all add: current_taken_def)
  let ?N = "(s_nodes s)(c \<mapsto> m)"
  let ?m = "m\<lparr>context_of := (context_of m)\<lparr>flags := unset_bit 0 (flags (context_of m))\<rparr>\<rparr>"
  have m: "fst (scheduler_node_unlock m) = ?m"
    by (simp add: scheduler_node_unlock_def atomic_unlock_def SCHEDULER_CONTEXT_FLAG_LOCKED_def)
  show ?thesis unfolding m
  proof (rule sched_rel_update [OF s k])
    have "queue_ok idle (?N(c \<mapsto> ?m)) k q (bs @ as @ [c])"
      by (rule queue_ok_same_links [OF same_links_update q]) simp
    then show "queue_ok idle ((s_nodes s)(c \<mapsto> ?m)) k (q\<lparr>q_flags := unset_bit 0 (q_flags q)\<rparr>) (bs @ as @ [c])"
      by (simp add: queue_ok_lock)
    fix a assume "a \<in> set (bs @ as @ [c])"
    then have "a \<in> set (Q k)" by (auto simp: split)
    then show "node_flags ((s_nodes s)(c \<mapsto> ?m)) a = (fl(c := unset_bit 0 (fl c))) a"
      using current_taken_flags [OF t, of a] by (cases "a = c") (simp_all add: node_flags_def fm unset_set_bit_flags)
  next
    fix j a assume "j < 3" "j \<noteq> k" "a \<in> set (Q j)"
    then show "((s_nodes s)(c \<mapsto> ?m)) a = s_nodes s a \<and> (fl(c := unset_bit 0 (fl c))) a = fl a"
      using current_taken_other(2) [OF t] by simp
  qed simp_all
qed

lemma sched_rel_mutate:
  assumes s: "sched_rel idle s Q fl" and k: "k < 3" and c: "c \<in> set (Q k)"
  shows "\<exists>t. mutate_current idle c s = Some (of_nat k, t) \<and>
    sched_rel idle t (Q(k := spec_yield c Q fl k)) (fl(c := unset_bit 0 (fl c)))"
proof -
  note q = sched_relD [OF s k]
  obtain as bs where split: "Q k = as @ c # bs" using c by (auto simp: in_set_conv_decomp)
  have d: "distinct (Q k)" by (rule queue_ok_distinct [OF q(1)])
  obtain n where n: "s_nodes s c = Some n" "queue_num n = of_nat k" "nx (s_nodes s) c = n_next n"
    "node_flags (s_nodes s) c = flags (context_of n)"
    by (rule queue_ok_nodes [OF q(1) c])
  have i: "unat (queue_num n) = k" using n(2) k by (simp add: unat_of_nat)
  have cz: "c \<noteq> 0" "c \<noteq> idle" using q(1) c by (auto simp: queue_ok_def)
  have len: "k < length (s_queues s)" using s k by (simp add: sched_rel_def)
  have fl: "flags (context_of n) = fl c" using n(4) q(4) [OF c] by simp
  define qk where "qk = s_queues s ! k"
  define m where "m = n\<lparr>context_of := (context_of n)\<lparr>flags := set_bit 0 (flags (context_of n))\<rparr>\<rparr>"
  define q1 where "q1 = qk\<lparr>q_flags := set_bit 0 (q_flags qk), q_first := n_next n\<rparr>"
  note run = mutate_current_eq [OF cz n(1) i len q(2), folded qk_def m_def, folded q1_def, unfolded Let_def fl]
  let ?N = "(s_nodes s)(c \<mapsto> m)"
  have links: "same_links (s_nodes s) ?N" unfolding m_def by (rule same_links_update) (rule n(1))
  have "nx ?N c = n_next n" by (simp add: nx_def m_def)
  then have "queue_ok idle ?N k q1 (bs @ as @ [c])"
    using queue_ok_rotate [OF queue_ok_same_links [OF links q(1) [unfolded split]]]
    unfolding q1_def qk_def by (subst queue_ok_cong [where N = ?N]) (auto simp: queue_ok_lock)
  then have taken: "current_taken idle s Q fl k c as bs m q1"
    using s k split cz by (simp add: current_taken_def m_def fl)
  have yield: "spec_yield c Q fl k = bs @ as @ (if bit (fl c) 1 then [] else [c])"
    using behind_split [of c as bs] d by (simp add: spec_yield_def split)
  show ?thesis
  proof (cases "bit (fl c) 1")
    case True
    then show ?thesis using run current_taken_free [OF taken d] n(2) yield len
      by (auto simp: set_queue_def queue_at_def unlock_queue)
  next
    case False
    then show ?thesis using run current_taken_unlock [OF taken] n(2) yield len
      by (auto simp: node_update_def set_queue_def queue_at_def unlock_queue)
  qed
qed

end
