(* ===== verification/Scheduler_Props.thy ===== *)
theory Scheduler_Props
  imports Scheduler_Correct
begin

text \<open>
  The scheduler implements its specification: three lists of tasks, of which the first runnable
  one runs.  From the specification follows that tasks of one queue take turns.
\<close>

section \<open>Choosing a task\<close>

definition runnable :: "(addr \<Rightarrow> u64) \<Rightarrow> addr \<Rightarrow> bool" where
  "runnable fl a \<longleftrightarrow> fl a AND pass_flags = 0"

lemma bit_pass_flags: "bit pass_flags b \<longleftrightarrow> b = 0 \<or> b = 1"
proof -
  have "bit pass_flags b \<longleftrightarrow> bit (push_bit 0 1 :: u64) b \<or> bit (push_bit 1 1 :: u64) b"
    by (simp only: pass_flags_def SCHEDULER_CONTEXT_FLAG_LOCKED_def SCHEDULER_CONTEXT_FLAG_FINISHED_def bit_or_iff)
  then show ?thesis unfolding bit_push_bit_iff bit_1_iff by (auto simp: possible_bit_def)
qed

lemma runnable_bits: "runnable fl a \<longleftrightarrow> \<not> bit (fl a) 0 \<and> \<not> bit (fl a) 1"
proof -
  have "runnable fl a \<longleftrightarrow> (\<forall>b<64. bit (fl a) b \<longrightarrow> b \<noteq> 0 \<and> b \<noteq> 1)"
    by (auto simp: runnable_def bit_eq_iff [of "fl a AND pass_flags"] bit_and_iff bit_pass_flags)
  also have "\<dots> \<longleftrightarrow> \<not> bit (fl a) 0 \<and> \<not> bit (fl a) 1" by (metis one_less_numeral_iff semiring_norm(76) zero_less_numeral)
  finally show ?thesis .
qed

text \<open>The specification of the choice: the first runnable task, which is locked, or the idle task.\<close>

definition spec_pick :: "addr \<Rightarrow> (addr \<Rightarrow> u64) \<Rightarrow> addr list \<Rightarrow> addr" where
  "spec_pick idle fl xs = (case find (runnable fl) xs of None \<Rightarrow> idle | Some a \<Rightarrow> a)"

definition spec_lock :: "(addr \<Rightarrow> u64) \<Rightarrow> addr list \<Rightarrow> addr \<Rightarrow> u64" where
  "spec_lock fl xs = (case find (runnable fl) xs of None \<Rightarrow> fl | Some a \<Rightarrow> fl(a := set_bit 0 (fl a)))"

lemma sched_rel_timer: "sched_rel idle (timer_set_ticks v s) Q fl \<longleftrightarrow> sched_rel idle s Q fl"
  by (simp add: sched_rel_def timer_set_ticks_def local_apic_set_timer_count_def local_apic_set_register_def)

lemma sched_rel_lock_task:
  assumes s: "sched_rel idle s Q fl" and k: "k < 3" and a: "a \<in> set (Q k)" and n: "s_nodes s a = Some n"
  shows "sched_rel idle (s\<lparr>s_nodes := (s_nodes s)(a \<mapsto> fst (scheduler_node_lock n))\<rparr>) Q (fl(a := set_bit 0 (fl a)))"
proof -
  let ?m = "n\<lparr>context_of := (context_of n)\<lparr>flags := set_bit 0 (flags (context_of n))\<rparr>\<rparr>"
  have m: "fst (scheduler_node_lock n) = ?m"
    by (simp add: scheduler_node_lock_def atomic_lock_def SCHEDULER_CONTEXT_FLAG_LOCKED_def)
  have "same_links (s_nodes s) ((s_nodes s)(a \<mapsto> ?m))" by (rule same_links_update) (rule n)
  moreover have "flags (context_of n) = fl a" using sched_relD(4) [OF s k a] n by (simp add: node_flags_def)
  ultimately show ?thesis
    using s unfolding sched_rel_def m by (auto simp: node_flags_def intro: queue_ok_same_links)
qed

lemma find_in_queue_rel:
  assumes s: "sched_rel idle s Q fl" and k: "k < 3" and split: "Q k = as @ bs" and node: "bs \<noteq> [] \<Longrightarrow> node = hd bs"
  shows "case find (runnable fl) bs of
      None \<Rightarrow> find_in_queue beyond cq k (of_nat (length as)) node s = Some (0, s)
    | Some a \<Rightarrow> \<exists>t. find_in_queue beyond cq k (of_nat (length as)) node s = Some (a, t) \<and>
        sched_rel idle t Q (fl(a := set_bit 0 (fl a)))"
  using split node
proof (induction bs arbitrary: as node)
  case Nil
  then have "unat (q_num (s_queues s ! k)) = length as"
    using sched_relD(1) [OF s k] by (simp add: queue_ok_def)
  then have "of_nat (length as) = q_num (s_queues s ! k)" by (metis of_nat_unat_u64)
  then show ?case using sched_relD(3) [OF s k] by (simp add: find_in_queue.simps)
next
  case (Cons b bs)
  note q = sched_relD [OF s k]
  have b: "b \<in> set (Q k)" "node = b" using Cons.prems by simp_all
  obtain n where n: "s_nodes s b = Some n" "nx (s_nodes s) b = n_next n" "node_flags (s_nodes s) b = flags (context_of n)"
    by (rule queue_ok_nodes [OF q(1) b(1)])
  have fl: "flags (context_of n) = fl b" using q(4) [OF b(1)] n(3) by simp
  have num: "unat (q_num (s_queues s ! k)) = length as + length bs + 1"
    using q(1) Cons.prems(1) by (simp add: queue_ok_def)
  have "length as < 2 ^ 64" using num unat_u64_lt [of "q_num (s_queues s ! k)"] by simp
  then have less: "of_nat (length as) < q_num (s_queues s ! k)"
    using num by (simp add: word_less_nat_alt unat_of_nat)
  note run = find_in_queue.simps [of beyond cq k "of_nat (length as)" b s]
  show ?case
  proof (cases "runnable fl b")
    case True
    then have lock: "snd (scheduler_node_lock n)"
      by (simp add: scheduler_node_lock_def atomic_lock_def fl runnable_bits SCHEDULER_CONTEXT_FLAG_LOCKED_def)
    have "flags (context_of n) AND pass_flags = 0" using True by (simp add: fl runnable_def)
    then have "\<exists>t. find_in_queue beyond cq k (of_nat (length as)) node s = Some (b, t) \<and>
        sched_rel idle t Q (fl(b := set_bit 0 (fl b)))"
      using sched_rel_lock_task [OF s k b(1) n(1)] lock
      by (simp add: run q(3) less b(2) n(1) sched_rel_timer)
    then show ?thesis using True by simp
  next
    case False
    then have "flags (context_of n) AND pass_flags \<noteq> 0" by (simp add: fl runnable_def)
    then have run: "find_in_queue beyond cq k (of_nat (length as)) node s =
        find_in_queue beyond cq k (of_nat (length (as @ [b]))) (n_next n) s"
      by (simp add: run q(3) less b(2) n(1) add.commute)
    have "n_next n = hd bs" if ne: "bs \<noteq> []"
    proof -
      obtain c cs where "bs = c # cs" using ne by (meson neq_Nil_conv)
      then show ?thesis
        using q(1) ring_next [of "nx (s_nodes s)" "pv (s_nodes s)" as b c cs] Cons.prems(1) n(2) by (simp add: queue_ok_def)
    qed
    then show ?thesis
      using Cons.IH [of "as @ [b]" "n_next n"] Cons.prems(1) False unfolding run by simp
  qed
qed

lemma find_append: "find P (xs @ ys) = (case find P xs of None \<Rightarrow> find P ys | Some a \<Rightarrow> Some a)"
  by (induction xs) simp_all

lemma find_in_set: "find P xs = Some a \<Longrightarrow> a \<in> set xs"
  by (auto simp: find_Some_iff)

lemma find_next_rel:
  assumes s: "sched_rel idle s Q fl" and ks: "\<forall>k \<in> set ks. k < 3"
  shows "case find (runnable fl) (concat (map Q ks)) of
      None \<Rightarrow> find_next beyond cq ks s = Some (0, s)
    | Some a \<Rightarrow> \<exists>t. find_next beyond cq ks s = Some (a, t) \<and> sched_rel idle t Q (fl(a := set_bit 0 (fl a)))"
  using ks
proof (induction ks)
  case (Cons k ks)
  then have k: "k < 3" by simp
  note q = sched_relD [OF s k]
  have first: "q_first (s_queues s ! k) = 0 \<longleftrightarrow> Q k = []"
    using q(1) by (auto simp: queue_ok_def dest: hd_in_set)
  show ?case
  proof (cases "Q k = []")
    case True
    then have "find_next beyond cq (k # ks) s = find_next beyond cq ks s" using first q(3) by simp
    then show ?thesis using Cons True by (simp only: list.map concat.simps append_Nil) simp
  next
    case False
    have hd: "q_first (s_queues s ! k) = hd (Q k)" using q(1) False by (simp add: queue_ok_def)
    note r = find_in_queue_rel [OF s k, of "[]" "Q k" "hd (Q k)" beyond cq]
    have nz: "a \<noteq> 0" if "find (runnable fl) (Q k) = Some a" for a
      using find_in_set [OF that] q(1) by (auto simp: queue_ok_def)
    show ?thesis
      using Cons.IH Cons.prems r first False q(3) nz
      by (cases "find (runnable fl) (Q k)"; cases "find (runnable fl) (concat (map Q ks))")
        (auto simp: find_append hd SCHEDULER_CONTEXT_FLAG_LOCKED_def)
  qed
qed simp

section \<open>The next task\<close>

text \<open>
  The specification of \<open>scheduler_next_task\<close>: the task that ran goes behind the others of its queue, then the
  first runnable task in the order of the queues is locked and runs.
\<close>

definition spec_flags :: "addr \<Rightarrow> (nat \<Rightarrow> addr list) \<Rightarrow> (addr \<Rightarrow> u64) \<Rightarrow> addr \<Rightarrow> u64" where
  "spec_flags c Q fl = (if c \<in> set (Q 0 @ Q 1 @ Q 2) then fl(c := unset_bit 0 (fl c)) else fl)"

definition spec_next :: "addr \<Rightarrow> addr \<Rightarrow> (nat \<Rightarrow> addr list) \<Rightarrow> (addr \<Rightarrow> u64) \<Rightarrow> addr \<times> (nat \<Rightarrow> addr list) \<times> (addr \<Rightarrow> u64)" where
  "spec_next idle c Q fl =
     (let Q' = spec_yield c Q fl; fl' = spec_flags c Q fl; xs = Q' 0 @ Q' 1 @ Q' 2
      in (spec_pick idle fl' xs, Q', spec_lock fl' xs))"

lemma less_three: "k < 3 \<longleftrightarrow> k = 0 \<or> k = 1 \<or> k = (2 :: nat)"
  by auto

lemma sched_rel_cong:
  assumes "\<And>k. k < 3 \<Longrightarrow> Q k = Q' k"
  shows "sched_rel idle s Q fl \<longleftrightarrow> sched_rel idle s Q' fl"
  using assms by (simp add: sched_rel_def)

lemma sched_rel_yield:
  assumes s: "sched_rel idle s Q fl" and c: "c = 0 \<or> c = idle \<or> (\<exists>k<3. c \<in> set (Q k))"
  shows "\<exists>t cq. mutate_current idle c s = Some (cq, t) \<and> sched_rel idle t (spec_yield c Q fl) (spec_flags c Q fl)"
proof (cases "\<exists>k<3. c \<in> set (Q k)")
  case True
  then obtain k where k: "k < 3" "c \<in> set (Q k)" by blast
  obtain t where t: "mutate_current idle c s = Some (of_nat k, t)"
    "sched_rel idle t (Q(k := spec_yield c Q fl k)) (fl(c := unset_bit 0 (fl c)))"
    using sched_rel_mutate [OF s k] by blast
  have "(Q(k := spec_yield c Q fl k)) j = spec_yield c Q fl j" if "j < 3" for j
    using sched_rel_disjoint [OF s k(1) that k(2)] by (auto simp: spec_yield_def)
  moreover have "spec_flags c Q fl = fl(c := unset_bit 0 (fl c))"
    using k by (auto simp: spec_flags_def less_three)
  ultimately have "sched_rel idle t (spec_yield c Q fl) (spec_flags c Q fl)"
    using t(2) sched_rel_cong [of "Q(k := spec_yield c Q fl k)"] by metis
  then show ?thesis using t(1) by blast
next
  case False
  then have "c = 0 \<or> c = idle" using c by blast
  moreover have "spec_yield c Q fl j = Q j" if "j < 3" for j using False that by (simp add: spec_yield_def)
  moreover have "spec_flags c Q fl = fl" using False by (auto simp: spec_flags_def less_three)
  ultimately show ?thesis using s mutate_none [of c idle s] sched_rel_cong [of "spec_yield c Q fl" Q] by auto
qed

lemma sched_rel_next:
  assumes s: "sched_rel idle s Q fl" and c: "c = 0 \<or> c = idle \<or> (\<exists>k<3. c \<in> set (Q k))"
  shows "\<exists>t. scheduler_next_task beyond idle c s = Some (fst (spec_next idle c Q fl), t) \<and>
    sched_rel idle t (fst (snd (spec_next idle c Q fl))) (snd (snd (spec_next idle c Q fl)))"
proof -
  obtain t cq where t: "mutate_current idle c s = Some (cq, t)" "sched_rel idle t (spec_yield c Q fl) (spec_flags c Q fl)"
    using sched_rel_yield [OF s c] by blast
  let ?Q = "spec_yield c Q fl" and ?fl = "spec_flags c Q fl"
  let ?xs = "?Q 0 @ ?Q 1 @ ?Q 2"
  have ks: "[0..<SCHEDULER_QUEUES_NUM] = [0, 1, 2]" by (simp add: SCHEDULER_QUEUES_NUM_def upt_rec)
  have nz: "a \<noteq> 0" if "a \<in> set ?xs" for a
    using sched_relD(1) [OF t(2)] that by (auto simp: queue_ok_def)
  note r = find_next_rel [OF t(2), of "[0, 1, 2]" beyond cq]
  show ?thesis
  proof (cases "find (runnable ?fl) ?xs")
    case None
    then show ?thesis using t r by (simp add: scheduler_next_task_def ks spec_next_def spec_pick_def spec_lock_def Let_def
          del: find_next.simps)
  next
    case (Some a)
    then have "a \<noteq> 0" using nz find_in_set by metis
    then show ?thesis
      using Some t r by (auto simp: scheduler_next_task_def ks spec_next_def spec_pick_def spec_lock_def Let_def
          simp del: find_next.simps)
  qed
qed

section \<open>Several processors\<close>




text \<open>
  The processors share the queues; \<open>cur p\<close> is the node the processor \<open>p\<close> runs, 0 before it entered the
  scheduler.  Calls of different processors are interleaved; a running task may finish, and
  tasks may be added.
\<close>

definition finish_task :: "addr \<Rightarrow> 'a sc \<Rightarrow> 'a sc option" where
  "finish_task = node_update (\<lambda>n. n\<lparr>context_of := (context_of n)\<lparr>flags := set_bit SCHEDULER_CONTEXT_FLAG_FINISHED (flags (context_of n))\<rparr>\<rparr>)"

inductive sched_step :: "(u64 \<Rightarrow> u64) \<Rightarrow> addr \<Rightarrow> (nat \<Rightarrow> addr) \<times> 'a sc \<Rightarrow> (nat \<Rightarrow> addr) \<times> 'a sc \<Rightarrow> bool"
  for beyond :: "u64 \<Rightarrow> u64" and idle :: addr where
  switch: "scheduler_next_task beyond idle (cur p) s = Some (a, t) \<Longrightarrow> sched_step beyond idle (cur, s) (cur(p := a), t)"
| add: "s_nodes s m = None \<Longrightarrow> m \<noteq> idle \<Longrightarrow> scheduler_add_task m st q s = Some (m, t) \<Longrightarrow>
    sched_step beyond idle (cur, s) (cur, t)"
| finish: "cur p \<noteq> 0 \<Longrightarrow> cur p \<noteq> idle \<Longrightarrow> finish_task (cur p) s = Some t \<Longrightarrow> sched_step beyond idle (cur, s) (cur, t)"

inductive sched_reach :: "(u64 \<Rightarrow> u64) \<Rightarrow> addr \<Rightarrow> (nat \<Rightarrow> addr) \<times> 'a sc \<Rightarrow> bool"
  for beyond :: "u64 \<Rightarrow> u64" and idle :: addr where
  init: "sched_reach beyond idle (\<lambda>_. 0, scheduler_init s)"
| step: "sched_reach beyond idle x \<Longrightarrow> sched_step beyond idle x y \<Longrightarrow> sched_reach beyond idle y"






section \<open>Turns\<close>

primrec sched_run :: "(u64 \<Rightarrow> u64) \<Rightarrow> addr \<Rightarrow> nat \<Rightarrow> addr \<Rightarrow> 'a sc \<Rightarrow> addr list option" where
  "sched_run beyond idle 0 c s = Some []"
| "sched_run beyond idle (Suc n) c s = do {
     (a, s) \<leftarrow> scheduler_next_task beyond idle c s;
     as \<leftarrow> sched_run beyond idle n a s;
     Some (a # as) }"

lemma queue_prefix_find:
  assumes "k < (3 :: nat)" "\<forall>j<k. Q j = []" "Q k = a # xs" "P a"
  shows "find P (Q 0 @ Q 1 @ Q 2) = Some a"
  using assms by (auto simp: less_three)

lemma turn_step:
  assumes s: "sched_rel idle s Q (fl(c := set_bit 0 (fl c)))" and k: "k < 3" "\<forall>j<k. Q j = []" "Q k = c # ys"
    and run: "\<forall>a \<in> set (Q k). runnable fl a"
  defines "a \<equiv> hd (ys @ [c])"
  shows "\<exists>t. scheduler_next_task beyond idle c s = Some (a, t) \<and>
    sched_rel idle t (Q(k := ys @ [c])) (fl(a := set_bit 0 (fl a)))"
proof -
  let ?fl = "fl(c := set_bit 0 (fl c))"
  have c: "c \<in> set (Q k)" "\<not> bit (fl c) 0" "\<not> bit (fl c) 1" using k(3) run by (auto simp: runnable_bits)
  have yield: "spec_yield c Q ?fl j = (Q(k := ys @ [c])) j" if "j < 3" for j
  proof (cases "j = k")
    case True
    then show ?thesis using c k(3) behind_split [of c "[]" ys] by (simp add: spec_yield_def)
  next
    case False
    then have "c \<notin> set (Q j)" using sched_rel_disjoint [OF s that k(1) _ c(1)] by auto
    then show ?thesis using False by (simp add: spec_yield_def)
  qed
  have flags: "spec_flags c Q ?fl = fl"
    using c k by (auto simp: spec_flags_def less_three)
  have "a \<in> set (Q k)" using k(3) by (cases ys) (simp_all add: a_def)
  then have "runnable fl a" using run by blast
  then have find: "find (runnable fl) (spec_yield c Q ?fl 0 @ spec_yield c Q ?fl 1 @ spec_yield c Q ?fl 2) = Some a"
    using queue_prefix_find [of k "spec_yield c Q ?fl" a "tl (ys @ [c])" "runnable fl"] k yield
    by (simp add: a_def)
  have next_eq: "spec_next idle c Q ?fl = (a, spec_yield c Q ?fl, fl(a := set_bit 0 (fl a)))"
    using find by (simp add: spec_next_def Let_def flags spec_pick_def spec_lock_def)
  obtain t where t: "scheduler_next_task beyond idle c s = Some (a, t)"
    "sched_rel idle t (spec_yield c Q ?fl) (fl(a := set_bit 0 (fl a)))"
    using sched_rel_next [OF s, of c beyond] c(1) k(1) unfolding next_eq by auto
  moreover have "sched_rel idle t (Q(k := ys @ [c])) (fl(a := set_bit 0 (fl a)))"
    by (subst sched_rel_cong [of _ "spec_yield c Q ?fl"]) (use t(2) yield in simp_all)
  ultimately show ?thesis by blast
qed

lemma turns:
  assumes "sched_rel idle s Q (fl(c := set_bit 0 (fl c)))" "k < 3" "\<forall>j<k. Q j = []" "Q k = c # ys"
    "\<forall>a \<in> set (Q k). runnable fl a"
  shows "sched_run beyond idle n c s = Some (map (\<lambda>i. hd (rotate (Suc i) (Q k))) [0..<n])"
  using assms
proof (induction n arbitrary: s Q c ys)
  case (Suc n)
  let ?zs = "ys @ [c]"
  have rot: "rotate1 (Q k) = ?zs" using Suc.prems(4) by simp
  obtain t where t: "scheduler_next_task beyond idle c s = Some (hd ?zs, t)"
    "sched_rel idle t (Q(k := ?zs)) (fl(hd ?zs := set_bit 0 (fl (hd ?zs))))"
    using turn_step [OF Suc.prems] by blast
  have "sched_run beyond idle n (hd ?zs) t = Some (map (\<lambda>i. hd (rotate (Suc i) ((Q(k := ?zs)) k))) [0..<n])"
    by (rule Suc.IH [where ys = "tl ?zs", OF t(2)]) (use Suc.prems in auto)
  also have "\<dots> = Some (map (\<lambda>i. hd (rotate (Suc (Suc i)) (Q k))) [0..<n])"
    by (simp add: rot [symmetric] rotate1_rotate_swap)
  finally show ?case
    using t(1) rot by (simp add: upt_conv_Cons map_Suc_upt [symmetric] comp_def del: upt_Suc)
qed simp

section \<open>Properties\<close>

text \<open>A scheduler with two tasks in the regular queue, for the examples.\<close>

definition example_sc :: scheduler_state where
  "example_sc = \<lparr>mem = \<lambda>_. 0, ports = [], s_memory_total_size = 0, s_memory_used_size = 0, s_memory_reserved_size = 0,
     s_pageframemap = \<lparr>bm_buffer = 0, bm_size = 0\<rparr>, s_current_index = 0, s_mutex = 0, s_pagetable_l4 = 0,
     s_madt = 0, s_madt_info = \<lparr>local_apic_ptr = 0, processors = [], ioapics = [], isos = [], nmis = []\<rparr>,
     s_nodes = Map.empty, s_queues = [], s_tid_accumulator = 1\<rparr>"

definition example_task :: SchedulerTaskInitialState where
  "example_task = \<lparr>is_general = zero_registers, is_entry = 0x400000, is_stack = 0x7000, is_rpl = 3\<rparr>"

lemma zero_flags: "(\<lambda>_. 0)(a := 0) = (\<lambda>_. 0 :: u64)"
  by auto

lemma example_two_tasks:
  obtains s :: scheduler_state where "sched_reach (\<lambda>_. 0) 0x10 (\<lambda>_. 0, s)"
    "sched_rel 0x10 s ((\<lambda>_. [])(1 := [0x1000, 0x2000])) (\<lambda>_. 0)"
proof -
  let ?Q = "\<lambda>_. [] :: addr list" and ?R = SCHEDULER_QUEUE_REGULAR
  have s0: "sched_rel 0x10 (scheduler_init example_sc) ?Q (\<lambda>_. 0)" by (rule scheduler_init_rel)
  have e: "s_nodes (scheduler_init example_sc) a = None" for a by (simp add: scheduler_init_def example_sc_def)
  obtain s1 where s1: "scheduler_add_task 0x1000 example_task ?R (scheduler_init example_sc) = Some (0x1000, s1)"
    "sched_rel 0x10 s1 (?Q(1 := [0x1000])) (\<lambda>_. 0)" "s_nodes s1 0x2000 = None"
    using sched_rel_add_task [where qn = ?R and p = "0x1000" and st = example_task, OF s0 _ _ e] e by (auto simp: zero_flags)
  obtain s2 where s2: "scheduler_add_task 0x2000 example_task ?R s1 = Some (0x2000, s2)"
    "sched_rel 0x10 s2 (?Q(1 := [0x1000, 0x2000])) (\<lambda>_. 0)"
    using sched_rel_add_task [where qn = ?R and p = "0x2000" and st = example_task, OF s1(2) _ _ s1(3)] by (auto simp: zero_flags)
  have "sched_reach (\<lambda>_. 0) 0x10 (\<lambda>_. 0, s2)"
    by (rule sched_reach.step [OF sched_reach.step [OF sched_reach.init sched_step.add [OF e _ s1(1)]]
        sched_step.add [OF s1(3) _ s2(1)]]) simp_all
  then show ?thesis using s2(2) that by blast
qed

text \<open>
  C2. \<open>scheduler_next_task\<close> implements its specification: from queues that represent the lists
  \<open>Q\<close> and flags \<open>fl\<close>, with a current task that is queued (or none, or the idle task), it always
  returns; the current task is unlocked and goes behind the other tasks of its queue, or
  leaves the queue when it is finished; and the result is the first task in the order of the
  priorities and of the queue that is neither locked nor finished, now locked, or the idle
  node when there is none.
\<close>

theorem scheduler_next_task_refines:
  assumes "sched_rel idle s Q fl" and "c = 0 \<or> c = idle \<or> (\<exists>k<3. c \<in> set (Q k))"
  shows "\<exists>t. scheduler_next_task beyond idle c s = Some (fst (spec_next idle c Q fl), t) \<and>
    sched_rel idle t (fst (snd (spec_next idle c Q fl))) (snd (snd (spec_next idle c Q fl)))"
  by (rule sched_rel_next [OF assms])

theorem scheduler_next_task_refines_witness:
  "\<exists>(s :: scheduler_state) t. scheduler_next_task (\<lambda>_. 0) 0x10 0 s = Some (0x1000, t) \<and>
     sched_rel 0x10 t ((\<lambda>_. [])(1 := [0x1000, 0x2000])) ((\<lambda>_. 0)(0x1000 := 1))"
proof -
  let ?Q = "(\<lambda>_. [])(1 := [0x1000, 0x2000]) :: nat \<Rightarrow> addr list"
  obtain s :: scheduler_state where s: "sched_rel 0x10 s ?Q (\<lambda>_. 0)" by (rule example_two_tasks)
  have "spec_yield 0 ?Q (\<lambda>_. 0) = ?Q" by (rule ext) (simp add: spec_yield_def)
  moreover have "runnable (\<lambda>_. 0) a" for a by (simp add: runnable_def)
  ultimately have "spec_next 0x10 0 ?Q (\<lambda>_. 0) = (0x1000, ?Q, (\<lambda>_. 0)(0x1000 := 1))"
    by (simp add: spec_next_def spec_flags_def spec_pick_def spec_lock_def set_bit_eq)
  then show ?thesis
    using scheduler_next_task_refines [OF s, of 0 "\<lambda>_. 0"] by auto
qed





text \<open>
  C13. Tasks take turns: while the queue \<open>k\<close> holds runnable tasks only and no queue of higher priority
  has a task, a processor that calls \<open>scheduler_next_task\<close> again and again runs the tasks of the queue in
  its order, from the first to the last and from the first again; every one of them runs once
  in as many calls as the queue has tasks, and no task of a lower queue runs.
\<close>

theorem scheduler_round_robin:
  assumes "sched_rel idle s Q fl" and "k < 3" "\<forall>j<k. Q j = []" "Q k \<noteq> []" and "\<forall>a \<in> set (Q k). runnable fl a"
  shows "sched_run beyond idle n idle s = Some (map (\<lambda>i. Q k ! (i mod length (Q k))) [0..<n])"
proof (cases n)
  case (Suc m)
  obtain c ys where cs: "Q k = c # ys" using assms(4) by (meson neq_Nil_conv)
  have yield: "spec_yield idle Q fl j = Q j" if "j < 3" for j
    using sched_relD(1) [OF assms(1) that] by (auto simp: spec_yield_def queue_ok_def)
  have flags: "spec_flags idle Q fl = fl"
    using sched_relD(1) [OF assms(1)] by (auto simp: spec_flags_def queue_ok_def)
  have "find (runnable fl) (Q 0 @ Q 1 @ Q 2) = Some c"
    by (rule queue_prefix_find [OF assms(2,3) cs]) (use assms(5) cs in simp)
  then have "spec_next idle idle Q fl = (c, spec_yield idle Q fl, fl(c := set_bit 0 (fl c)))"
    by (simp add: spec_next_def Let_def flags yield spec_pick_def spec_lock_def)
  then obtain t where t: "scheduler_next_task beyond idle idle s = Some (c, t)"
    "sched_rel idle t (spec_yield idle Q fl) (fl(c := set_bit 0 (fl c)))"
    using sched_rel_next [OF assms(1), of idle beyond] by auto
  have "sched_rel idle t Q (fl(c := set_bit 0 (fl c)))"
    by (subst sched_rel_cong [of _ "spec_yield idle Q fl"]) (use t(2) yield in simp_all)
  then have "sched_run beyond idle m c t = Some (map (\<lambda>i. hd (rotate (Suc i) (Q k))) [0..<m])"
    by (rule turns [OF _ assms(2,3) cs assms(5)])
  then have "sched_run beyond idle n idle s = Some (map (\<lambda>i. hd (rotate i (Q k))) [0..<n])"
    using t(1) Suc cs by (simp add: upt_conv_Cons map_Suc_upt [symmetric] comp_def del: upt_Suc)
  then show ?thesis using assms(4) by (simp add: hd_rotate_conv_nth)
qed simp

theorem scheduler_round_robin_witness:
  "\<exists>s :: scheduler_state. sched_run (\<lambda>_. 0) 0x10 3 0x10 s = Some [0x1000, 0x2000, 0x1000]"
proof -
  let ?Q = "(\<lambda>_. [])(1 := [0x1000, 0x2000]) :: nat \<Rightarrow> addr list"
  obtain s :: scheduler_state where s: "sched_rel 0x10 s ?Q (\<lambda>_. 0)" by (rule example_two_tasks)
  have "sched_run (\<lambda>_. 0) 0x10 3 0x10 s = Some (map (\<lambda>i. ?Q 1 ! (i mod length (?Q 1))) [0..<3])"
    by (rule scheduler_round_robin [OF s]) (simp_all add: runnable_def)
  then show ?thesis by (intro exI [of _ s]) (simp add: upt_rec)
qed

end
