(* ===== verification/Elf.thy ===== *)
theory Elf
  imports Machine
begin

text \<open>
  \<^verbatim>\<open>elf.h\<close>: the headers, sections and symbols of an ELF file for 64 bit machines, as the packed structures
  of the header describe them, with the readers from memory.
\<close>

section \<open>Kinds of sections and symbols\<close>

datatype ELFSectionHeaderType =
  ELF_SECTION_HEADER_TYPE_NULL | ELF_SECTION_HEADER_TYPE_PROGBITS | ELF_SECTION_HEADER_TYPE_SYMTAB
| ELF_SECTION_HEADER_TYPE_STRTAB | ELF_SECTION_HEADER_TYPE_RELA | ELF_SECTION_HEADER_TYPE_HASH
| ELF_SECTION_HEADER_TYPE_DYNAMIC | ELF_SECTION_HEADER_TYPE_NOTE | ELF_SECTION_HEADER_TYPE_NOBITS
| ELF_SECTION_HEADER_TYPE_REL | ELF_SECTION_HEADER_TYPE_SHLIB | ELF_SECTION_HEADER_TYPE_DYNSYM
| ELF_SECTION_HEADER_TYPE_INIT_ARRAY | ELF_SECTION_HEADER_TYPE_FINI_ARRAY
| ELF_SECTION_HEADER_TYPE_PREINIT_ARRAY | ELF_SECTION_HEADER_TYPE_GROUP
| ELF_SECTION_HEADER_TYPE_SYMTAB_SHNDX | ELF_SECTION_HEADER_TYPE_NUM | ELF_SECTION_HEADER_TYPE_LOOS

primrec section_header_type :: "ELFSectionHeaderType \<Rightarrow> u32" where
  "section_header_type ELF_SECTION_HEADER_TYPE_NULL = 0x00"
| "section_header_type ELF_SECTION_HEADER_TYPE_PROGBITS = 0x01"
| "section_header_type ELF_SECTION_HEADER_TYPE_SYMTAB = 0x02"
| "section_header_type ELF_SECTION_HEADER_TYPE_STRTAB = 0x03"
| "section_header_type ELF_SECTION_HEADER_TYPE_RELA = 0x04"
| "section_header_type ELF_SECTION_HEADER_TYPE_HASH = 0x05"
| "section_header_type ELF_SECTION_HEADER_TYPE_DYNAMIC = 0x06"
| "section_header_type ELF_SECTION_HEADER_TYPE_NOTE = 0x07"
| "section_header_type ELF_SECTION_HEADER_TYPE_NOBITS = 0x09"
| "section_header_type ELF_SECTION_HEADER_TYPE_REL = 0x0a"
| "section_header_type ELF_SECTION_HEADER_TYPE_SHLIB = 0x0b"
| "section_header_type ELF_SECTION_HEADER_TYPE_DYNSYM = 0x0c"
| "section_header_type ELF_SECTION_HEADER_TYPE_INIT_ARRAY = 0x0e"
| "section_header_type ELF_SECTION_HEADER_TYPE_FINI_ARRAY = 0x0f"
| "section_header_type ELF_SECTION_HEADER_TYPE_PREINIT_ARRAY = 0x10"
| "section_header_type ELF_SECTION_HEADER_TYPE_GROUP = 0x11"
| "section_header_type ELF_SECTION_HEADER_TYPE_SYMTAB_SHNDX = 0x12"
| "section_header_type ELF_SECTION_HEADER_TYPE_NUM = 0x13"
| "section_header_type ELF_SECTION_HEADER_TYPE_LOOS = 0x60000000"

datatype ELFSymbolInfoType =
  ELF_SYMBOL_INFO_TYPE_NOTYPE | ELF_SYMBOL_INFO_TYPE_OBJECT | ELF_SYMBOL_INFO_TYPE_FUNC
| ELF_SYMBOL_INFO_TYPE_SECTION | ELF_SYMBOL_INFO_TYPE_FILE | ELF_SYMBOL_INFO_TYPE_COMMON
| ELF_SYMBOL_INFO_TYPE_TLS | ELF_SYMBOL_INFO_TYPE_LLOS | ELF_SYMBOL_INFO_TYPE_HIOS
| ELF_SYMBOL_INFO_TYPE_LOPROC | ELF_SYMBOL_INFO_TYPE_SPARC_REGISTER | ELF_SYMBOL_INFO_TYPE_HIPROC

primrec symbol_info_type :: "ELFSymbolInfoType \<Rightarrow> u8" where
  "symbol_info_type ELF_SYMBOL_INFO_TYPE_NOTYPE = 0x00"
| "symbol_info_type ELF_SYMBOL_INFO_TYPE_OBJECT = 0x01"
| "symbol_info_type ELF_SYMBOL_INFO_TYPE_FUNC = 0x02"
| "symbol_info_type ELF_SYMBOL_INFO_TYPE_SECTION = 0x03"
| "symbol_info_type ELF_SYMBOL_INFO_TYPE_FILE = 0x04"
| "symbol_info_type ELF_SYMBOL_INFO_TYPE_COMMON = 0x05"
| "symbol_info_type ELF_SYMBOL_INFO_TYPE_TLS = 0x06"
| "symbol_info_type ELF_SYMBOL_INFO_TYPE_LLOS = 0x0a"
| "symbol_info_type ELF_SYMBOL_INFO_TYPE_HIOS = 0x0c"
| "symbol_info_type ELF_SYMBOL_INFO_TYPE_LOPROC = 0x0d"
| "symbol_info_type ELF_SYMBOL_INFO_TYPE_SPARC_REGISTER = 0x0e"
| "symbol_info_type ELF_SYMBOL_INFO_TYPE_HIPROC = 0x0f"

section \<open>Structures\<close>

record ELF64Header =
  e_ident :: "u8 list"
  e_type :: u16
  e_machine :: u16
  e_version :: u32
  e_entry :: u64
  e_phoff :: u64
  e_shoff :: u64
  e_flags :: u32
  e_ehsize :: u16
  e_phentsize :: u16
  e_phnum :: u16
  e_shentsize :: u16
  e_shnum :: u16
  e_shstrndx :: u16

definition get_ELF64Header :: "memory \<Rightarrow> addr \<Rightarrow> ELF64Header" where
  "get_ELF64Header m a = \<lparr>e_ident = load_array 16 m a, e_type = load16 m (a + 16), e_machine = load16 m (a + 18),
     e_version = load32 m (a + 20), e_entry = load64 m (a + 24), e_phoff = load64 m (a + 32),
     e_shoff = load64 m (a + 40), e_flags = load32 m (a + 48), e_ehsize = load16 m (a + 52),
     e_phentsize = load16 m (a + 54), e_phnum = load16 m (a + 56),
     e_shentsize = load16 m (a + 58), e_shnum = load16 m (a + 60),
     e_shstrndx = load16 m (a + 62)\<rparr>"

definition sizeof_ELF64Header :: u64 where "sizeof_ELF64Header = 64"

record ELF64SectionHeader =
  sh_name :: u32
  sh_type :: u32
  sh_flags :: u64
  sh_addr :: u64
  sh_offset :: u64
  sh_size :: u64
  sh_link :: u32
  sh_info :: u32
  sh_addralign :: u64
  sh_entsize :: u64

definition get_ELF64SectionHeader :: "memory \<Rightarrow> addr \<Rightarrow> ELF64SectionHeader" where
  "get_ELF64SectionHeader m a = \<lparr>sh_name = load32 m a, sh_type = load32 m (a + 4), sh_flags = load64 m (a + 8),
     sh_addr = load64 m (a + 16), sh_offset = load64 m (a + 24), sh_size = load64 m (a + 32),
     sh_link = load32 m (a + 40), sh_info = load32 m (a + 44),
     sh_addralign = load64 m (a + 48), sh_entsize = load64 m (a + 56)\<rparr>"

definition sizeof_ELF64SectionHeader :: u64 where "sizeof_ELF64SectionHeader = 64"

record ELF64Symbol =
  st_name :: u32
  st_info :: u8
  st_other :: u8
  st_shndx :: u16
  st_value :: u64
  st_size :: u64

definition get_ELF64Symbol :: "memory \<Rightarrow> addr \<Rightarrow> ELF64Symbol" where
  "get_ELF64Symbol m a = \<lparr>st_name = load32 m a, st_info = m (a + 4), st_other = m (a + 5), st_shndx = load16 m (a + 6),
     st_value = load64 m (a + 8), st_size = load64 m (a + 16)\<rparr>"

definition sizeof_ELF64Symbol :: u64 where "sizeof_ELF64Symbol = 24"

end
