(* ===== verification/Symbol.thy ===== *)
theory Symbol
  imports Elf Pageframe
begin

text \<open>
  \<^verbatim>\<open>symbols/symbol.c\<close>: the map from addresses to the kernel's own symbols, read from the ELF file the
  boot loader passes on, and \<^verbatim>\<open>symbols/unwind.c\<close>: the walk through the stack frames.  The map is an array in
  page frames of its own; indexes and addresses are computed modulo \<open>2 ^ 64\<close>, so that an access
  in front of the array is an access to that memory.
\<close>

section \<open>Data\<close>

definition SYMBOL_FIND_FAIL :: u64 where "SYMBOL_FIND_FAIL = - 1"

record SymbolMap =
  sm_address :: u64
  sm_symbol_index :: u64

definition sizeof_SymbolMap :: u64 where "sizeof_SymbolMap = 16"

definition get_SymbolMap :: "memory \<Rightarrow> addr \<Rightarrow> SymbolMap" where
  "get_SymbolMap m a = \<lparr>sm_address = load64 m a, sm_symbol_index = load64 m (a + 8)\<rparr>"

definition put_SymbolMap :: "memory \<Rightarrow> addr \<Rightarrow> SymbolMap \<Rightarrow> memory" where
  "put_SymbolMap m a e = store64 (store64 m a (sm_address e)) (a + 8) (sm_symbol_index e)"

record SymbolTableInformation =
  section_headers :: addr
  section_headers_num :: u64
  symbol_entries :: addr
  symbol_entries_num :: u64
  symbol_strings :: addr
  symbol_strings_size :: u64
  section_strings :: addr
  section_strings_size :: u64
  symbol_map :: addr
  symbol_map_num :: u64

section \<open>Reading the sections\<close>

definition section_at :: "memory \<Rightarrow> addr \<Rightarrow> u64 \<Rightarrow> ELF64SectionHeader" where
  "section_at m headers i = get_ELF64SectionHeader m (headers + i * sizeof_ELF64SectionHeader)"

definition symbol_section ::
    "addr \<Rightarrow> u64 \<Rightarrow> u64 \<Rightarrow> SymbolTableInformation \<times> 'a pf \<Rightarrow> (SymbolTableInformation \<times> 'a pf) option" where
  "symbol_section header string_index i = (\<lambda>(tab, s).
     let h = section_at (mem s) (section_headers tab) i
     in if sh_type h = section_header_type ELF_SECTION_HEADER_TYPE_SYMTAB then do {
          let table = header + sh_offset h;
          n \<leftarrow> (if sh_entsize h = 0 then None else Some (sh_size h div sh_entsize h));
          s \<leftarrow> pageframe_reserve_size table (sh_size h) s;
          Some (tab\<lparr>symbol_entries := table, symbol_entries_num := n\<rparr>, s) }
        else if sh_type h = section_header_type ELF_SECTION_HEADER_TYPE_STRTAB then do {
          let table = header + sh_offset h;
          let sz = sh_size h;
          s \<leftarrow> pageframe_reserve_size table sz s;
          Some (if string_index = i then tab\<lparr>section_strings := table, section_strings_size := sz\<rparr>
            else tab\<lparr>symbol_strings := table, symbol_strings_size := sz\<rparr>, s) }
        else Some (tab, s))"

section \<open>Building the map\<close>

definition symbol_at :: "memory \<Rightarrow> addr \<Rightarrow> u64 \<Rightarrow> ELF64Symbol" where
  "symbol_at m syms i = get_ELF64Symbol m (syms + i * sizeof_ELF64Symbol)"

definition count_symbols :: "memory \<Rightarrow> addr \<Rightarrow> u64 \<Rightarrow> u64" where
  "count_symbols m syms n = word_for 0 n (\<lambda>i c. if st_value (symbol_at m syms i) = 0 then c else c + 1) 0"

definition map_slot :: "addr \<Rightarrow> u64 \<Rightarrow> addr" where
  "map_slot base j = base + j * sizeof_SymbolMap"

text \<open>The inner loop of the insertion sort.  The condition \<open>j >= 0\<close> is always true, as \<open>j\<close> is unsigned.\<close>

partial_function (option) insert_loop :: "addr \<Rightarrow> u64 \<Rightarrow> u64 \<Rightarrow> memory \<Rightarrow> (u64 \<times> memory) option" where
  "insert_loop base v j m =
     (if sm_address (get_SymbolMap m (map_slot base j)) > v
      then insert_loop base v (j - 1) (put_SymbolMap m (map_slot base (j + 1)) (get_SymbolMap m (map_slot base j)))
      else Some (j, m))"

declare insert_loop.simps [code]

definition insert_symbol :: "addr \<Rightarrow> addr \<Rightarrow> u64 \<Rightarrow> u64 \<times> memory \<Rightarrow> (u64 \<times> memory) option" where
  "insert_symbol base syms i = (\<lambda>(ai, m).
     let v = st_value (symbol_at m syms i)
     in if v = 0 then Some (ai, m)
        else do {
          (j, m) \<leftarrow> (if ai \<ge> 1 then insert_loop base v (ai - 1) m else Some (ai - 1, m));
          Some (ai + 1, put_SymbolMap m (map_slot base (j + 1)) \<lparr>sm_address = v, sm_symbol_index = i\<rparr>) })"

definition fill_map :: "addr \<Rightarrow> addr \<Rightarrow> u64 \<Rightarrow> memory \<Rightarrow> (u64 \<times> memory) option" where
  "fill_map base syms n m = word_for_opt 0 n (insert_symbol base syms) (0, m)"

definition symbol_init :: "addr \<Rightarrow> SymbolTableInformation \<times> 'a pf \<Rightarrow> (SymbolTableInformation \<times> 'a pf) option" where
  "symbol_init header = (\<lambda>(tab, s). do {
     s \<leftarrow> pageframe_reserve_size header (ucast (e_ehsize (get_ELF64Header (mem s) header))) s;
     let h = get_ELF64Header (mem s) header;
     let headers = header + e_shoff h;
     let num = ucast (e_shnum h);
     let string_index = ucast (e_shstrndx h);
     s \<leftarrow> pageframe_reserve_size headers (num * ucast (e_shentsize h)) s;
     let tab = tab\<lparr>section_headers := headers, section_headers_num := num\<rparr>;
     (tab, s) \<leftarrow> word_for_opt 0 num (symbol_section header string_index) (tab, s);
     let n = count_symbols (mem s) (symbol_entries tab) (symbol_entries_num tab);
     (base, s) \<leftarrow> pageframe_request_pages (NEAREST_PAGE (n * sizeof_SymbolMap)) s;
     (ai, m) \<leftarrow> fill_map base (symbol_entries tab) (symbol_entries_num tab) (mem s);
     Some (tab\<lparr>symbol_map := base, symbol_map_num := n\<rparr>, s\<lparr>mem := m\<rparr>) })"

section \<open>Looking up an address\<close>

definition map_address :: "memory \<Rightarrow> addr \<Rightarrow> u64 \<Rightarrow> u64" where
  "map_address m base i = sm_address (get_SymbolMap m (map_slot base i))"

partial_function (option) resolve_loop :: "memory \<Rightarrow> addr \<Rightarrow> u64 \<Rightarrow> u64 \<Rightarrow> u64 \<Rightarrow> u64 \<Rightarrow> u64 option" where
  "resolve_loop m base address mx low high =
     (if low \<le> high \<and> low \<le> mx - 1 then
        let mid = (low + high) div 2; v = map_address m base mid; v_next = map_address m base (mid + 1)
        in if v \<le> address \<and> v_next > address then Some mid
           else if v > address then resolve_loop m base address mx low (mid - 1)
           else resolve_loop m base address mx (mid + 1) high
      else if low > mx - 1 then Some mx
      else Some SYMBOL_FIND_FAIL)"

declare resolve_loop.simps [code]

definition symbol_resolve :: "memory \<Rightarrow> SymbolTableInformation \<Rightarrow> u64 \<Rightarrow> u64 option" where
  "symbol_resolve m tab address =
     (let mx = symbol_map_num tab - 1 in resolve_loop m (symbol_map tab) address mx 0 mx)"

text \<open>
  The pointers \<open>symbol_lookup\<close> writes: the name of the symbol and the name of its section, or \<open>None\<close> inside
  when it returns false.  The second is written when the caller passed a pointer for it.
\<close>

definition symbol_lookup :: "memory \<Rightarrow> SymbolTableInformation \<Rightarrow> u64 \<Rightarrow> addr \<Rightarrow> (addr \<times> addr) option option" where
  "symbol_lookup m tab kernel_offset address = do {
     i \<leftarrow> symbol_resolve m tab (address - kernel_offset);
     if i = SYMBOL_FIND_FAIL then Some None
     else do {
       let index = sm_symbol_index (get_SymbolMap m (map_slot (symbol_map tab) i));
       let sym = symbol_at m (symbol_entries tab) index;
       if st_name sym = 0 then Some None
       else Some (Some (symbol_strings tab + ucast (st_name sym),
         section_strings tab + ucast (sh_name (section_at m (section_headers tab) (ucast (st_shndx sym)))))) } }"

section \<open>Stack frames\<close>

definition UNWIND_MAX_FRAMES :: u64 where "UNWIND_MAX_FRAMES = 16"

record StackFrame =
  sf_rbp :: addr
  sf_rip :: u64

definition get_StackFrame :: "memory \<Rightarrow> addr \<Rightarrow> StackFrame" where
  "get_StackFrame m a = \<lparr>sf_rbp = load64 m a, sf_rip = load64 m (a + 8)\<rparr>"

text \<open>The calls \<open>unwind\<close> makes: the numbers and return addresses of the frames, in order.\<close>

function unwind_loop :: "memory \<Rightarrow> u64 \<Rightarrow> addr \<Rightarrow> (u64 \<times> u64) list" where
  "unwind_loop m i frame =
     (let f = get_StackFrame m frame
      in if sf_rbp f \<noteq> 0 \<and> i < UNWIND_MAX_FRAMES then (i, sf_rip f) # unwind_loop m (i + 1) (sf_rbp f) else [])"
  by pat_completeness auto
termination
  by (relation "measure (\<lambda>(m, i, f). 16 - unat i)")
    (auto simp: UNWIND_MAX_FRAMES_def word_less_nat_alt unat_word_ariths)

declare unwind_loop.simps [simp del]

definition unwind :: "memory \<Rightarrow> u64 \<Rightarrow> (u64 \<times> u64) list" where
  "unwind m rbp = unwind_loop m 0 rbp"

end
