(* ===== verification/Symbol_Props.thy ===== *)
theory Symbol_Props
  imports Symbol "HOL-Library.Multiset"
begin

text \<open>
  The symbol map is sorted by address, and the binary search finds the symbol an address belongs
  to.  The insertion sort reads the entry in front of the array when a symbol comes before all
  others; it is correct when that memory holds no greater address.
\<close>

section \<open>Entries of the map in memory\<close>






text \<open>The entry with the number \<open>k\<close>; \<open>-1\<close> is the memory in front of the array.\<close>

definition ent :: "memory \<Rightarrow> addr \<Rightarrow> int \<Rightarrow> SymbolMap" where
  "ent m base k = get_SymbolMap m (map_slot base (of_int k))"




section \<open>Insertion\<close>







text \<open>The first \<open>n\<close> entries, and the insertion of an entry behind those with the same or a smaller address.\<close>

definition tab :: "memory \<Rightarrow> addr \<Rightarrow> nat \<Rightarrow> SymbolMap list" where
  "tab m base n = map (\<lambda>k. ent m base (int k)) [0..<n]"




lemma tab_nth: "k < n \<Longrightarrow> tab m base n ! k = ent m base (int k)"
  by (simp add: tab_def)

lemma length_tab [simp]: "length (tab m base n) = n"
  by (simp add: tab_def)





section \<open>The whole map\<close>








section \<open>The search\<close>

lemma map_address_ent: "map_address m base (of_int k) = sm_address (ent m base k)"
  by (simp add: map_address_def ent_def)

lemma map_address_tab: "i < n \<Longrightarrow> map_address m base (of_nat i) = sm_address (tab m base n ! i)"
  using map_address_ent [of m base "int i"] by (simp add: tab_nth)

lemma u64_mid:
  assumes "l < 2 ^ 62" "h < 2 ^ 62"
  shows "(of_nat l + of_nat h) div 2 = (of_nat ((l + h) div 2) :: u64)"
proof -
  have "unat (of_nat l + of_nat h :: u64) = l + h" using assms by (simp add: unat_word_ariths unat_of_nat)
  then have "unat ((of_nat l + of_nat h) div 2 :: u64) = (l + h) div 2" by (simp add: unat_div)
  also have "\<dots> = unat (of_nat ((l + h) div 2) :: u64)" using assms by (simp add: unat_of_nat)
  finally show ?thesis by (simp add: word_unat_eq_iff)
qed

lemma u64_le: "a < 2 ^ 62 \<Longrightarrow> b < 2 ^ 62 \<Longrightarrow> (of_nat a :: u64) \<le> of_nat b \<longleftrightarrow> a \<le> b"
  by (simp add: word_le_nat_alt unat_of_nat)

lemma u64_pred: "0 < a \<Longrightarrow> (of_nat a :: u64) - 1 = of_nat (a - 1)"
  by (simp add: of_nat_diff)

lemma u64_succ: "(of_nat a :: u64) + 1 = of_nat (a + 1)"
  by simp

lemma resolve_loop_found:
  assumes k: "Suc k < 2 ^ 62" and lh: "l \<le> h" "h \<le> Suc k"
    and f: "f = (\<lambda>i. map_address m base (of_nat i))" "f l \<le> a" "h \<le> k \<Longrightarrow> a < f (Suc h)"
  shows "\<exists>r \<le> Suc k. resolve_loop m base a (of_nat (Suc k)) (of_nat l) (of_nat h) = Some (of_nat r) \<and>
    f r \<le> a \<and> (r \<le> k \<longrightarrow> a < f (Suc r))"
  using lh f(2,3)
proof (induction "h - l" arbitrary: l h rule: less_induct)
  case less
  let ?mid = "(l + h) div 2"
  have words: "(of_nat (Suc k) :: u64) - 1 = of_nat k" "(of_nat ?mid :: u64) + 1 = of_nat (Suc ?mid)" by simp_all
  have tests: "(of_nat l :: u64) \<le> of_nat h" "(of_nat l :: u64) \<le> of_nat k \<longleftrightarrow> l \<le> k"
    using less.prems k by (simp_all add: u64_le)
  have mid: "(of_nat l + of_nat h) div 2 = (of_nat ?mid :: u64)" using less.prems k by (intro u64_mid) simp_all
  have fm: "map_address m base (of_nat i) = f i" for i by (simp add: f(1))
  have run: "resolve_loop m base a (of_nat (Suc k)) (of_nat l) (of_nat h) =
     (if l \<le> k then
        if f ?mid \<le> a \<and> a < f (Suc ?mid) then Some (of_nat ?mid)
        else if a < f ?mid then resolve_loop m base a (of_nat (Suc k)) (of_nat l) (of_nat ?mid - 1)
        else resolve_loop m base a (of_nat (Suc k)) (of_nat (Suc ?mid)) (of_nat h)
      else Some (of_nat (Suc k)))"
    using tests unfolding resolve_loop.simps [of m base a "of_nat (Suc k)" "of_nat l" "of_nat h"] words mid Let_def fm
    by (cases "l \<le> k") (simp_all only: not_le [symmetric] if_True if_False simp_thms)
  show ?case
  proof (cases "l \<le> k")
    case False
    then have "l = Suc k" using less.prems by simp
    then have "f (Suc k) \<le> a" using less.prems(3) by (simp only:)
    then show ?thesis using False unfolding run by (intro exI [of _ "Suc k"]) auto
  next
    case True
    have m1: "?mid \<le> k" "l \<le> ?mid" "?mid \<le> h" using True less.prems by simp_all
    consider "f ?mid \<le> a" "a < f (Suc ?mid)" | "a < f ?mid" | "f ?mid \<le> a" "f (Suc ?mid) \<le> a" by (meson not_le)
    then show ?thesis
    proof cases
      case 1
      then show ?thesis using m1 True unfolding run by (intro exI [of _ ?mid]) auto
    next
      case 2
      then have "l \<noteq> ?mid" using less.prems(3) by (metis not_le)
      then obtain i where i: "?mid = Suc i" "l \<le> i" using m1(2) by (cases ?mid) auto
      then have "resolve_loop m base a (of_nat (Suc k)) (of_nat l) (of_nat h) =
          resolve_loop m base a (of_nat (Suc k)) (of_nat l) (of_nat i)"
        using 2 True unfolding run by (simp add: not_le [symmetric])
      then show ?thesis using less.hyps [of i l] 2 less.prems m1 i by simp
    next
      case 3
      then have "h \<noteq> ?mid" using less.prems(4) m1(1) by (metis not_le)
      then have lt: "Suc ?mid \<le> h" using m1(3) by simp
      have "resolve_loop m base a (of_nat (Suc k)) (of_nat l) (of_nat h) =
          resolve_loop m base a (of_nat (Suc k)) (of_nat (Suc ?mid)) (of_nat h)"
        using 3 True unfolding run by (simp add: not_less [symmetric])
      then show ?thesis using less.hyps [of h "Suc ?mid"] lt 3(2) less.prems m1 by simp
    qed
  qed
qed

text \<open>
  An address below all symbols: the upper bound of the search wraps around, and the next index
  that is read is \<open>2 ^ 63 - 1\<close>, whose entry is the memory in front of the map.
\<close>

lemma resolve_loop_below:
  assumes k: "Suc k < 2 ^ 62" and h: "h \<le> Suc k"
    and f: "\<And>i. i \<le> Suc k \<Longrightarrow> a < map_address m base (of_nat i)" and guard: "sm_address (ent m base (- 1)) \<le> a"
  shows "resolve_loop m base a (of_nat (Suc k)) 0 (of_nat h) = Some (2 ^ 63 - 1)"
  using h
proof (induction h rule: less_induct)
  case (less h)
  let ?mid = "h div 2"
  have words: "(of_nat (Suc k) :: u64) - 1 = of_nat k" by simp
  have mid: "(0 + of_nat h) div 2 = (of_nat ?mid :: u64)" using u64_mid [of 0 h] less.prems k by simp
  have "a < map_address m base (of_nat ?mid)" using less.prems by (intro f) simp
  then have run: "resolve_loop m base a (of_nat (Suc k)) 0 (of_nat h) =
      resolve_loop m base a (of_nat (Suc k)) 0 (of_nat ?mid - 1)"
    unfolding resolve_loop.simps [of m base a "of_nat (Suc k)" 0 "of_nat h"] words mid Let_def by (simp add: not_le [symmetric] del: of_nat_Suc)
  show ?case
  proof (cases ?mid)
    case 0
    have wrap: "(2 ^ 63 - 1) * 16 = (- 1 * 16 :: u64)" "2 ^ 63 * 16 = (0 :: u64)"
      by (simp_all add: word_uint_eq_iff uint_word_ariths)
    have last: "map_address m base (2 ^ 63 - 1) = sm_address (ent m base (- 1))"
      unfolding map_address_def ent_def map_slot_def sizeof_SymbolMap_def wrap by simp
    have first: "map_address m base (2 ^ 63) = map_address m base (of_nat 0)"
      unfolding map_address_def map_slot_def sizeof_SymbolMap_def wrap by simp
    have div: "(0 + - 1) div 2 = (2 ^ 63 - 1 :: u64)" "(2 ^ 63 - 1) + 1 = (2 ^ 63 :: u64)" by (simp_all add: word_unat_eq_iff unat_div)
    have "resolve_loop m base a (of_nat (Suc k)) 0 (- 1) = Some (2 ^ 63 - 1)"
      unfolding resolve_loop.simps [of m base a "of_nat (Suc k)" 0 "- 1"] words div Let_def last first
      using guard f [of 0] by (simp del: of_nat_Suc)
    then show ?thesis unfolding run 0 by simp
  next
    case (Suc i)
    then have "i < h" "of_nat ?mid - 1 = (of_nat i :: u64)" using div_le_dividend [of h 2] by simp_all
    then show ?thesis unfolding run using less.IH [of i] less.prems by simp
  qed
qed

section \<open>Properties\<close>




text \<open>
  C16. The search finds the symbol an address lies in: in a sorted map of at least two symbols, for an
  address that is not below the first of them, \<open>symbol_resolve\<close> returns the last symbol whose address is not
  above it.
\<close>

theorem symbol_resolve_finds:
  assumes "sorted (map sm_address (tab m (symbol_map t) c))" and "symbol_map_num t = of_nat c" "2 \<le> c" "c < 2 ^ 62"
    and "sm_address (tab m (symbol_map t) c ! 0) \<le> a"
  shows "\<exists>r<c. symbol_resolve m t a = Some (of_nat r) \<and> (\<forall>i<c. sm_address (tab m (symbol_map t) c ! i) \<le> a \<longleftrightarrow> i \<le> r)"
proof -
  obtain k where k: "c = Suc (Suc k)" using assms(3) by (metis Suc_1 add_2_eq_Suc le_iff_add)
  let ?f = "\<lambda>i. map_address m (symbol_map t) (of_nat i)"
  have f: "?f i = sm_address (tab m (symbol_map t) c ! i)" if "i < c" for i using that by (rule map_address_tab)
  have "\<exists>r \<le> Suc k. resolve_loop m (symbol_map t) a (of_nat (Suc k)) (of_nat 0) (of_nat (Suc k)) = Some (of_nat r) \<and>
      ?f r \<le> a \<and> (r \<le> k \<longrightarrow> a < ?f (Suc r))"
    by (rule resolve_loop_found [OF _ _ _ refl]) (use k assms(3-5) f [of 0] in auto)
  then obtain r where r: "r \<le> Suc k" "resolve_loop m (symbol_map t) a (of_nat (Suc k)) 0 (of_nat (Suc k)) = Some (of_nat r)"
    "?f r \<le> a" "r \<le> k \<longrightarrow> a < ?f (Suc r)" by auto
  have "symbol_resolve m t a = Some (of_nat r)"
    using r(2) k by (simp add: symbol_resolve_def assms(2))
  moreover have "sm_address (tab m (symbol_map t) c ! i) \<le> a \<longleftrightarrow> i \<le> r" if "i < c" for i
  proof (cases "i \<le> r")
    case True
    then have "?f i \<le> ?f r" using sorted_nth_mono [OF assms(1), of i r] r(1) k f [of i] f [of r] by simp
    then show ?thesis using True r(3) f [OF that] by simp
  next
    case False
    then have "?f (Suc r) \<le> ?f i" using sorted_nth_mono [OF assms(1), of "Suc r" i] that f [of "Suc r"] f [of i] by simp
    then show ?thesis using False r(4) that k f [OF that] by (auto simp: not_le intro: less_le_trans)
  qed
  ultimately show ?thesis using r(1) k by (intro exI [of _ r]) simp
qed

definition example_map :: SymbolTableInformation where
  "example_map = \<lparr>section_headers = 0, section_headers_num = 0, symbol_entries = 0, symbol_entries_num = 0, symbol_strings = 0,
     symbol_strings_size = 0, section_strings = 0, section_strings_size = 0, symbol_map = 0x8000, symbol_map_num = 2\<rparr>"

definition example_map_memory :: memory where
  "example_map_memory = (\<lambda>_. 0)(0x8000 := 0x10, 0x8010 := 0x20)"

lemma example_map_tab:
  "tab example_map_memory 0x8000 2 = [\<lparr>sm_address = 0x10, sm_symbol_index = 0\<rparr>, \<lparr>sm_address = 0x20, sm_symbol_index = 0\<rparr>]"
  by (simp add: tab_def ent_def upt_rec map_slot_def sizeof_SymbolMap_def get_SymbolMap_def load_eval example_map_memory_def)

theorem symbol_resolve_finds_witness:
  "symbol_resolve example_map_memory example_map 0x18 = Some 0"
proof -
  have base: "symbol_map example_map = 0x8000" "symbol_map_num example_map = 2" by (simp_all add: example_map_def)
  obtain r where r: "r < 2" "symbol_resolve example_map_memory example_map 0x18 = Some (of_nat r)"
    "\<forall>i<2. sm_address (tab example_map_memory 0x8000 2 ! i) \<le> 0x18 \<longleftrightarrow> i \<le> r"
    using symbol_resolve_finds [of example_map_memory example_map 2 "0x18"] by (auto simp: base example_map_tab)
  have "r = 0" using r(3) [rule_format, of 1] by (simp add: example_map_tab)
  then show ?thesis using r(2) by simp
qed

text \<open>
  C37. An address below the first symbol is not reported as unknown: when the memory in front of the map holds
  no greater address, \<open>symbol_resolve\<close> returns the index \<open>2 ^ 63 - 1\<close>, which stands for the entry in front
  of the map, and not \<open>SYMBOL_FIND_FAIL\<close>.
\<close>

theorem symbol_resolve_below_first:
  assumes "symbol_map_num t = of_nat c" "2 \<le> c" "c < 2 ^ 62"
    and "\<forall>e \<in> set (tab m (symbol_map t) c). a < sm_address e" and "sm_address (ent m (symbol_map t) (- 1)) \<le> a"
  shows "symbol_resolve m t a = Some (2 ^ 63 - 1) \<and> (2 ^ 63 - 1 :: u64) \<noteq> SYMBOL_FIND_FAIL"
proof -
  obtain k where k: "c = Suc (Suc k)" using assms(2) by (metis Suc_1 add_2_eq_Suc le_iff_add)
  have "a < map_address m (symbol_map t) (of_nat i)" if "i \<le> Suc k" for i
    using assms(4) that k by (simp add: map_address_tab [of i c])
  then have "resolve_loop m (symbol_map t) a (of_nat (Suc k)) 0 (of_nat (Suc k)) = Some (2 ^ 63 - 1)"
    by (intro resolve_loop_below) (use k assms(3,5) in auto)
  moreover have "(2 ^ 63 - 1 :: u64) \<noteq> SYMBOL_FIND_FAIL"
  proof
    assume "(2 ^ 63 - 1 :: u64) = SYMBOL_FIND_FAIL"
    then have "(2 ^ 63 - 1 :: u64) + 1 = - 1 + 1" by (simp only: SYMBOL_FIND_FAIL_def)
    then show False by simp
  qed
  ultimately show ?thesis using k by (simp add: symbol_resolve_def assms(1))
qed

theorem symbol_resolve_below_first_witness:
  "symbol_resolve example_map_memory example_map 5 = Some (2 ^ 63 - 1)"
proof -
  have "sm_address (ent example_map_memory 0x8000 (- 1)) = 0"
    by (simp add: ent_def map_slot_def sizeof_SymbolMap_def get_SymbolMap_def load_eval example_map_memory_def)
  then show ?thesis
    using symbol_resolve_below_first [of example_map 2 example_map_memory 5]
    by (simp add: example_map_tab example_map_def)
qed

end
