(* ===== verification/Cpuid.thy ===== *)
theory Cpuid
  imports Machine
begin

text \<open>
  \<^verbatim>\<open>x86_64/cpuid.h\<close> and \<^verbatim>\<open>x86_64/cpuid.asm\<close>: the identification of the processor.  The instruction is an argument of
  the functions: from the values of \<open>eax\<close> and \<open>ecx\<close> to those of \<open>eax\<close>, \<open>ebx\<close>, \<open>ecx\<close> and \<open>edx\<close>.
\<close>

section \<open>Vendors and features\<close>

datatype CPUIDVendorID =
  CPUID_VENDOR_OLDAMD | CPUID_VENDOR_AMD | CPUID_VENDOR_INTEL | CPUID_VENDOR_OLDTRANSMETA
| CPUID_VENDOR_TRANSMETA | CPUID_VENDOR_CYRIX | CPUID_VENDOR_CENTAUR | CPUID_VENDOR_NEXGEN
| CPUID_VENDOR_UMC | CPUID_VENDOR_SIS | CPUID_VENDOR_NSC | CPUID_VENDOR_RISE | CPUID_VENDOR_VORTEX
| CPUID_VENDOR_VIA | CPUID_VENDOR_VMWARE | CPUID_VENDOR_XENHVM | CPUID_VENDOR_MICROSOFT_HV
| CPUID_VENDOR_PARALLELS

primrec vendor_value :: "CPUIDVendorID \<Rightarrow> u32" where
  "vendor_value CPUID_VENDOR_OLDAMD = 0x21726574"
| "vendor_value CPUID_VENDOR_AMD = 0x444d4163"
| "vendor_value CPUID_VENDOR_INTEL = 0x6c65746e"
| "vendor_value CPUID_VENDOR_OLDTRANSMETA = 0x55504361"
| "vendor_value CPUID_VENDOR_TRANSMETA = 0x3638784d"
| "vendor_value CPUID_VENDOR_CYRIX = 0x64616574"
| "vendor_value CPUID_VENDOR_CENTAUR = 0x736c7561"
| "vendor_value CPUID_VENDOR_NEXGEN = 0x6e657669"
| "vendor_value CPUID_VENDOR_UMC = 0x20434d55"
| "vendor_value CPUID_VENDOR_SIS = 0x20536953"
| "vendor_value CPUID_VENDOR_NSC = 0x43534e20"
| "vendor_value CPUID_VENDOR_RISE = 0x65736952"
| "vendor_value CPUID_VENDOR_VORTEX = 0x436f5320"
| "vendor_value CPUID_VENDOR_VIA = 0x20414956"
| "vendor_value CPUID_VENDOR_VMWARE = 0x65726177"
| "vendor_value CPUID_VENDOR_XENHVM = 0x4d4d566e"
| "vendor_value CPUID_VENDOR_MICROSOFT_HV = 0x76482074"
| "vendor_value CPUID_VENDOR_PARALLELS = 0x72762068"

datatype CPUIDFeatureSet1 =
  CPUID_FPU | CPUID_VME | CPUID_DE | CPUID_PSE | CPUID_TSC | CPUID_MSR | CPUID_PAE | CPUID_MCE
| CPUID_CX8 | CPUID_APIC | CPUID_SEP | CPUID_MTRR | CPUID_PGE | CPUID_MCA | CPUID_CMOV | CPUID_PAT
| CPUID_PSE36 | CPUID_PSN | CPUID_CLF | CPUID_DTES | CPUID_ACPI | CPUID_MMX | CPUID_FXSR | CPUID_SSE
| CPUID_SSE2 | CPUID_SS | CPUID_HTT | CPUID_TM1 | CPUID_IA64 | CPUID_PBE

primrec set1_value :: "CPUIDFeatureSet1 \<Rightarrow> u32" where
  "set1_value CPUID_FPU = push_bit 0 1"
| "set1_value CPUID_VME = push_bit 1 1"
| "set1_value CPUID_DE = push_bit 2 1"
| "set1_value CPUID_PSE = push_bit 3 1"
| "set1_value CPUID_TSC = push_bit 4 1"
| "set1_value CPUID_MSR = push_bit 5 1"
| "set1_value CPUID_PAE = push_bit 6 1"
| "set1_value CPUID_MCE = push_bit 7 1"
| "set1_value CPUID_CX8 = push_bit 8 1"
| "set1_value CPUID_APIC = push_bit 9 1"
| "set1_value CPUID_SEP = push_bit 11 1"
| "set1_value CPUID_MTRR = push_bit 12 1"
| "set1_value CPUID_PGE = push_bit 13 1"
| "set1_value CPUID_MCA = push_bit 14 1"
| "set1_value CPUID_CMOV = push_bit 15 1"
| "set1_value CPUID_PAT = push_bit 16 1"
| "set1_value CPUID_PSE36 = push_bit 17 1"
| "set1_value CPUID_PSN = push_bit 18 1"
| "set1_value CPUID_CLF = push_bit 19 1"
| "set1_value CPUID_DTES = push_bit 21 1"
| "set1_value CPUID_ACPI = push_bit 22 1"
| "set1_value CPUID_MMX = push_bit 23 1"
| "set1_value CPUID_FXSR = push_bit 24 1"
| "set1_value CPUID_SSE = push_bit 25 1"
| "set1_value CPUID_SSE2 = push_bit 26 1"
| "set1_value CPUID_SS = push_bit 27 1"
| "set1_value CPUID_HTT = push_bit 28 1"
| "set1_value CPUID_TM1 = push_bit 29 1"
| "set1_value CPUID_IA64 = push_bit 30 1"
| "set1_value CPUID_PBE = push_bit 31 1"

datatype CPUIDFeatureSet2 =
  CPUID_SSE3 | CPUID_PCLMUL | CPUID_DTES64 | CPUID_MONITOR | CPUID_DS_CPL | CPUID_VMX | CPUID_SMX
| CPUID_EST | CPUID_TM2 | CPUID_SSSE3 | CPUID_CID | CPUID_FMA | CPUID_CX16 | CPUID_ETPRD | CPUID_PDCM
| CPUID_PCID | CPUID_DCA | CPUID_SSE4_1 | CPUID_SSE4_2 | CPUID_X2APIC | CPUID_MOVBE | CPUID_POPCNT
| CPUID_AES | CPUID_XSAVE | CPUID_OSXSAVE | CPUID_AVX | CPUID_F16C | CPUID_RDRAND | CPUID_HYPERV

primrec set2_value :: "CPUIDFeatureSet2 \<Rightarrow> u32" where
  "set2_value CPUID_SSE3 = push_bit 0 1"
| "set2_value CPUID_PCLMUL = push_bit 1 1"
| "set2_value CPUID_DTES64 = push_bit 2 1"
| "set2_value CPUID_MONITOR = push_bit 3 1"
| "set2_value CPUID_DS_CPL = push_bit 4 1"
| "set2_value CPUID_VMX = push_bit 5 1"
| "set2_value CPUID_SMX = push_bit 6 1"
| "set2_value CPUID_EST = push_bit 7 1"
| "set2_value CPUID_TM2 = push_bit 8 1"
| "set2_value CPUID_SSSE3 = push_bit 9 1"
| "set2_value CPUID_CID = push_bit 10 1"
| "set2_value CPUID_FMA = push_bit 12 1"
| "set2_value CPUID_CX16 = push_bit 13 1"
| "set2_value CPUID_ETPRD = push_bit 14 1"
| "set2_value CPUID_PDCM = push_bit 15 1"
| "set2_value CPUID_PCID = push_bit 17 1"
| "set2_value CPUID_DCA = push_bit 18 1"
| "set2_value CPUID_SSE4_1 = push_bit 19 1"
| "set2_value CPUID_SSE4_2 = push_bit 20 1"
| "set2_value CPUID_X2APIC = push_bit 21 1"
| "set2_value CPUID_MOVBE = push_bit 22 1"
| "set2_value CPUID_POPCNT = push_bit 23 1"
| "set2_value CPUID_AES = push_bit 25 1"
| "set2_value CPUID_XSAVE = push_bit 26 1"
| "set2_value CPUID_OSXSAVE = push_bit 27 1"
| "set2_value CPUID_AVX = push_bit 28 1"
| "set2_value CPUID_F16C = push_bit 29 1"
| "set2_value CPUID_RDRAND = push_bit 30 1"
| "set2_value CPUID_HYPERV = push_bit 31 1"

datatype CPUIDFeatureSet3 =
  CPUID_FSGSBASE | CPUID_SGX | CPUID_BMI1 | CPUID_HLE | CPUID_AVX2 | CPUID_SMEP | CPUID_BMI2
| CPUID_ERMS | CPUID_INVPCID | CPUID_RTM | CPUID_PQM | CPUID_MPX | CPUID_PQE | CPUID_AVX512_F
| CPUID_AVX512_DQ | CPUID_RDSEED | CPUID_ADX | CPUID_SMAP | CPUID_AVX512_IFMA | CPUID_PCOMMIT
| CPUID_CLFLUSHOPT | CPUID_CLWB | CPUID_INTEL_PT | CPUID_AVX512_PF | CPUID_AVX512_ER
| CPUID_AVX512_CD | CPUID_SHA | CPUID_AVX512_BW | CPUID_AVX512_VL

primrec set3_value :: "CPUIDFeatureSet3 \<Rightarrow> u32" where
  "set3_value CPUID_FSGSBASE = push_bit 0 1"
| "set3_value CPUID_SGX = push_bit 2 1"
| "set3_value CPUID_BMI1 = push_bit 3 1"
| "set3_value CPUID_HLE = push_bit 4 1"
| "set3_value CPUID_AVX2 = push_bit 5 1"
| "set3_value CPUID_SMEP = push_bit 7 1"
| "set3_value CPUID_BMI2 = push_bit 8 1"
| "set3_value CPUID_ERMS = push_bit 9 1"
| "set3_value CPUID_INVPCID = push_bit 10 1"
| "set3_value CPUID_RTM = push_bit 11 1"
| "set3_value CPUID_PQM = push_bit 12 1"
| "set3_value CPUID_MPX = push_bit 14 1"
| "set3_value CPUID_PQE = push_bit 15 1"
| "set3_value CPUID_AVX512_F = push_bit 16 1"
| "set3_value CPUID_AVX512_DQ = push_bit 17 1"
| "set3_value CPUID_RDSEED = push_bit 18 1"
| "set3_value CPUID_ADX = push_bit 19 1"
| "set3_value CPUID_SMAP = push_bit 20 1"
| "set3_value CPUID_AVX512_IFMA = push_bit 21 1"
| "set3_value CPUID_PCOMMIT = push_bit 22 1"
| "set3_value CPUID_CLFLUSHOPT = push_bit 23 1"
| "set3_value CPUID_CLWB = push_bit 24 1"
| "set3_value CPUID_INTEL_PT = push_bit 25 1"
| "set3_value CPUID_AVX512_PF = push_bit 26 1"
| "set3_value CPUID_AVX512_ER = push_bit 27 1"
| "set3_value CPUID_AVX512_CD = push_bit 28 1"
| "set3_value CPUID_SHA = push_bit 29 1"
| "set3_value CPUID_AVX512_BW = push_bit 30 1"
| "set3_value CPUID_AVX512_VL = push_bit 31 1"

datatype CPUIDFeatureSet4 =
  CPUID_PREFETCHWT1 | CPUID_AVX512_VBMI | CPUID_UMIP | CPUID_PKU | CPUID_OSPKE | CPUID_WAITPKG
| CPUID_AVX512_VBMI2 | CPUID_CET_SS | CPUID_GFNI | CPUID_VAES | CPUID_VPCLMULQDQ | CPUID_AVX512_VNNI
| CPUID_AVX512_BITALG | CPUID_AVX512_VPOPCNTDQ | CPUID_RDPID | CPUID_CLDEMOTE | CPUID_MOVDIRI
| CPUID_MOVDIR64B | CPUID_ENQCMD | CPUID_SGX_LC | CPUID_PKS

primrec set4_value :: "CPUIDFeatureSet4 \<Rightarrow> u32" where
  "set4_value CPUID_PREFETCHWT1 = push_bit 0 1"
| "set4_value CPUID_AVX512_VBMI = push_bit 1 1"
| "set4_value CPUID_UMIP = push_bit 2 1"
| "set4_value CPUID_PKU = push_bit 3 1"
| "set4_value CPUID_OSPKE = push_bit 4 1"
| "set4_value CPUID_WAITPKG = push_bit 5 1"
| "set4_value CPUID_AVX512_VBMI2 = push_bit 6 1"
| "set4_value CPUID_CET_SS = push_bit 7 1"
| "set4_value CPUID_GFNI = push_bit 8 1"
| "set4_value CPUID_VAES = push_bit 9 1"
| "set4_value CPUID_VPCLMULQDQ = push_bit 10 1"
| "set4_value CPUID_AVX512_VNNI = push_bit 11 1"
| "set4_value CPUID_AVX512_BITALG = push_bit 12 1"
| "set4_value CPUID_AVX512_VPOPCNTDQ = push_bit 14 1"
| "set4_value CPUID_RDPID = push_bit 22 1"
| "set4_value CPUID_CLDEMOTE = push_bit 25 1"
| "set4_value CPUID_MOVDIRI = push_bit 27 1"
| "set4_value CPUID_MOVDIR64B = push_bit 28 1"
| "set4_value CPUID_ENQCMD = push_bit 29 1"
| "set4_value CPUID_SGX_LC = push_bit 30 1"
| "set4_value CPUID_PKS = push_bit 31 1"

datatype CPUIDFeatureSet5 =
  CPUID_AVX512_4VNNIW | CPUID_AVX512_4FMAPS | CPUID_FSRM | CPUID_AVX512_VP2INTERSECT | CPUID_SRBDS_CTRL
| CPUID_MD_CLEAR | CPUID_TSX_FORCE_ABORT | CPUID_SERIALIZE | CPUID_HYBRID | CPUID_TSXLDTRK
| CPUID_PCONFIG | CPUID_LBR | CPUID_CET_IBT | CPUID_AMX_BF16 | CPUID_AMX_TILE | CPUID_AMX_INT8
| CPUID_IBRS_IBPB | CPUID_STIBP | CPUID_L1D_FLUSH | CPUID_SSBD

primrec set5_value :: "CPUIDFeatureSet5 \<Rightarrow> u32" where
  "set5_value CPUID_AVX512_4VNNIW = push_bit 2 1"
| "set5_value CPUID_AVX512_4FMAPS = push_bit 3 1"
| "set5_value CPUID_FSRM = push_bit 4 1"
| "set5_value CPUID_AVX512_VP2INTERSECT = push_bit 8 1"
| "set5_value CPUID_SRBDS_CTRL = push_bit 9 1"
| "set5_value CPUID_MD_CLEAR = push_bit 10 1"
| "set5_value CPUID_TSX_FORCE_ABORT = push_bit 13 1"
| "set5_value CPUID_SERIALIZE = push_bit 14 1"
| "set5_value CPUID_HYBRID = push_bit 15 1"
| "set5_value CPUID_TSXLDTRK = push_bit 16 1"
| "set5_value CPUID_PCONFIG = push_bit 18 1"
| "set5_value CPUID_LBR = push_bit 19 1"
| "set5_value CPUID_CET_IBT = push_bit 20 1"
| "set5_value CPUID_AMX_BF16 = push_bit 22 1"
| "set5_value CPUID_AMX_TILE = push_bit 24 1"
| "set5_value CPUID_AMX_INT8 = push_bit 25 1"
| "set5_value CPUID_IBRS_IBPB = push_bit 26 1"
| "set5_value CPUID_STIBP = push_bit 27 1"
| "set5_value CPUID_L1D_FLUSH = push_bit 28 1"
| "set5_value CPUID_SSBD = push_bit 31 1"

datatype CPUIDFeatureSetAMD1 =
  CPUID_MP | CPUID_NX | CPUID_MMXEXT | CPUID_FXSR_OPT | CPUID_PDPE1GB | CPUID_RDTSCP | CPUID_LM
| CPUID_3DNOWEXT | CPUID_3DNOW

primrec amd1_value :: "CPUIDFeatureSetAMD1 \<Rightarrow> u32" where
  "amd1_value CPUID_MP = push_bit 19 1"
| "amd1_value CPUID_NX = push_bit 20 1"
| "amd1_value CPUID_MMXEXT = push_bit 22 1"
| "amd1_value CPUID_FXSR_OPT = push_bit 25 1"
| "amd1_value CPUID_PDPE1GB = push_bit 26 1"
| "amd1_value CPUID_RDTSCP = push_bit 27 1"
| "amd1_value CPUID_LM = push_bit 29 1"
| "amd1_value CPUID_3DNOWEXT = push_bit 30 1"
| "amd1_value CPUID_3DNOW = push_bit 31 1"

datatype CPUIDFeatureSetAMD2 =
  CPUID_LAHF_LM | CPUID_CMP_LEGACY | CPUID_SVM | CPUID_EXTAPIC | CPUID_CR8_LEGACY | CPUID_ABM
| CPUID_SSE4A | CPUID_MISALIGNSSE | CPUID_3DNOWPREFETCH | CPUID_OSVW | CPUID_IBS | CPUID_XOP
| CPUID_SKINIT | CPUID_WDT | CPUID_LWP | CPUID_FMA4 | CPUID_TCE | CPUID_NODEID_MSR | CPUID_TBM
| CPUID_TOPOEXT | CPUID_PERFCTR_CORE | CPUID_PERFCTR_NB | CPUID_DBX | CPUID_PERFTSC | CPUID_PCX_L2I

primrec amd2_value :: "CPUIDFeatureSetAMD2 \<Rightarrow> u32" where
  "amd2_value CPUID_LAHF_LM = push_bit 0 1"
| "amd2_value CPUID_CMP_LEGACY = push_bit 1 1"
| "amd2_value CPUID_SVM = push_bit 2 1"
| "amd2_value CPUID_EXTAPIC = push_bit 3 1"
| "amd2_value CPUID_CR8_LEGACY = push_bit 4 1"
| "amd2_value CPUID_ABM = push_bit 5 1"
| "amd2_value CPUID_SSE4A = push_bit 6 1"
| "amd2_value CPUID_MISALIGNSSE = push_bit 7 1"
| "amd2_value CPUID_3DNOWPREFETCH = push_bit 8 1"
| "amd2_value CPUID_OSVW = push_bit 9 1"
| "amd2_value CPUID_IBS = push_bit 10 1"
| "amd2_value CPUID_XOP = push_bit 11 1"
| "amd2_value CPUID_SKINIT = push_bit 12 1"
| "amd2_value CPUID_WDT = push_bit 13 1"
| "amd2_value CPUID_LWP = push_bit 15 1"
| "amd2_value CPUID_FMA4 = push_bit 16 1"
| "amd2_value CPUID_TCE = push_bit 17 1"
| "amd2_value CPUID_NODEID_MSR = push_bit 19 1"
| "amd2_value CPUID_TBM = push_bit 21 1"
| "amd2_value CPUID_TOPOEXT = push_bit 22 1"
| "amd2_value CPUID_PERFCTR_CORE = push_bit 23 1"
| "amd2_value CPUID_PERFCTR_NB = push_bit 24 1"
| "amd2_value CPUID_DBX = push_bit 26 1"
| "amd2_value CPUID_PERFTSC = push_bit 27 1"
| "amd2_value CPUID_PCX_L2I = push_bit 28 1"

record CPUIDFeatures =
  f_set1 :: u32
  f_values :: u32
  f_set2 :: u32
  f_set3 :: u32
  f_set4 :: u32
  f_set5 :: u32
  f_set6 :: u32
  f_amd1 :: u32
  f_amd2 :: u32

section \<open>Functions\<close>

type_synonym cpuid_instruction = "u32 \<Rightarrow> u32 \<Rightarrow> u32 \<times> u32 \<times> u32 \<times> u32"

text \<open>The argument \<open>ecx\<close> is what the register holds when the function is called.\<close>

definition cpuid_get_local_apic_id :: "cpuid_instruction \<Rightarrow> u32 \<Rightarrow> u8" where
  "cpuid_get_local_apic_id cpuid ecx = (let (a, b, c, d) = cpuid 0x01 ecx in ucast (drop_bit 24 b AND 0xff))"

definition cpuid_get_vendor :: "cpuid_instruction \<Rightarrow> u32 \<Rightarrow> u32" where
  "cpuid_get_vendor cpuid ecx = (let (a, b, c, d) = cpuid 0x00 ecx in c)"

definition cpuid_get_vendor_str :: "cpuid_instruction \<Rightarrow> u32 \<Rightarrow> addr \<Rightarrow> memory \<Rightarrow> memory" where
  "cpuid_get_vendor_str cpuid ecx str m =
     (let (a, b, c, d) = cpuid 0x00 ecx in store32 (store32 (store32 m str b) (str + 4) d) (str + 8) c)"

definition store_registers :: "addr \<Rightarrow> u32 \<times> u32 \<times> u32 \<times> u32 \<Rightarrow> memory \<Rightarrow> memory" where
  "store_registers p = (\<lambda>(a, b, c, d) m. store32 (store32 (store32 (store32 m p a) (p + 4) b) (p + 8) c) (p + 12) d)"

text \<open>The test for the brand leaves is a signed comparison.\<close>

definition cpuid_get_brand_str :: "cpuid_instruction \<Rightarrow> u32 \<Rightarrow> addr \<Rightarrow> memory \<Rightarrow> memory" where
  "cpuid_get_brand_str cpuid ecx str m =
     (let (a, b, c, d) = cpuid 0x80000000 ecx
      in if sint a < sint (0x80000004 :: u32) then m
         else let r2 = cpuid 0x80000002 c; r3 = cpuid 0x80000003 (fst (snd (snd r2))); r4 = cpuid 0x80000004 (fst (snd (snd r3)))
           in store_registers (str + 32) r4 (store_registers (str + 16) r3 (store_registers str r2 m)))"

text \<open>
  The leaf of the sixth set is not loaded into \<open>eax\<close> again: the instruction runs with what the leaf 7
  left there.
\<close>

definition cpuid_get_features :: "cpuid_instruction \<Rightarrow> u32 \<Rightarrow> CPUIDFeatures" where
  "cpuid_get_features cpuid ecx =
     (let (a1, b1, c1, d1) = cpuid 0x01 ecx;
          (a7, b7, c7, d7) = cpuid 0x07 0x00;
          (a8, b8, c8, d8) = cpuid a7 0x01;
          (a9, b9, c9, d9) = cpuid 0x80000001 c8
      in \<lparr>f_set1 = d1 OR (d9 AND 0b00000001100000111111111111111111), f_values = b1, f_set2 = c1,
          f_set3 = b7, f_set4 = c7, f_set5 = d7, f_set6 = a8, f_amd1 = d9, f_amd2 = c9\<rparr>)"

end
