(* ===== verification/Musl_String.thy ===== *)
theory Musl_String
  imports Machine
begin

text \<open>
  The string functions of the C library (\<^verbatim>\<open>libraries/musl/src/string\<close>), over the
  memory of the machine.  A function whose loop ends only at a certain byte is a
  \<open>partial_function\<close>: without such a byte the loop goes around the address space for ever and the
  result is \<^const>\<open>None\<close>.  Loops that count down a length are total.  Pointers are addresses, an
  \<open>int\<close> argument is a 32 bit word and a result of type \<open>int\<close>, always a difference of two bytes here, an
  integer.  Where the functions write, the memory is passed and returned.
\<close>

section \<open>A zero byte in a word\<close>

definition ONES :: u64 where
  "ONES = (- 1) div 255"
definition HIGHS :: u64 where
  "HIGHS = ONES * (255 div 2 + 1)"
definition HASZERO :: "u64 \<Rightarrow> u64" where
  "HASZERO x = (x - ONES) AND NOT x AND HIGHS"

text \<open>The three loops of the scanning functions, for the byte and the word at which they stop.\<close>

partial_function (option) align_loop :: "(u8 \<Rightarrow> bool) \<Rightarrow> memory \<Rightarrow> addr \<Rightarrow> (addr + addr) option" where
  "align_loop stop m s =
     (if s mod 8 \<noteq> 0 then if stop (m s) then Some (Inl s) else align_loop stop m (s + 1) else Some (Inr s))"

partial_function (option) word_loop :: "(u64 \<Rightarrow> bool) \<Rightarrow> memory \<Rightarrow> addr \<Rightarrow> addr option" where
  "word_loop stop m w = (if stop (load64 m w) then Some w else word_loop stop m (w + 8))"

partial_function (option) byte_loop :: "(u8 \<Rightarrow> bool) \<Rightarrow> memory \<Rightarrow> addr \<Rightarrow> addr option" where
  "byte_loop stop m s = (if stop (m s) then Some s else byte_loop stop m (s + 1))"

declare align_loop.simps [code] word_loop.simps [code] byte_loop.simps [code]

section \<open>Lengths and searches\<close>

definition strlen :: "memory \<Rightarrow> addr \<Rightarrow> u64 option" where
  "strlen m a = do {
     r \<leftarrow> align_loop (\<lambda>b. b = 0) m a;
     case r of
       Inl s \<Rightarrow> Some (s - a)
     | Inr s \<Rightarrow> do {
         w \<leftarrow> word_loop (\<lambda>x. HASZERO x \<noteq> 0) m s;
         s \<leftarrow> byte_loop (\<lambda>b. b = 0) m w;
         Some (s - a) } }"

definition strchrnul :: "memory \<Rightarrow> addr \<Rightarrow> u32 \<Rightarrow> addr option" where
  "strchrnul m s c0 =
     (let c = ucast c0 :: u8
      in if c = 0 then map_option (\<lambda>n. s + n) (strlen m s)
         else do {
           r \<leftarrow> align_loop (\<lambda>b. b = 0 \<or> b = c) m s;
           case r of
             Inl s \<Rightarrow> Some s
           | Inr s \<Rightarrow> let k = ONES * ucast c in do {
               w \<leftarrow> word_loop (\<lambda>x. \<not> (HASZERO x = 0 \<and> HASZERO (x XOR k) = 0)) m s;
               byte_loop (\<lambda>b. \<not> (b \<noteq> 0 \<and> b \<noteq> c)) m w } })"

definition strchr :: "memory \<Rightarrow> addr \<Rightarrow> u32 \<Rightarrow> addr option" where
  "strchr m s c = do { r \<leftarrow> strchrnul m s c; Some (if m r = ucast c then r else 0) }"

function memchr_align :: "memory \<Rightarrow> u8 \<Rightarrow> addr \<Rightarrow> u64 \<Rightarrow> addr \<times> u64" where
  "memchr_align m c s n =
     (if s AND 7 \<noteq> 0 \<and> n \<noteq> 0 \<and> m s \<noteq> c then memchr_align m c (s + 1) (n - 1) else (s, n))"
  by pat_completeness auto
termination
  by (relation "measure (\<lambda>(m, c, s, n). unat n)") (auto simp: unat_minus_one unat_gt_0)

function memchr_words :: "memory \<Rightarrow> u64 \<Rightarrow> addr \<Rightarrow> u64 \<Rightarrow> addr \<times> u64" where
  "memchr_words m k w n =
     (if 8 \<le> n \<and> HASZERO (load64 m w XOR k) = 0 then memchr_words m k (w + 8) (n - 8) else (w, n))"
  by pat_completeness auto
termination
  by (relation "measure (\<lambda>(m, k, w, n). unat n)") (auto simp: unat_sub word_le_nat_alt)

function memchr_bytes :: "memory \<Rightarrow> u8 \<Rightarrow> addr \<Rightarrow> u64 \<Rightarrow> addr \<times> u64" where
  "memchr_bytes m c s n = (if n \<noteq> 0 \<and> m s \<noteq> c then memchr_bytes m c (s + 1) (n - 1) else (s, n))"
  by pat_completeness auto
termination
  by (relation "measure (\<lambda>(m, c, s, n). unat n)") (auto simp: unat_minus_one unat_gt_0)

declare memchr_align.simps [simp del] memchr_words.simps [simp del] memchr_bytes.simps [simp del]

definition memchr :: "memory \<Rightarrow> addr \<Rightarrow> u32 \<Rightarrow> u64 \<Rightarrow> addr" where
  "memchr m src c0 n =
     (let c = ucast c0 :: u8;
          (s, n) = memchr_align m c src n;
          (s, n) = if n \<noteq> 0 \<and> m s \<noteq> c then memchr_words m (ONES * ucast c) s n else (s, n);
          (s, n) = memchr_bytes m c s n
      in if n \<noteq> 0 then s else 0)"

definition strnlen :: "memory \<Rightarrow> addr \<Rightarrow> u64 \<Rightarrow> u64" where
  "strnlen m s n = (let p = memchr m s 0 n in if p \<noteq> 0 then p - s else n)"

function memrchr :: "memory \<Rightarrow> addr \<Rightarrow> u32 \<Rightarrow> u64 \<Rightarrow> addr" where
  "memrchr m s c n =
     (if n \<noteq> 0 then if m (s + (n - 1)) = ucast c then s + (n - 1) else memrchr m s c (n - 1) else 0)"
  by pat_completeness auto
termination
  by (relation "measure (\<lambda>(m, s, c, n). unat n)") (auto simp: unat_minus_one unat_gt_0)

declare memrchr.simps [simp del]

definition strrchr :: "memory \<Rightarrow> addr \<Rightarrow> u32 \<Rightarrow> addr option" where
  "strrchr m s c = do { n \<leftarrow> strlen m s; Some (memrchr m s c (n + 1)) }"

section \<open>Comparisons\<close>

partial_function (option) strcmp_loop :: "memory \<Rightarrow> addr \<Rightarrow> addr \<Rightarrow> (addr \<times> addr) option" where
  "strcmp_loop m l r = (if m l = m r \<and> m l \<noteq> 0 then strcmp_loop m (l + 1) (r + 1) else Some (l, r))"

declare strcmp_loop.simps [code]

definition strcmp :: "memory \<Rightarrow> addr \<Rightarrow> addr \<Rightarrow> int option" where
  "strcmp m l r = do { (l, r) \<leftarrow> strcmp_loop m l r; Some (uint (m l) - uint (m r)) }"

function strncmp_loop :: "memory \<Rightarrow> addr \<Rightarrow> addr \<Rightarrow> u64 \<Rightarrow> addr \<times> addr" where
  "strncmp_loop m l r n =
     (if m l \<noteq> 0 \<and> m r \<noteq> 0 \<and> n \<noteq> 0 \<and> m l = m r then strncmp_loop m (l + 1) (r + 1) (n - 1) else (l, r))"
  by pat_completeness auto
termination
  by (relation "measure (\<lambda>(m, l, r, n). unat n)") (auto simp: unat_minus_one unat_gt_0)

definition strncmp :: "memory \<Rightarrow> addr \<Rightarrow> addr \<Rightarrow> u64 \<Rightarrow> int" where
  "strncmp m l r n =
     (if n = 0 then 0 else let (l, r) = strncmp_loop m l r (n - 1) in uint (m l) - uint (m r))"

function memcmp_loop :: "memory \<Rightarrow> addr \<Rightarrow> addr \<Rightarrow> u64 \<Rightarrow> addr \<times> addr \<times> u64" where
  "memcmp_loop m l r n = (if n \<noteq> 0 \<and> m l = m r then memcmp_loop m (l + 1) (r + 1) (n - 1) else (l, r, n))"
  by pat_completeness auto
termination
  by (relation "measure (\<lambda>(m, l, r, n). unat n)") (auto simp: unat_minus_one unat_gt_0)

declare strncmp_loop.simps [simp del] memcmp_loop.simps [simp del]

definition memcmp :: "memory \<Rightarrow> addr \<Rightarrow> addr \<Rightarrow> u64 \<Rightarrow> int" where
  "memcmp m l r n = (let (l, r, n) = memcmp_loop m l r n in if n \<noteq> 0 then uint (m l) - uint (m r) else 0)"

text \<open>The conversion of a character to lower case is not part of the library's sources: an argument.\<close>

partial_function (option) strcasecmp_loop ::
  "(u8 \<Rightarrow> int) \<Rightarrow> memory \<Rightarrow> addr \<Rightarrow> addr \<Rightarrow> (addr \<times> addr) option" where
  "strcasecmp_loop tolower m l r =
     (if m l \<noteq> 0 \<and> m r \<noteq> 0 \<and> (m l = m r \<or> tolower (m l) = tolower (m r))
      then strcasecmp_loop tolower m (l + 1) (r + 1) else Some (l, r))"

declare strcasecmp_loop.simps [code]

definition strcasecmp :: "(u8 \<Rightarrow> int) \<Rightarrow> memory \<Rightarrow> addr \<Rightarrow> addr \<Rightarrow> int option" where
  "strcasecmp tolower m l r =
     do { (l, r) \<leftarrow> strcasecmp_loop tolower m l r; Some (tolower (m l) - tolower (m r)) }"

function strncasecmp_loop :: "(u8 \<Rightarrow> int) \<Rightarrow> memory \<Rightarrow> addr \<Rightarrow> addr \<Rightarrow> u64 \<Rightarrow> addr \<times> addr" where
  "strncasecmp_loop tolower m l r n =
     (if m l \<noteq> 0 \<and> m r \<noteq> 0 \<and> n \<noteq> 0 \<and> (m l = m r \<or> tolower (m l) = tolower (m r))
      then strncasecmp_loop tolower m (l + 1) (r + 1) (n - 1) else (l, r))"
  by pat_completeness auto
termination
  by (relation "measure (\<lambda>(t, m, l, r, n). unat n)") (auto simp: unat_minus_one unat_gt_0)

declare strncasecmp_loop.simps [simp del]

definition strncasecmp :: "(u8 \<Rightarrow> int) \<Rightarrow> memory \<Rightarrow> addr \<Rightarrow> addr \<Rightarrow> u64 \<Rightarrow> int" where
  "strncasecmp tolower m l r n =
     (if n = 0 then 0
      else let (l, r) = strncasecmp_loop tolower m l r (n - 1) in tolower (m l) - tolower (m r))"

section \<open>Sets of bytes and tokens\<close>

text \<open>A set of bytes is an array of four words, one bit for each byte.\<close>

definition byteset_add :: "u64 list \<Rightarrow> u8 \<Rightarrow> u64 list" where
  "byteset_add a b = a[unat b div 64 := a ! (unat b div 64) OR push_bit (unat b mod 64) 1]"
definition byteset_has :: "u64 list \<Rightarrow> u8 \<Rightarrow> bool" where
  "byteset_has a b \<longleftrightarrow> a ! (unat b div 64) AND push_bit (unat b mod 64) 1 \<noteq> 0"

partial_function (option) byteset_loop :: "memory \<Rightarrow> u64 list \<Rightarrow> addr \<Rightarrow> u64 list option" where
  "byteset_loop m a c = (if m c \<noteq> 0 then byteset_loop m (byteset_add a (m c)) (c + 1) else Some a)"

declare byteset_loop.simps [code]

definition strspn :: "memory \<Rightarrow> addr \<Rightarrow> addr \<Rightarrow> u64 option" where
  "strspn m a c =
     (if m c = 0 then Some 0
      else if m (c + 1) = 0 then map_option (\<lambda>s. s - a) (byte_loop (\<lambda>b. b \<noteq> m c) m a)
      else do {
        byteset \<leftarrow> byteset_loop m [0, 0, 0, 0] c;
        s \<leftarrow> byte_loop (\<lambda>b. \<not> (b \<noteq> 0 \<and> byteset_has byteset b)) m a;
        Some (s - a) })"

text \<open>\<open>c\<close> is a signed character that the call converts to \<open>int\<close>; only its low byte is used.\<close>

definition strcspn :: "memory \<Rightarrow> addr \<Rightarrow> addr \<Rightarrow> u64 option" where
  "strcspn m a c =
     (if m c = 0 \<or> m (c + 1) = 0 then map_option (\<lambda>s. s - a) (strchrnul m a (scast (m c)))
      else do {
        byteset \<leftarrow> byteset_loop m [0, 0, 0, 0] c;
        s \<leftarrow> byte_loop (\<lambda>b. \<not> (b \<noteq> 0 \<and> \<not> byteset_has byteset b)) m a;
        Some (s - a) })"

definition strpbrk :: "memory \<Rightarrow> addr \<Rightarrow> addr \<Rightarrow> addr option" where
  "strpbrk m s b = do { n \<leftarrow> strcspn m s b; let s = s + n; Some (if m s \<noteq> 0 then s else 0) }"

definition strtok_r :: "memory \<Rightarrow> addr \<Rightarrow> addr \<Rightarrow> addr \<Rightarrow> (memory \<times> addr) option" where
  "strtok_r m s0 sep p =
     (let s = if s0 = 0 then load64 m p else s0
      in if s = 0 then Some (m, 0)
         else do {
           n \<leftarrow> strspn m s sep;
           let s = s + n;
           if m s = 0 then Some (store64 m p 0, 0)
           else do {
             n \<leftarrow> strcspn m s sep;
             let q = s + n;
             let m = store64 m p q;
             Some (if m q \<noteq> 0 then (store64 (m(q := 0)) p (q + 1), s) else (store64 m p 0, s)) } })"

text \<open>The static variable of \<open>strtok\<close> is passed beside the memory.\<close>

definition strtok :: "memory \<times> addr \<Rightarrow> addr \<Rightarrow> addr \<Rightarrow> ((memory \<times> addr) \<times> addr) option" where
  "strtok = (\<lambda>(m, p) s0 sep.
     (let s = if s0 = 0 then p else s0
      in if s = 0 then Some ((m, p), 0)
         else do {
           n \<leftarrow> strspn m s sep;
           let s = s + n;
           if m s = 0 then Some ((m, 0), 0)
           else do {
             n \<leftarrow> strcspn m s sep;
             let p = s + n;
             Some (if m p \<noteq> 0 then ((m(p := 0), p + 1), s) else ((m, 0), s)) } }))"

definition strsep :: "memory \<Rightarrow> addr \<Rightarrow> addr \<Rightarrow> (memory \<times> addr) option" where
  "strsep m str sep =
     (let s = load64 m str
      in if s = 0 then Some (m, 0)
         else do {
           n \<leftarrow> strcspn m s sep;
           let e = s + n;
           Some (if m e \<noteq> 0 then (store64 (m(e := 0)) str (e + 1), s) else (store64 m str 0, s)) })"

section \<open>Copies\<close>

partial_function (option) stpcpy_align :: "memory \<Rightarrow> addr \<Rightarrow> addr \<Rightarrow> (memory \<times> (addr + addr \<times> addr)) option" where
  "stpcpy_align m d s =
     (if s mod 8 \<noteq> 0
      then let m' = m(d := m s) in if m' d = 0 then Some (m', Inl d) else stpcpy_align m' (d + 1) (s + 1)
      else Some (m, Inr (d, s)))"

partial_function (option) stpcpy_words :: "memory \<Rightarrow> addr \<Rightarrow> addr \<Rightarrow> (memory \<times> addr \<times> addr) option" where
  "stpcpy_words m wd ws =
     (if HASZERO (load64 m ws) = 0 then stpcpy_words (store64 m wd (load64 m ws)) (wd + 8) (ws + 8)
      else Some (m, wd, ws))"

partial_function (option) stpcpy_bytes :: "memory \<Rightarrow> addr \<Rightarrow> addr \<Rightarrow> (memory \<times> addr) option" where
  "stpcpy_bytes m d s =
     (let m' = m(d := m s) in if m' d \<noteq> 0 then stpcpy_bytes m' (d + 1) (s + 1) else Some (m', d))"

declare stpcpy_align.simps [code] stpcpy_words.simps [code] stpcpy_bytes.simps [code]

definition stpcpy :: "memory \<Rightarrow> addr \<Rightarrow> addr \<Rightarrow> (memory \<times> addr) option" where
  "stpcpy m d s =
     (if s mod 8 = d mod 8
      then do {
        (m, r) \<leftarrow> stpcpy_align m d s;
        case r of
          Inl d \<Rightarrow> Some (m, d)
        | Inr (d, s) \<Rightarrow> do { (m, d, s) \<leftarrow> stpcpy_words m d s; stpcpy_bytes m d s } }
      else stpcpy_bytes m d s)"

definition strcpy :: "memory \<Rightarrow> addr \<Rightarrow> addr \<Rightarrow> (memory \<times> addr) option" where
  "strcpy m dest src = do { (m, _) \<leftarrow> stpcpy m dest src; Some (m, dest) }"

definition strcat :: "memory \<Rightarrow> addr \<Rightarrow> addr \<Rightarrow> (memory \<times> addr) option" where
  "strcat m dest src =
     do { n \<leftarrow> strlen m dest; (m, _) \<leftarrow> strcpy m (dest + n) src; Some (m, dest) }"

function strncat_loop :: "memory \<Rightarrow> addr \<Rightarrow> addr \<Rightarrow> u64 \<Rightarrow> memory \<times> addr" where
  "strncat_loop m d s n =
     (if n \<noteq> 0 \<and> m s \<noteq> 0 then strncat_loop (m(d := m s)) (d + 1) (s + 1) (n - 1) else (m, d))"
  by pat_completeness auto
termination
  by (relation "measure (\<lambda>(m, d, s, n). unat n)") (auto simp: unat_minus_one unat_gt_0)

definition strncat :: "memory \<Rightarrow> addr \<Rightarrow> addr \<Rightarrow> u64 \<Rightarrow> (memory \<times> addr) option" where
  "strncat m a s n =
     do { k \<leftarrow> strlen m a; Some (let (m, d) = strncat_loop m (a + k) s n in (m(d := 0), a)) }"

text \<open>The assignment in the conditions of the next loops is made also when it ends the loop.\<close>

function copy_align :: "u8 \<Rightarrow> memory \<Rightarrow> addr \<Rightarrow> addr \<Rightarrow> u64 \<Rightarrow> memory \<times> addr \<times> addr \<times> u64" where
  "copy_align c m d s n =
     (if s AND 7 \<noteq> 0 \<and> n \<noteq> 0
      then let m' = m(d := m s) in if m' d \<noteq> c then copy_align c m' (d + 1) (s + 1) (n - 1) else (m', d, s, n)
      else (m, d, s, n))"
  by pat_completeness auto
termination
  by (relation "measure (\<lambda>(c, m, d, s, n). unat n)") (auto simp: unat_minus_one unat_gt_0)

function copy_words :: "u64 \<Rightarrow> memory \<Rightarrow> addr \<Rightarrow> addr \<Rightarrow> u64 \<Rightarrow> memory \<times> addr \<times> addr \<times> u64" where
  "copy_words k m wd ws n =
     (if 8 \<le> n \<and> HASZERO (load64 m ws XOR k) = 0
      then copy_words k (store64 m wd (load64 m ws)) (wd + 8) (ws + 8) (n - 8) else (m, wd, ws, n))"
  by pat_completeness auto
termination
  by (relation "measure (\<lambda>(k, m, d, s, n). unat n)") (auto simp: unat_sub word_le_nat_alt)

function copy_bytes :: "u8 \<Rightarrow> memory \<Rightarrow> addr \<Rightarrow> addr \<Rightarrow> u64 \<Rightarrow> memory \<times> addr \<times> addr \<times> u64" where
  "copy_bytes c m d s n =
     (if n \<noteq> 0
      then let m' = m(d := m s) in if m' d \<noteq> c then copy_bytes c m' (d + 1) (s + 1) (n - 1) else (m', d, s, n)
      else (m, d, s, n))"
  by pat_completeness auto
termination
  by (relation "measure (\<lambda>(c, m, d, s, n). unat n)") (auto simp: unat_minus_one unat_gt_0)

declare strncat_loop.simps [simp del] copy_align.simps [simp del] copy_words.simps [simp del]
  copy_bytes.simps [simp del]

definition stpncpy :: "memory \<Rightarrow> addr \<Rightarrow> addr \<Rightarrow> u64 \<Rightarrow> memory \<times> addr" where
  "stpncpy m d s n =
     (let (m, d, s, n) =
        if s AND 7 = d AND 7
        then let (m, d, s, n) = copy_align 0 m d s n
          in if n = 0 \<or> m s = 0 then (m, d, s, n)
             else let (m, d, s, n) = copy_words 0 m d s n in copy_bytes 0 m d s n
        else copy_bytes 0 m d s n
      in (memset m d 0 n, d))"

definition strncpy :: "memory \<Rightarrow> addr \<Rightarrow> addr \<Rightarrow> u64 \<Rightarrow> memory \<times> addr" where
  "strncpy m d s n = (let (m, _) = stpncpy m d s n in (m, d))"

definition strlcpy :: "memory \<Rightarrow> addr \<Rightarrow> addr \<Rightarrow> u64 \<Rightarrow> (memory \<times> u64) option" where
  "strlcpy m d0 s n0 =
     (if n0 = 0 then map_option (\<lambda>l. (m, 0 + l)) (strlen m s)
      else let n = n0 - 1;
          (m, d, s, n) =
            if s AND 7 = d0 AND 7
            then let (m, d, s, n) = copy_align 0 m d0 s n
              in if n \<noteq> 0 \<and> m s \<noteq> 0 then copy_words 0 m d s n else (m, d, s, n)
            else (m, d0, s, n);
          (m, d, s, n) = copy_bytes 0 m d s n;
          m = m(d := 0)
        in map_option (\<lambda>l. (m, d - d0 + l)) (strlen m s))"

definition strlcat :: "memory \<Rightarrow> addr \<Rightarrow> addr \<Rightarrow> u64 \<Rightarrow> (memory \<times> u64) option" where
  "strlcat m d s n =
     (let l = strnlen m d n
      in if l = n then map_option (\<lambda>k. (m, l + k)) (strlen m s)
         else map_option (\<lambda>(m, k). (m, l + k)) (strlcpy m (d + l) s (n - l)))"

definition memccpy :: "memory \<Rightarrow> addr \<Rightarrow> addr \<Rightarrow> u32 \<Rightarrow> u64 \<Rightarrow> memory \<times> addr" where
  "memccpy m d s c0 n =
     (let c = ucast c0 :: u8;
          (m, d, s, n) =
            if s AND 7 = d AND 7
            then let (m, d, s, n) = copy_align c m d s n
              in if s AND 7 \<noteq> 0 then (m, d, s, n)
                 else let (m, d, s, n) = copy_words (ONES * ucast c) m d s n in copy_bytes c m d s n
            else copy_bytes c m d s n
      in (m, if n \<noteq> 0 then d + 1 else 0))"

text \<open>The allocator of the heap is an argument: the new memory and the address, 0 when there is none.\<close>

definition strdup :: "(memory \<Rightarrow> u64 \<Rightarrow> memory \<times> addr) \<Rightarrow> memory \<Rightarrow> addr \<Rightarrow> (memory \<times> addr) option" where
  "strdup malloc m s = do {
     l \<leftarrow> strlen m s;
     Some (let (m, d) = malloc m (l + 1) in if d = 0 then (m, 0) else (memcpy m d s (l + 1), d)) }"

definition strndup :: "(memory \<Rightarrow> u64 \<Rightarrow> memory \<times> addr) \<Rightarrow> memory \<Rightarrow> addr \<Rightarrow> u64 \<Rightarrow> memory \<times> addr" where
  "strndup malloc m s n =
     (let l = strnlen m s n;
          (m, d) = malloc m (l + 1)
      in if d = 0 then (m, 0) else ((memcpy m d s l)(d + l := 0), d))"

function swab :: "memory \<Rightarrow> addr \<Rightarrow> addr \<Rightarrow> int \<Rightarrow> memory" where
  "swab m src dest n =
     (if n > 1
      then let m = m(dest := m (src + 1)); m = m(dest + 1 := m src) in swab m (src + 2) (dest + 2) (n - 2)
      else m)"
  by pat_completeness auto
termination
  by (relation "measure (\<lambda>(m, s, d, n). nat n)") auto

declare swab.simps [simp del]

end
