(* ===== verification/Musl_String_Props.thy ===== *)
theory Musl_String_Props
  imports Musl_String
begin

text \<open>
  The string functions that read a word at a time (\<open>strlen\<close>, \<open>strchrnul\<close>, \<open>memchr\<close>) agree with the
  loops over single bytes, also where these do not end; from this follow their results on strings that
  end with a zero byte, and those of the comparisons.
\<close>

section \<open>A word and its bytes\<close>

fun bytes_int :: "nat \<Rightarrow> memory \<Rightarrow> addr \<Rightarrow> int" where
  "bytes_int 0 m a = 0"
| "bytes_int (Suc n) m a = uint (m a) + 256 * bytes_int n m (a + 1)"

lemma or_push_bit_8: "(ucast (b :: u8) :: 'a::len word) OR push_bit 8 x = ucast b + 256 * x"
proof -
  have "ucast b OR push_bit 8 x = ucast b + push_bit 8 x"
    by (rule disjunctive_add_eq_or [symmetric], rule bit_word_eqI) (auto simp: bit_simps dest: bit_imp_le_length)
  then show ?thesis by (simp add: push_bit_eq_mult mult.commute)
qed

lemma load_bytes_int: "load_bytes n m a = (of_int (bytes_int n m a) :: 'a::len word)"
  by (induction n arbitrary: a) (simp_all add: or_push_bit_8 del: push_bit_eq_mult)

lemma bytes_int_bounds: "0 \<le> bytes_int n m a" "bytes_int n m a < 256 ^ n"
proof (induction n arbitrary: a)
  case (Suc n)
  case 1
  show ?case using Suc(1) [of "a + 1"] by simp
  case 2
  have "uint (m a) < 256"
    using uint_bounded [of "m a"] by simp
  then show ?case using Suc(2) [of "a + 1"] by simp
qed simp_all

lemma uint_load_bytes: "n \<le> 8 \<Longrightarrow> uint (load_bytes n m a :: u64) = bytes_int n m a"
proof -
  assume "n \<le> 8"
  then have "(256 :: int) ^ n \<le> 256 ^ 8"
    by (rule power_increasing) simp
  then show ?thesis
    using bytes_int_bounds [of n m a] by (simp add: load_bytes_int unsigned_of_int take_bit_int_eq_self)
qed

lemma uint_load64: "uint (load64 m a) = bytes_int 8 m a"
  by (simp add: load64_def uint_load_bytes)

fun ones_int :: "nat \<Rightarrow> int" where
  "ones_int 0 = 0"
| "ones_int (Suc n) = 1 + 256 * ones_int n"

definition zero_bits :: "nat \<Rightarrow> int \<Rightarrow> int" where
  "zero_bits n x = (x - ones_int n) AND NOT x AND (128 * ones_int n)"

lemma int_zero_split: "(k :: int) = 0 \<longleftrightarrow> take_bit 8 k = 0 \<and> drop_bit 8 k = 0"
  using bits_ident [of 8 k] by auto

text \<open>The lowest zero byte is not reached by a borrow, and a byte that is not zero borrows nothing.\<close>

lemma drop_byte: "0 \<le> b \<Longrightarrow> b < 256 \<Longrightarrow> drop_bit 8 (b + 256 * y) = (y :: int)"
  by (simp add: drop_bit_eq_div)

lemma take_byte: "0 \<le> b \<Longrightarrow> b < 256 \<Longrightarrow> take_bit 8 (b + 256 * y) = (b :: int)"
  by (simp add: take_bit_eq_mod)

lemma byte_table: "0 \<le> b \<Longrightarrow> b < 256 \<Longrightarrow> b \<noteq> 0 \<Longrightarrow> (b - 1) AND (255 - b) AND 128 = (0 :: int)"
proof -
  have "\<forall>b\<in>{1..<256}. (b - 1) AND (255 - b) AND 128 = (0 :: int)"
    by code_simp
  then show "0 \<le> b \<Longrightarrow> b < 256 \<Longrightarrow> b \<noteq> 0 \<Longrightarrow> (b - 1) AND (255 - b) AND 128 = (0 :: int)"
    by simp
qed

lemma zero_bits_step:
  assumes b: "0 \<le> b" "b < 256"
  shows "zero_bits (Suc n) (b + 256 * y) = 0 \<longleftrightarrow> b \<noteq> 0 \<and> zero_bits n y = 0"
proof -
  let ?o = "ones_int n"
  have not: "NOT (b + 256 * y) = (255 - b) + 256 * NOT y" and high: "128 * ones_int (Suc n) = 128 + 256 * (128 * ?o)"
    by (simp_all add: not_int_def)
  have parts: "take_bit 8 (NOT (b + 256 * y)) = 255 - b" "drop_bit 8 (NOT (b + 256 * y)) = NOT y"
      "take_bit 8 (128 * ones_int (Suc n)) = 128" "drop_bit 8 (128 * ones_int (Suc n)) = 128 * ?o"
    unfolding not high using b by (simp_all only: take_byte drop_byte)
  show ?thesis
  proof (cases "b = 0")
    case True
    have "b + 256 * y - ones_int (Suc n) = 255 + 256 * (y - ?o - 1)"
      using True by simp
    then have "take_bit 8 (b + 256 * y - ones_int (Suc n)) = 255"
      by (simp only: take_byte)
    then have "take_bit 8 (zero_bits (Suc n) (b + 256 * y)) = 255 AND (255 - b) AND 128"
      by (simp only: zero_bits_def take_bit_and parts)
    then show ?thesis
      using True int_zero_split [of "zero_bits (Suc n) (b + 256 * y)"] by simp
  next
    case False
    have "b + 256 * y - ones_int (Suc n) = (b - 1) + 256 * (y - ?o)"
      by simp
    then have "take_bit 8 (b + 256 * y - ones_int (Suc n)) = b - 1" "drop_bit 8 (b + 256 * y - ones_int (Suc n)) = y - ?o"
      using b False by (simp_all only: take_byte drop_byte)
    then have "take_bit 8 (zero_bits (Suc n) (b + 256 * y)) = (b - 1) AND (255 - b) AND 128"
        "drop_bit 8 (zero_bits (Suc n) (b + 256 * y)) = zero_bits n y"
      by (simp_all only: zero_bits_def take_bit_and drop_bit_and parts)
    then show ?thesis
      using False b byte_table [of b] int_zero_split [of "zero_bits (Suc n) (b + 256 * y)"] by simp
  qed
qed

lemma zero_bits_bytes: "zero_bits n (bytes_int n m a) = 0 \<longleftrightarrow> (\<forall>i<n. m (a + of_nat i) \<noteq> 0)"
proof (induction n arbitrary: a)
  case (Suc n)
  have "zero_bits (Suc n) (bytes_int (Suc n) m a) = 0 \<longleftrightarrow> m a \<noteq> 0 \<and> (\<forall>i<n. m (a + 1 + of_nat i) \<noteq> 0)"
    using zero_bits_step [of "uint (m a)" n "bytes_int n m (a + 1)"] uint_bounded [of "m a"]
    by (simp add: Suc.IH uint_0_iff)
  also have "\<dots> \<longleftrightarrow> (\<forall>i<Suc n. m (a + of_nat i) \<noteq> 0)"
    by (simp add: All_less_Suc2 add.assoc)
  finally show ?case .
qed (simp add: zero_bits_def)

lemma ones_int_8: "ones_int 8 = 0x0101010101010101"
  by (simp add: eval_nat_numeral)

lemma HASZERO_bits: "HASZERO x = of_int (zero_bits 8 (uint x))"
proof -
  have ones: "ONES = of_int (ones_int 8)" and highs: "HIGHS = of_int (128 * ones_int 8)"
    by (simp_all add: ONES_def HIGHS_def ones_int_8)
  have "(of_int (zero_bits 8 (uint x)) :: u64) = (of_int (uint x) - of_int (ones_int 8)) AND NOT (of_int (uint x)) AND of_int (128 * ones_int 8)"
    by (simp only: zero_bits_def of_int_and_eq of_int_not_eq of_int_diff)
  then show ?thesis
    by (simp add: HASZERO_def ones highs)
qed

lemma zero_bits_64: "take_bit 64 (zero_bits 8 x) = zero_bits 8 x"
proof -
  have "take_bit 64 (128 * ones_int 8) = 128 * ones_int 8"
    by (simp add: ones_int_8 take_bit_eq_mod)
  then have "128 * ones_int 8 = mask 64 AND (128 * ones_int 8)"
    by (simp add: take_bit_eq_mask and.commute)
  then show ?thesis
    unfolding zero_bits_def take_bit_eq_mask by (metis and.assoc and.commute)
qed

lemma HASZERO_load64: "HASZERO (load64 m a) = 0 \<longleftrightarrow> (\<forall>i<8. m (a + of_nat i) \<noteq> 0)"
  using word_of_int_eq_iff [of "zero_bits 8 (bytes_int 8 m a)" 0, where ?'a = 64]
  by (simp add: HASZERO_bits zero_bits_64 uint_load64 zero_bits_bytes)

lemma load_bytes_xor:
  "load_bytes n m a XOR load_bytes n m' a = (load_bytes n (\<lambda>b. m b XOR m' b) a :: 'a::len word)"
proof (induction n arbitrary: a)
  case (Suc n)
  have "(ucast x OR push_bit 8 w) XOR (ucast y OR push_bit 8 v) = (ucast (x XOR y) OR push_bit 8 (w XOR v) :: 'a word)"
    for x y :: u8 and v w :: "'a word"
    by (rule bit_word_eqI) (auto simp: bit_simps dest: bit_imp_le_length)
  then show ?case by (simp only: load_bytes.simps Suc.IH)
qed simp

lemma bytes_int_const: "bytes_int n (\<lambda>_. c) a = ones_int n * uint c"
  by (induction n arbitrary: a) (simp_all add: algebra_simps)

lemma ONES_times: "ONES * ucast c = load64 (\<lambda>_. c) a"
  by (simp add: load64_def load_bytes_int bytes_int_const ones_int_8 ONES_def)

lemma xor_0_iff: "x XOR y = 0 \<longleftrightarrow> x = (y :: u8)"
  by (metis xor.assoc xor.left_neutral xor.right_neutral xor_self_eq)

lemma HASZERO_load64_xor: "HASZERO (load64 m a XOR ONES * ucast c) = 0 \<longleftrightarrow> (\<forall>i<8. m (a + of_nat i) \<noteq> c)"
proof -
  have "load64 m a XOR ONES * ucast c = load64 (\<lambda>b. m b XOR c) a"
    unfolding ONES_times [of c a] by (simp add: load64_def load_bytes_xor)
  then show ?thesis
    by (simp add: HASZERO_load64 xor_0_iff)
qed

section \<open>The scanning loops\<close>

lemma byte_loop_stop: "P (m s) \<Longrightarrow> byte_loop P m s = Some s"
  and byte_loop_next: "\<not> P (m s) \<Longrightarrow> byte_loop P m s = byte_loop P m (s + 1)"
  by (subst byte_loop.simps, simp)+

lemma byte_loop_skip:
  "(\<And>i. i < n \<Longrightarrow> \<not> P (m (s + of_nat i))) \<Longrightarrow> byte_loop P m (s + of_nat n) = byte_loop P m s"
proof (induction n arbitrary: s)
  case (Suc n)
  have "byte_loop P m s = byte_loop P m (s + 1)"
    using Suc.prems [of 0] by (simp add: byte_loop_next)
  moreover have "byte_loop P m (s + 1 + of_nat n) = byte_loop P m (s + 1)"
  proof (rule Suc.IH)
    show "\<not> P (m (s + 1 + of_nat i))" if "i < n" for i
      using Suc.prems [of "Suc i"] that by (simp add: add.assoc)
  qed
  ultimately show ?case by (simp add: add.assoc)
qed simp

lemma byte_loop_found:
  "P (m (s + of_nat k)) \<Longrightarrow> (\<And>i. i < k \<Longrightarrow> \<not> P (m (s + of_nat i))) \<Longrightarrow> byte_loop P m s = Some (s + of_nat k)"
  using byte_loop_skip [of k P m s] byte_loop_stop [of P m "s + of_nat k"] by simp

lemma byte_loop_SomeD:
  assumes "byte_loop P m s = Some r"
  shows "\<exists>k. r = s + of_nat k \<and> P (m r) \<and> (\<forall>i<k. \<not> P (m (s + of_nat i)))"
  using assms
proof (rule byte_loop.raw_induct
    [where P = "\<lambda>P m s r. \<exists>k. r = s + of_nat k \<and> P (m r) \<and> (\<forall>i<k. \<not> P (m (s + of_nat i)))", rotated])
  fix loop :: "(u8 \<Rightarrow> bool) \<Rightarrow> memory \<Rightarrow> addr \<Rightarrow> addr option" and P m s r
  assume IH: "\<And>P m s r. loop P m s = Some r \<Longrightarrow> \<exists>k. r = s + of_nat k \<and> P (m r) \<and> (\<forall>i<k. \<not> P (m (s + of_nat i)))"
    and r: "(if P (m s) then Some s else loop P m (s + 1)) = Some r"
  show "\<exists>k. r = s + of_nat k \<and> P (m r) \<and> (\<forall>i<k. \<not> P (m (s + of_nat i)))"
  proof (cases "P (m s)")
    case True
    then show ?thesis using r by (intro exI [of _ 0]) auto
  next
    case False
    then obtain k where "r = s + 1 + of_nat k" "P (m r)" "\<forall>i<k. \<not> P (m (s + 1 + of_nat i))"
      using IH [of P m "s + 1" r] r by auto
    with False show ?thesis
      by (intro exI [of _ "Suc k"]) (auto simp: All_less_Suc2 add.assoc)
  qed
qed

lemma word_loop_bytes:
  assumes Q: "\<And>a. Q (load64 m a) \<longleftrightarrow> (\<exists>i<8. P (m (a + of_nat i)))"
  shows "do { w \<leftarrow> word_loop Q m s; byte_loop P m w } = byte_loop P m s"
proof -
  have skip: "byte_loop P m (a + 8) = byte_loop P m a" if "\<not> Q (load64 m a)" for a
    using byte_loop_skip [of 8 P m a] that by (simp add: Q)
  have "byte_loop P m r = byte_loop P m s" if "word_loop Q m s = Some r" for r
    using that
  proof (rule word_loop.raw_induct [where P = "\<lambda>Q' m' s r. Q' = Q \<longrightarrow> m' = m \<longrightarrow> byte_loop P m r = byte_loop P m s",
        rotated, THEN mp, THEN mp])
    fix loop :: "(u64 \<Rightarrow> bool) \<Rightarrow> memory \<Rightarrow> addr \<Rightarrow> addr option" and Q' m' s r
    assume IH: "\<And>Q' m' s r. loop Q' m' s = Some r \<Longrightarrow> Q' = Q \<longrightarrow> m' = m \<longrightarrow> byte_loop P m r = byte_loop P m s"
      and r: "(if Q' (load64 m' s) then Some s else loop Q' m' (s + 8)) = Some r"
    show "Q' = Q \<longrightarrow> m' = m \<longrightarrow> byte_loop P m r = byte_loop P m s"
      using r IH [of Q' m' "s + 8" r] skip [of s] by (auto split: if_splits)
  qed simp_all
  moreover have "\<exists>r. word_loop Q m a = Some r" if "P (m (a + of_nat k))" for a k
    using that
  proof (induction k arbitrary: a rule: less_induct)
    case (less k)
    show ?case
    proof (cases "Q (load64 m a)")
      case True
      then show ?thesis by (simp add: word_loop.simps [of Q m a])
    next
      case False
      then have "8 \<le> k"
        using less.prems by (auto simp: Q not_less [symmetric])
      then have "P (m (a + 8 + of_nat (k - 8)))"
        using less.prems by simp
      then show ?thesis
        using less.IH [of "k - 8" "a + 8"] \<open>8 \<le> k\<close> False by (simp add: word_loop.simps [of Q m a])
    qed
  qed
  then have "word_loop Q m s \<noteq> None" if "byte_loop P m s = Some r" for r
    using byte_loop_SomeD [OF that] by blast
  ultimately show ?thesis
    by (cases "word_loop Q m s"; cases "byte_loop P m s") auto
qed

lemma unat_inc_mod_8: "unat ((s + 1 :: u64) mod 8) = (unat (s mod 8) + 1) mod 8"
  by (simp add: unat_mod unat_word_ariths mod_simps mod_mod_cancel)

lemma align_loop_bytes:
  "(\<exists>p. align_loop P m s = Some (Inl p) \<and> byte_loop P m s = Some p) \<or>
   (\<exists>p. align_loop P m s = Some (Inr p) \<and> byte_loop P m s = byte_loop P m p)"
proof (induction "8 - unat (s mod 8)" arbitrary: s rule: less_induct)
  case less
  consider "s mod 8 = 0" | "s mod 8 \<noteq> 0" "P (m s)" | "s mod 8 \<noteq> 0" "\<not> P (m s)"
    by blast
  then show ?case
  proof cases
    case 3
    have small: "unat (s mod 8) < 8"
      by (simp add: unat_mod)
    have "(s + 1) mod 8 = 0 \<or> 8 - unat ((s + 1) mod 8) < 8 - unat (s mod 8)"
      using small by (cases "unat (s mod 8) = 7") (auto simp: unat_inc_mod_8 unat_eq_zero [symmetric])
    then have "(\<exists>p. align_loop P m (s + 1) = Some (Inl p) \<and> byte_loop P m (s + 1) = Some p) \<or>
        (\<exists>p. align_loop P m (s + 1) = Some (Inr p) \<and> byte_loop P m (s + 1) = byte_loop P m p)"
    proof
      assume "(s + 1) mod 8 = 0"
      then have "align_loop P m (s + 1) = Some (Inr (s + 1))"
        by (subst align_loop.simps) (simp only: if_False simp_thms)
      then show ?thesis by blast
    qed (rule less)
    with 3 show ?thesis by (simp add: align_loop.simps [of P m s] byte_loop_next)
  qed (auto simp: align_loop.simps [of P m s] byte_loop_stop)
qed

lemma scan_bytes:
  assumes Q: "\<And>a. Q (load64 m a) \<longleftrightarrow> (\<exists>i<8. P (m (a + of_nat i)))"
  shows "do { r \<leftarrow> align_loop P m a;
      case r of Inl s \<Rightarrow> Some (f s) | Inr s \<Rightarrow> do { w \<leftarrow> word_loop Q m s; s \<leftarrow> byte_loop P m w; Some (f s) } } =
    map_option f (byte_loop P m a)"
proof -
  have "do { w \<leftarrow> word_loop Q m s; s \<leftarrow> byte_loop P m w; Some (f s) } = map_option f (byte_loop P m s)" for s
  proof -
    have "do { w \<leftarrow> word_loop Q m s; s \<leftarrow> byte_loop P m w; Some (f s) } =
        do { s \<leftarrow> do { w \<leftarrow> word_loop Q m s; byte_loop P m w }; Some (f s) }"
      by (cases "word_loop Q m s") simp_all
    then show ?thesis
      by (simp only: word_loop_bytes [where P = P, OF Q]) (simp add: map_conv_bind_option comp_def)
  qed
  then show ?thesis
    using align_loop_bytes [of P m a] by auto
qed

lemma strlen_bytes: "strlen m a = map_option (\<lambda>s. s - a) (byte_loop (\<lambda>b. b = 0) m a)"
  unfolding strlen_def by (rule scan_bytes) (auto simp: HASZERO_load64)

lemma strchrnul_bytes: "strchrnul m s c = byte_loop (\<lambda>b. b = 0 \<or> b = ucast c) m s"
proof (cases "(ucast c :: u8) = 0")
  case True
  then show ?thesis
    by (simp add: strchrnul_def strlen_bytes option.map_comp comp_def option.map_id [unfolded id_def])
next
  case False
  have "do { r \<leftarrow> align_loop (\<lambda>b. b = 0 \<or> b = ucast c) m s;
      case r of Inl s \<Rightarrow> Some s
      | Inr s \<Rightarrow> do { w \<leftarrow> word_loop (\<lambda>x. HASZERO x = 0 \<longrightarrow> HASZERO (x XOR ONES * ucast (ucast c :: u8)) \<noteq> 0) m s;
          s \<leftarrow> byte_loop (\<lambda>b. b = 0 \<or> b = ucast c) m w; Some s } } =
    map_option (\<lambda>s. s) (byte_loop (\<lambda>b. b = 0 \<or> b = ucast c) m s)"
    by (rule scan_bytes) (auto simp: HASZERO_load64 HASZERO_load64_xor)
  then show ?thesis
    using False
    by (simp add: strchrnul_def Let_def Option.bind_runit option.map_id [unfolded id_def] cong: sum.case_cong)
qed

section \<open>Searching a block\<close>

lemma memchr_bytes_skip:
  "k \<le> unat n \<Longrightarrow> (\<And>i. i < k \<Longrightarrow> m (s + of_nat i) \<noteq> c) \<Longrightarrow>
    memchr_bytes m c s n = memchr_bytes m c (s + of_nat k) (n - of_nat k)"
proof (induction k)
  case (Suc k)
  have "memchr_bytes m c s n = memchr_bytes m c (s + of_nat k) (n - of_nat k)"
    using Suc.prems by (intro Suc.IH) simp_all
  moreover have "n - of_nat k \<noteq> 0"
  proof
    assume "n - of_nat k = 0"
    then have "unat n \<le> k"
      by (simp add: unat_of_nat)
    with Suc.prems(1) show False by simp
  qed
  ultimately show ?case
    using Suc.prems(2) [of k] memchr_bytes.simps [of m c "s + of_nat k" "n - of_nat k"] by (simp add: algebra_simps)
qed simp

lemma memchr_align_bytes:
  "memchr_align m c s n = (s', n') \<Longrightarrow> memchr_bytes m c s' n' = memchr_bytes m c s n"
proof (induction m c s n rule: memchr_align.induct)
  case (1 m c s n)
  then show ?case
    by (cases "s AND 7 \<noteq> 0 \<and> n \<noteq> 0 \<and> m s \<noteq> c")
      (simp_all add: memchr_align.simps [of m c s n] memchr_bytes.simps [of m c s n])
qed

lemma memchr_words_bytes:
  "memchr_words m (ONES * ucast c) s n = (s', n') \<Longrightarrow> memchr_bytes m c s' n' = memchr_bytes m c s n"
proof (induction m "ONES * ucast c" s n rule: memchr_words.induct)
  case (1 m s n)
  let ?more = "8 \<le> n \<and> HASZERO (load64 m s XOR ONES * ucast c) = 0"
  show ?case
  proof (cases ?more)
    case True
    then have "memchr_bytes m c s n = memchr_bytes m c (s + 8) (n - 8)"
      using memchr_bytes_skip [of 8 n m s c] by (simp add: HASZERO_load64_xor word_le_nat_alt)
    then show ?thesis
      using 1 True by (simp add: memchr_words.simps [of m _ s n])
  next
    case False
    then show ?thesis
      using "1.prems" by (simp add: memchr_words.simps [of m _ s n] split: if_splits)
  qed
qed

lemma memchr_bytes_eq: "memchr m s c n = (let (s, n) = memchr_bytes m (ucast c) s n in if n \<noteq> 0 then s else 0)"
proof -
  obtain s1 n1 where 1: "memchr_align m (ucast c) s n = (s1, n1)"
    by fastforce
  obtain s2 n2 where 2: "(if n1 \<noteq> 0 \<and> m s1 \<noteq> ucast c
      then memchr_words m (ONES * ucast (ucast c :: u8)) s1 n1 else (s1, n1)) = (s2, n2)"
    by fastforce
  have "memchr_bytes m (ucast c) s2 n2 = memchr_bytes m (ucast c) s n"
    using memchr_align_bytes [OF 1] memchr_words_bytes 2 by (simp split: if_splits)
  then show ?thesis
    by (simp add: memchr_def 1 2)
qed

lemma memchr_bytes_find:
  "(let (s', n') = memchr_bytes m c s n in if n' \<noteq> 0 then Some s' else None) =
    map_option (\<lambda>i. s + of_nat i) (find (\<lambda>i. m (s + of_nat i) = c) [0..<unat n])"
proof (induction m c s n rule: memchr_bytes.induct)
  case (1 m c s n)
  show ?case
  proof (cases "n = 0")
    case True
    then show ?thesis by (simp add: memchr_bytes.simps [of m c s 0])
  next
    case False
    then have range: "[0..<unat n] = 0 # map Suc [0..<unat (n - 1)]"
      using upt_conv_Cons [of 0 "unat n"] by (simp add: unat_minus_one unat_gt_0 map_Suc_upt)
    show ?thesis
    proof (cases "m s = c")
      case True
      then show ?thesis using False by (simp add: memchr_bytes.simps [of m c s n] range)
    next
      case False
      then have "find (\<lambda>i. m (s + of_nat i) = c) [0..<unat n] =
          map_option Suc (find (\<lambda>i. m (s + 1 + of_nat i) = c) [0..<unat (n - 1)])"
        by (simp add: range find_map comp_def add.assoc)
      then show ?thesis
        using 1 False \<open>n \<noteq> 0\<close>
        by (simp add: memchr_bytes.simps [of m c s n] option.map_comp comp_def add.assoc)
    qed
  qed
qed

section \<open>Strings that end with a zero byte\<close>

definition c_string :: "memory \<Rightarrow> addr \<Rightarrow> u8 list \<Rightarrow> bool" where
  "c_string m s xs \<longleftrightarrow> (\<forall>i<length xs. m (s + of_nat i) = xs ! i \<and> xs ! i \<noteq> 0) \<and> m (s + of_nat (length xs)) = 0"

lemma c_string_Nil [simp]: "c_string m s [] \<longleftrightarrow> m s = 0"
  by (simp add: c_string_def)

lemma c_string_Cons [simp]: "c_string m s (x # xs) \<longleftrightarrow> m s = x \<and> x \<noteq> 0 \<and> c_string m (s + 1) xs"
  by (auto simp: c_string_def All_less_Suc2 add.assoc)

lemma c_string_append:
  "c_string m s (xs @ ys) \<longleftrightarrow>
     (\<forall>i<length xs. m (s + of_nat i) = xs ! i \<and> xs ! i \<noteq> 0) \<and> c_string m (s + of_nat (length xs)) ys"
  by (induction xs arbitrary: s) (simp_all add: All_less_Suc2 add.assoc)

lemma c_string_length:
  assumes "c_string m s xs"
  shows "length xs < 2 ^ 64"
proof (rule ccontr)
  assume "\<not> length xs < 2 ^ 64"
  then have "length xs mod 2 ^ 64 < length xs"
    by (intro less_le_trans [OF mod_less_divisor]) simp_all
  moreover have "(of_nat (length xs mod 2 ^ 64) :: u64) = of_nat (length xs)"
    by (rule unsigned_word_eqI [where ?'a = nat]) (simp add: unat_of_nat)
  ultimately show False
    using assms unfolding c_string_def by metis
qed

lemma strlen_c_string: "c_string m s xs \<Longrightarrow> strlen m s = Some (of_nat (length xs))"
  using byte_loop_found [of "\<lambda>b. b = 0" m s "length xs"] by (simp add: strlen_bytes c_string_def)

fun cmp_bytes :: "u8 list \<Rightarrow> u8 list \<Rightarrow> int" where
  "cmp_bytes [] [] = 0"
| "cmp_bytes [] (y # ys) = - uint y"
| "cmp_bytes (x # xs) [] = uint x"
| "cmp_bytes (x # xs) (y # ys) = (if x = y then cmp_bytes xs ys else uint x - uint y)"

lemma strcmp_c_string: "c_string m l xs \<Longrightarrow> c_string m r ys \<Longrightarrow> strcmp m l r = Some (cmp_bytes xs ys)"
proof (induction xs ys arbitrary: l r rule: cmp_bytes.induct)
  case (4 x xs y ys)
  then show ?case by (simp add: strcmp_def strcmp_loop.simps [of m l r])
qed (simp_all add: strcmp_def strcmp_loop.simps [of m])

lemma uint_nonneg_pos: "(x :: u8) \<noteq> 0 \<Longrightarrow> 0 < uint x"
  by (simp add: uint_0_iff [symmetric] less_le del: uint_0_iff)

lemma cmp_bytes_order:
  "0 \<notin> set xs \<Longrightarrow> 0 \<notin> set ys \<Longrightarrow> (cmp_bytes xs ys = 0 \<longleftrightarrow> xs = ys) \<and> (cmp_bytes xs ys < 0 \<longleftrightarrow> ord_class.lexordp xs ys)"
proof (induction xs ys rule: cmp_bytes.induct)
  case (4 x xs y ys)
  have "uint x = uint y \<longleftrightarrow> x = y"
    by (auto intro: unsigned_word_eqI)
  with 4 show ?case by (auto simp: word_less_def)
qed (auto simp: uint_nonneg_pos uint_0_iff)

section \<open>Copies\<close>

text \<open>Storing a word that was loaded copies eight bytes.\<close>

lemma ucast_load_bytes: "ucast (load_bytes (Suc n) m a :: u64) = m a"
  by (rule bit_word_eqI) (simp add: bit_simps)

lemma drop_load_bytes: "Suc n \<le> 8 \<Longrightarrow> drop_bit 8 (load_bytes (Suc n) m a :: u64) = load_bytes n m (a + 1)"
proof (rule unsigned_word_eqI [where ?'a = int])
  assume n: "Suc n \<le> 8"
  have "uint (drop_bit 8 w) = drop_bit 8 (uint w)" for w :: u64
    by (rule bit_eqI) (auto simp: bit_simps dest: bit_imp_le_length)
  then have "uint (drop_bit 8 (load_bytes (Suc n) m a :: u64)) = drop_bit 8 (bytes_int (Suc n) m a)"
    using n by (simp only: uint_load_bytes)
  then show "uint (drop_bit 8 (load_bytes (Suc n) m a :: u64)) = uint (load_bytes n m (a + 1) :: u64)"
    using n uint_bounded [of "m a"] by (simp add: uint_load_bytes drop_byte)
qed

lemma store_copied_bytes:
  "n \<le> 8 \<Longrightarrow> store_bytes n m d (load_bytes n m' s :: u64) =
    (\<lambda>b. if \<exists>k<n. b = d + of_nat k then m' (s + (b - d)) else m b)"
proof (induction n arbitrary: d s)
  case (Suc n)
  have "store_bytes (Suc n) m d (load_bytes (Suc n) m' s :: u64) =
      (store_bytes n m (d + 1) (load_bytes n m' (s + 1) :: u64))(d := m' s)"
    using Suc.prems unfolding store_bytes.simps by (simp only: ucast_load_bytes drop_load_bytes)
  also have "\<dots> = (\<lambda>b. if \<exists>k<Suc n. b = d + of_nat k then m' (s + (b - d)) else m b)"
    using Suc by (auto simp: fun_eq_iff Ex_less_Suc2 add.assoc)
  finally show ?case .
qed simp

lemma store_copied_word: "store64 m d (load64 m s) = memcpy m d s 8"
  by (simp add: store64_def load64_def store_copied_bytes memcpy_def in_region_of_nat fun_eq_iff)

definition copied :: "memory \<Rightarrow> addr \<Rightarrow> addr \<Rightarrow> nat \<Rightarrow> memory" where
  "copied m d s k = (\<lambda>b. if \<exists>j<k. b = d + of_nat j then m (s + (b - d)) else m b)"

definition copyable :: "memory \<Rightarrow> addr \<Rightarrow> addr \<Rightarrow> u8 list \<Rightarrow> bool" where
  "copyable m d s xs \<longleftrightarrow> c_string m s xs \<and>
     (\<forall>i\<le>length xs. \<forall>j\<le>length xs. s + of_nat i \<noteq> d + of_nat j)"

lemma copied_0 [simp]: "copied m d s 0 = m"
  by (simp add: copied_def)

lemma copied_source:
  "copyable m d s xs \<Longrightarrow> i \<le> length xs \<Longrightarrow> k \<le> Suc (length xs) \<Longrightarrow> copied m d s k (s + of_nat i) = m (s + of_nat i)"
  by (force simp: copied_def copyable_def)

lemma copied_byte:
  assumes "copyable m d s xs" "k \<le> length xs"
  shows "(copied m d s k)(d + of_nat k := copied m d s k (s + of_nat k)) = copied m d s (Suc k)"
  using copied_source [OF assms(1), of k k] assms(2)
  by (auto simp: fun_eq_iff copied_def less_Suc_eq)

lemma copied_word:
  assumes c: "copyable m d s xs" and k: "k + 8 \<le> Suc (length xs)"
  shows "memcpy (copied m d s k) (d + of_nat k) (s + of_nat k) 8 = copied m d s (k + 8)"
proof
  fix b
  show "memcpy (copied m d s k) (d + of_nat k) (s + of_nat k) 8 b = copied m d s (k + 8) b"
  proof (cases "\<exists>i<8. b = d + of_nat k + of_nat i")
    case True
    then obtain i where i: "i < 8" "b = d + of_nat (k + i)"
      by (auto simp: add.assoc)
    then have "\<exists>j<k + 8. b = d + of_nat j"
      by (intro exI [of _ "k + i"]) simp
    then have "copied m d s (k + 8) b = m (s + of_nat (k + i))"
      using i(2) unfolding copied_def by simp
    moreover have "copied m d s k (s + of_nat (k + i)) = m (s + of_nat (k + i))"
      using i(1) k by (intro copied_source [OF c]) simp_all
    moreover have "memcpy (copied m d s k) (d + of_nat k) (s + of_nat k) 8 b = copied m d s k (s + of_nat (k + i))"
      using True i(2) by (simp add: memcpy_def in_region_of_nat add.assoc)
    ultimately show ?thesis by simp
  next
    case False
    then have "b \<noteq> d + of_nat j" if "j < k + 8" "k \<le> j" for j
      using that by (auto simp: add.assoc dest!: le_Suc_ex)
    then have "(\<exists>j<k + 8. b = d + of_nat j) \<longleftrightarrow> (\<exists>j<k. b = d + of_nat j)"
      using not_less by (blast intro: trans_less_add1)
    then have "copied m d s (k + 8) b = copied m d s k b"
      by (simp only: copied_def)
    moreover have "memcpy (copied m d s k) (d + of_nat k) (s + of_nat k) 8 b = copied m d s k b"
      using False by (auto simp: memcpy_def in_region_of_nat)
    ultimately show ?thesis by simp
  qed
qed

lemma copyable_byte:
  assumes "copyable m d s xs" "k \<le> length xs"
  shows "copied m d s k (s + of_nat k) = 0 \<longleftrightarrow> k = length xs"
  using assms copied_source [of m d s xs k k] by (auto simp: copyable_def c_string_def le_less)

lemma copied_at:
  assumes "copyable m d s xs" "k \<le> length xs"
  shows "copied m d s (Suc k) (d + of_nat k) = 0 \<longleftrightarrow> k = length xs"
  using copyable_byte [OF assms] by (simp flip: copied_byte [OF assms])

lemma stpcpy_bytes_copies:
  assumes c: "copyable m d s xs" and "k \<le> length xs"
  shows "stpcpy_bytes (copied m d s k) (d + of_nat k) (s + of_nat k) =
    Some (copied m d s (Suc (length xs)), d + of_nat (length xs))"
  using assms(2)
proof (induction rule: inc_induct)
  case base
  show ?case
    using copied_at [OF c order_refl] copied_byte [OF c order_refl]
    by (subst stpcpy_bytes.simps) (simp only: Let_def if_False simp_thms)
next
  case (step k)
  have s: "copied m d s (Suc k) (d + of_nat k) \<noteq> 0 \<longleftrightarrow> True"
    using copied_at [OF c, of k] step by simp
  show ?case
    unfolding step.IH [symmetric] using step copied_byte [OF c, of k]
    by (subst stpcpy_bytes.simps) (simp add: Let_def s ac_simps)
qed

lemma stpcpy_words_copies:
  assumes c: "copyable m d s xs"
  shows "k \<le> length xs \<Longrightarrow> \<exists>j\<ge>k. j \<le> length xs \<and>
    stpcpy_words (copied m d s k) (d + of_nat k) (s + of_nat k) = Some (copied m d s j, d + of_nat j, s + of_nat j)"
proof (induction "length xs - k" arbitrary: k rule: less_induct)
  case less
  show ?case
  proof (cases "HASZERO (load64 (copied m d s k) (s + of_nat k)) = 0")
    case True
    then have nz: "copied m d s k (s + of_nat (k + i)) \<noteq> 0" if "i < 8" for i
      using that by (simp add: HASZERO_load64 add.assoc)
    have "k + 8 \<le> length xs"
    proof (rule ccontr)
      assume "\<not> k + 8 \<le> length xs"
      then have "copied m d s k (s + of_nat (length xs)) \<noteq> 0"
        using nz [of "length xs - k"] less.prems by simp
      moreover have "copied m d s k (s + of_nat (length xs)) = 0"
        using copied_source [OF c, of "length xs" k] c less.prems by (simp add: copyable_def c_string_def)
      ultimately show False by simp
    qed
    moreover from this have "store64 (copied m d s k) (d + of_nat k) (load64 (copied m d s k) (s + of_nat k)) = copied m d s (k + 8)"
      using copied_word [OF c, of k] by (simp add: store_copied_word)
    moreover from this True have "stpcpy_words (copied m d s k) (d + of_nat k) (s + of_nat k) =
        stpcpy_words (copied m d s (k + 8)) (d + of_nat (k + 8)) (s + of_nat (k + 8))"
      by (subst stpcpy_words.simps) (simp add: add.assoc)
    ultimately show ?thesis
      using less.hyps [of "k + 8"] by (fastforce simp del: of_nat_add dest: add_leD1)
  next
    case False
    then show ?thesis
      using less.prems by (subst stpcpy_words.simps) auto
  qed
qed

lemma stpcpy_align_copies:
  assumes c: "copyable m d s xs"
  shows "k \<le> length xs \<Longrightarrow>
    stpcpy_align (copied m d s k) (d + of_nat k) (s + of_nat k) =
      Some (copied m d s (Suc (length xs)), Inl (d + of_nat (length xs))) \<or>
    (\<exists>j\<ge>k. j \<le> length xs \<and>
      stpcpy_align (copied m d s k) (d + of_nat k) (s + of_nat k) = Some (copied m d s j, Inr (d + of_nat j, s + of_nat j)))"
proof (induction "length xs - k" arbitrary: k rule: less_induct)
  case less
  consider "(s + of_nat k) mod 8 = 0" | "(s + of_nat k) mod 8 \<noteq> 0" "k = length xs"
    | "(s + of_nat k) mod 8 \<noteq> 0" "k < length xs"
    using less.prems by fastforce
  then show ?case
  proof cases
    case 1
    then show ?thesis using less.prems by (subst (1 2) stpcpy_align.simps) auto
  next
    case 2
    then show ?thesis
      using copied_at [OF c, of k] copied_byte [OF c, of k] by (subst stpcpy_align.simps) (simp add: Let_def)
  next
    case 3
    then have "stpcpy_align (copied m d s k) (d + of_nat k) (s + of_nat k) =
        stpcpy_align (copied m d s (Suc k)) (d + of_nat (Suc k)) (s + of_nat (Suc k))"
      using copied_at [OF c, of k] copied_byte [OF c, of k]
      by (subst stpcpy_align.simps) (simp add: Let_def ac_simps)
    moreover have "length xs - Suc k < length xs - k" "Suc k \<le> length xs"
      using 3 by simp_all
    ultimately show ?thesis
      using less.hyps [of "Suc k"] Suc_leD by metis
  qed
qed

lemma stpcpy_copies:
  assumes c: "copyable m d s xs"
  shows "stpcpy m d s = Some (copied m d s (Suc (length xs)), d + of_nat (length xs))"
proof -
  have words: "do { (m, d, s) \<leftarrow> stpcpy_words (copied m d s k) (d + of_nat k) (s + of_nat k); stpcpy_bytes m d s } =
      Some (copied m d s (Suc (length xs)), d + of_nat (length xs))" if "k \<le> length xs" for k
    using stpcpy_words_copies [OF c that] stpcpy_bytes_copies [OF c] by auto
  show ?thesis
    using stpcpy_align_copies [OF c, of 0] words stpcpy_bytes_copies [OF c, of 0]
    by (auto simp: stpcpy_def)
qed

lemma of_nat_u64_eq: "i < 2 ^ 64 \<Longrightarrow> j < 2 ^ 64 \<Longrightarrow> (of_nat i :: u64) = of_nat j \<longleftrightarrow> i = j"
  by (auto dest!: arg_cong [where f = unat] simp: unat_of_nat)

lemma copied_target:
  assumes "copyable m d s xs"
  shows "c_string (copied m d s (Suc (length xs))) d xs"
proof -
  have "copied m d s (Suc (length xs)) (d + of_nat j) = m (s + of_nat j)" if "j \<le> length xs" for j
    using that by (auto simp: copied_def less_Suc_eq_le)
  with assms show ?thesis
    by (simp add: c_string_def copyable_def)
qed

section \<open>Results\<close>

text \<open>
  C9. The functions that examine a word at a time compute what a search of single bytes computes:
  \<^const>\<open>strlen\<close> the distance to the first zero byte and \<^const>\<open>strchrnul\<close> the first byte that is zero or the
  character, each of them running for ever exactly when no byte of the memory ends the search, and
  \<^const>\<open>memchr\<close> the first of the \<open>n\<close> bytes that is the character, or 0.
\<close>

theorem musl_word_scans_equivalent:
  "strlen m s = map_option (\<lambda>p. p - s) (byte_loop (\<lambda>b. b = 0) m s) \<and>
   strchrnul m s c = byte_loop (\<lambda>b. b = 0 \<or> b = ucast c) m s \<and>
   memchr m s c n =
     (case find (\<lambda>i. m (s + of_nat i) = ucast c) [0..<unat n] of None \<Rightarrow> 0 | Some i \<Rightarrow> s + of_nat i)"
proof (intro conjI)
  show "memchr m s c n =
     (case find (\<lambda>i. m (s + of_nat i) = ucast c) [0..<unat n] of None \<Rightarrow> 0 | Some i \<Rightarrow> s + of_nat i)"
    using memchr_bytes_find [of m "ucast c" s n] unfolding memchr_bytes_eq
    by (auto split: prod.splits option.splits if_splits)
qed (rule strlen_bytes strchrnul_bytes)+

definition string_example :: memory where
  "string_example a = (if a = 0x1000 then 0x61 else if a = 0x1001 then 0x62 else if a = 0x2003 then 0x63 else 0)"

text \<open>
  C20. Concatenation: with two strings that end with a zero byte, and a target whose old string and new
  bytes do not meet the source and do not go around the address space, \<^const>\<open>strcat\<close> returns, the target
  holds the concatenation, the source its string, and no byte is changed but those from the end of the
  target's old string to the end of the new one.
\<close>

theorem strcat_appends:
  assumes d: "c_string m d ys" and s: "c_string m s xs"
    and apart: "\<And>i j. i \<le> length xs \<Longrightarrow> j \<le> length ys + length xs \<Longrightarrow> s + of_nat i \<noteq> d + of_nat j"
    and size: "length ys + length xs < 2 ^ 64"
  shows "\<exists>m'. strcat m d s = Some (m', d) \<and> c_string m' d (ys @ xs) \<and> c_string m' s xs \<and>
    (\<forall>b. (\<forall>j\<le>length xs. b \<noteq> d + of_nat (length ys + j)) \<longrightarrow> m' b = m b)"
proof (intro exI conjI)
  let ?e = "d + of_nat (length ys)"
  let ?m = "copied m ?e s (Suc (length xs))"
  have "s + of_nat i \<noteq> ?e + of_nat j" if "i \<le> length xs" "j \<le> length xs" for i j
    using apart [of i "length ys + j"] that by (simp add: add.assoc)
  then have c: "copyable m ?e s xs"
    using s by (simp add: copyable_def)
  show "strcat m d s = Some (?m, d)"
    by (simp add: strcat_def strlen_c_string [OF d] strcpy_def stpcpy_copies [OF c])
  have keep: "?m b = m b" if "\<And>j. j \<le> length xs \<Longrightarrow> b \<noteq> d + of_nat (length ys + j)" for b
    using that by (auto simp: copied_def less_Suc_eq_le add.assoc)
  then show "\<forall>b. (\<forall>j\<le>length xs. b \<noteq> d + of_nat (length ys + j)) \<longrightarrow> ?m b = m b"
    by blast
  show "c_string ?m s xs"
    using s copied_source [OF c] by (auto simp: c_string_def)
  have "d + of_nat i \<noteq> d + of_nat (length ys + j)" if "i < length ys" "j \<le> length xs" for i j
    using that size of_nat_u64_eq [of i "length ys + j"] by simp
  then have "?m (d + of_nat i) = ys ! i" "ys ! i \<noteq> 0" if "i < length ys" for i
    using that keep [of "d + of_nat i"] d by (simp_all add: c_string_def)
  then show "c_string ?m d (ys @ xs)"
    using copied_target [OF c] by (simp add: c_string_append)
qed

theorem strcat_appends_witness:
  "\<exists>m'. strcat string_example 0x1000 0x2003 = Some (m', 0x1000) \<and> c_string m' 0x1000 [0x61, 0x62, 0x63] \<and>
    c_string m' 0x2003 [0x63] \<and> (\<forall>b. b \<noteq> 0x1002 \<and> b \<noteq> 0x1003 \<longrightarrow> m' b = string_example b)"
proof -
  have "\<exists>m'. strcat string_example 0x1000 0x2003 = Some (m', 0x1000) \<and> c_string m' 0x1000 ([0x61, 0x62] @ [0x63]) \<and>
      c_string m' 0x2003 [0x63] \<and>
      (\<forall>b. (\<forall>j\<le>length [0x63 :: u8]. b \<noteq> 0x1000 + of_nat (length [0x61, 0x62 :: u8] + j)) \<longrightarrow> m' b = string_example b)"
  proof (rule strcat_appends)
    show "(0x2003 :: u64) + of_nat i \<noteq> 0x1000 + of_nat j"
      if "i \<le> length [0x63 :: u8]" "j \<le> length [0x61, 0x62 :: u8] + length [0x63 :: u8]" for i j
    proof -
      have "i \<in> {0, 1}" "j \<in> {0, 1, 2, 3}"
        using that by auto
      then show ?thesis by auto
    qed
  qed (simp_all add: string_example_def)
  then show ?thesis
    by (auto simp: le_Suc_eq)
qed

end
