(* ===== verification/Bootloader.thy ===== *)
theory Bootloader
  imports Kernel_Macros Framebuffer
begin

text \<open>
  \<^verbatim>\<open>module.h\<close>, \<^verbatim>\<open>bootloader.h\<close> and \<^verbatim>\<open>bootloader.c\<close>: the files the boot loader leaves in memory and the
  information about the machine, independent of the boot protocol.  The structures that
  \<open>BootloaderInformation\<close> points to are variables of \<^verbatim>\<open>bootloader.c\<close> and are kept in it.
\<close>

definition MODULE_PSF1_WIDTH :: u8 where
  "MODULE_PSF1_WIDTH = 8"

record Module =
  mo_header :: addr
  mo_body :: addr
  mo_size :: u64

record ModulePSF1Header =
  psf1_magic :: "u8 list"
  psf1_mode :: u8
  psf1_charsize :: u8

definition get_ModulePSF1Header :: "memory \<Rightarrow> addr \<Rightarrow> ModulePSF1Header" where
  "get_ModulePSF1Header m a = \<lparr>psf1_magic = load_array 2 m a, psf1_mode = m (a + 2), psf1_charsize = m (a + 3)\<rparr>"

definition sizeof_ModulePSF1Header :: u64 where
  "sizeof_ModulePSF1Header = 4"

record ModuleTGAHeader =
  tga_id_length :: u8
  tga_color_map_type :: u8
  tga_image_type :: u8
  tga_color_map_index :: u16
  tga_color_map_length :: u16
  tga_depth :: u8
  tga_xorg :: u16
  tga_yorg :: u16
  tga_width :: u16
  tga_height :: u16
  tga_bbp :: u8
  tga_descriptor :: u8

definition get_ModuleTGAHeader :: "memory \<Rightarrow> addr \<Rightarrow> ModuleTGAHeader" where
  "get_ModuleTGAHeader m a = \<lparr>tga_id_length = m a, tga_color_map_type = m (a + 1), tga_image_type = m (a + 2),
     tga_color_map_index = load16 m (a + 3), tga_color_map_length = load16 m (a + 5),
     tga_depth = m (a + 7), tga_xorg = load16 m (a + 8), tga_yorg = load16 m (a + 10),
     tga_width = load16 m (a + 12), tga_height = load16 m (a + 14), tga_bbp = m (a + 16),
     tga_descriptor = m (a + 17)\<rparr>"

definition sizeof_ModuleTGAHeader :: u64 where
  "sizeof_ModuleTGAHeader = 18"

record BootloaderInformation =
  bi_framebuffer :: Framebuffer
  bi_memorymap :: MemoryMap
  bi_rsdp :: addr
  bi_kernel_header :: addr
  bi_kernel_offset :: u64
  bi_font :: Module
  bi_image :: Module

definition s_bootloader_info :: BootloaderInformation where
  "s_bootloader_info = \<lparr>bi_framebuffer = \<lparr>fb_base = 0, fb_width = 0, fb_height = 0, fb_pitch = 0, fb_bpp = 0\<rparr>,
     bi_memorymap = \<lparr>entries = []\<rparr>, bi_rsdp = 0, bi_kernel_header = 0, bi_kernel_offset = 0,
     bi_font = \<lparr>mo_header = 0, mo_body = 0, mo_size = 0\<rparr>, bi_image = \<lparr>mo_header = 0, mo_body = 0, mo_size = 0\<rparr>\<rparr>"

end
