(* ===== verification/Stivale2.thy ===== *)
theory Stivale2
  imports Bootloader Musl_String
begin

text \<open>
  \<^verbatim>\<open>stivale2.h\<close> and \<^verbatim>\<open>stivale2.c\<close>: the structures of the stivale2 boot protocol and their translation to
  \<open>BootloaderInformation\<close>.  The structures lie in memory as packed records; an array at the end of
  one is read at its address.
\<close>

section \<open>Identifiers\<close>

datatype Stivale2HeaderTagIdentifier =
  STIVALE2_HEADER_TAG_IDENTIFIER_FRAMEBUFFER | STIVALE2_HEADER_TAG_IDENTIFIER_MTRR_WC
| STIVALE2_HEADER_TAG_IDENTIFIER_TERMINAL | STIVALE2_HEADER_TAG_IDENTIFIER_5LEVEL_PAGING
| STIVALE2_HEADER_TAG_IDENTIFIER_UNMAP_NULL | STIVALE2_HEADER_TAG_IDENTIFIER_SMP

primrec header_tag_value :: "Stivale2HeaderTagIdentifier \<Rightarrow> u64" where
  "header_tag_value STIVALE2_HEADER_TAG_IDENTIFIER_FRAMEBUFFER = 0x3ecc1bc43d0f7971"
| "header_tag_value STIVALE2_HEADER_TAG_IDENTIFIER_MTRR_WC = 0x4c7bb07731282e00"
| "header_tag_value STIVALE2_HEADER_TAG_IDENTIFIER_TERMINAL = 0xa85d499b1823be72"
| "header_tag_value STIVALE2_HEADER_TAG_IDENTIFIER_5LEVEL_PAGING = 0x932f477032007e8f"
| "header_tag_value STIVALE2_HEADER_TAG_IDENTIFIER_UNMAP_NULL = 0x92919432b16fe7e7"
| "header_tag_value STIVALE2_HEADER_TAG_IDENTIFIER_SMP = 0x1ab015085f3273df"

datatype Stivale2StructureTagIdentifier =
  STIVALE2_STRUCTURE_TAG_IDENTIFIER_COMMANDLINE | STIVALE2_STRUCTURE_TAG_IDENTIFIER_MEMORYMAP
| STIVALE2_STRUCTURE_TAG_IDENTIFIER_FRAMEBUFFER | STIVALE2_STRUCTURE_TAG_IDENTIFIER_EDID
| STIVALE2_STRUCTURE_TAG_IDENTIFIER_MTRR_WC | STIVALE2_STRUCTURE_TAG_IDENTIFIER_TERMINAL
| STIVALE2_STRUCTURE_TAG_IDENTIFIER_MODULES | STIVALE2_STRUCTURE_TAG_IDENTIFIER_RSDP
| STIVALE2_STRUCTURE_TAG_IDENTIFIER_SMBIOS | STIVALE2_STRUCTURE_TAG_IDENTIFIER_EPOCH
| STIVALE2_STRUCTURE_TAG_IDENTIFIER_FIRMWARE | STIVALE2_STRUCTURE_TAG_IDENTIFIER_EFI_SYSTEM_TABLE
| STIVALE2_STRUCTURE_TAG_IDENTIFIER_KERNEL_FILE | STIVALE2_STRUCTURE_TAG_IDENTIFIER_KERNEL_SLIDE
| STIVALE2_STRUCTURE_TAG_IDENTIFIER_SMP | STIVALE2_STRUCTURE_TAG_IDENTIFIER_PXE_SERVER
| STIVALE2_STRUCTURE_TAG_IDENTIFIER_MMIO32_UART | STIVALE2_STRUCTURE_TAG_IDENTIFIER_DEVICE_TREE
| STIVALE2_STRUCTURE_TAG_IDENTIFIER_MMIO32_VMAP

primrec structure_tag_value :: "Stivale2StructureTagIdentifier \<Rightarrow> u64" where
  "structure_tag_value STIVALE2_STRUCTURE_TAG_IDENTIFIER_COMMANDLINE = 0xe5e76a1b4597a781"
| "structure_tag_value STIVALE2_STRUCTURE_TAG_IDENTIFIER_MEMORYMAP = 0x2187f79e8612de07"
| "structure_tag_value STIVALE2_STRUCTURE_TAG_IDENTIFIER_FRAMEBUFFER = 0x506461d2950408fa"
| "structure_tag_value STIVALE2_STRUCTURE_TAG_IDENTIFIER_EDID = 0x968609d7af96b845"
| "structure_tag_value STIVALE2_STRUCTURE_TAG_IDENTIFIER_MTRR_WC = 0x6bc1a78ebe871172"
| "structure_tag_value STIVALE2_STRUCTURE_TAG_IDENTIFIER_TERMINAL = 0xc2b3f4c3233b0974"
| "structure_tag_value STIVALE2_STRUCTURE_TAG_IDENTIFIER_MODULES = 0x4b6fe466aade04ce"
| "structure_tag_value STIVALE2_STRUCTURE_TAG_IDENTIFIER_RSDP = 0x9e1786930a375e78"
| "structure_tag_value STIVALE2_STRUCTURE_TAG_IDENTIFIER_SMBIOS = 0x274bd246c62bf7d1"
| "structure_tag_value STIVALE2_STRUCTURE_TAG_IDENTIFIER_EPOCH = 0x566a7bed888e1407"
| "structure_tag_value STIVALE2_STRUCTURE_TAG_IDENTIFIER_FIRMWARE = 0x359d837855e3858c"
| "structure_tag_value STIVALE2_STRUCTURE_TAG_IDENTIFIER_EFI_SYSTEM_TABLE = 0x4bc5ec15845b558e"
| "structure_tag_value STIVALE2_STRUCTURE_TAG_IDENTIFIER_KERNEL_FILE = 0xe599d90c2975584a"
| "structure_tag_value STIVALE2_STRUCTURE_TAG_IDENTIFIER_KERNEL_SLIDE = 0xee80847d01506c57"
| "structure_tag_value STIVALE2_STRUCTURE_TAG_IDENTIFIER_SMP = 0x34d1d96339647025"
| "structure_tag_value STIVALE2_STRUCTURE_TAG_IDENTIFIER_PXE_SERVER = 0x29d1e96239247032"
| "structure_tag_value STIVALE2_STRUCTURE_TAG_IDENTIFIER_MMIO32_UART = 0xb813f9b8dbc78797"
| "structure_tag_value STIVALE2_STRUCTURE_TAG_IDENTIFIER_DEVICE_TREE = 0xabb29bd49a2833fa"
| "structure_tag_value STIVALE2_STRUCTURE_TAG_IDENTIFIER_MMIO32_VMAP = 0xb0ed257db18cb58f"

datatype Stivale2MemoryType =
  STIVALE2_MEMORY_TYPE_USABLE | STIVALE2_MEMORY_TYPE_RESERVED | STIVALE2_MEMORY_TYPE_ACPI_RECLAIMABLE
| STIVALE2_MEMORY_TYPE_ACPI_NVS | STIVALE2_MEMORY_TYPE_BAD_MEMORY
| STIVALE2_MEMORY_TYPE_BOOTLOADER_RECLAIMABLE | STIVALE2_MEMORY_TYPE_KERNEL_AND_MODULES
| STIVALE2_MEMORY_TYPE_FRAMEBUFFER

primrec stivale2_memory_type :: "Stivale2MemoryType \<Rightarrow> u32" where
  "stivale2_memory_type STIVALE2_MEMORY_TYPE_USABLE = 1"
| "stivale2_memory_type STIVALE2_MEMORY_TYPE_RESERVED = 2"
| "stivale2_memory_type STIVALE2_MEMORY_TYPE_ACPI_RECLAIMABLE = 3"
| "stivale2_memory_type STIVALE2_MEMORY_TYPE_ACPI_NVS = 4"
| "stivale2_memory_type STIVALE2_MEMORY_TYPE_BAD_MEMORY = 5"
| "stivale2_memory_type STIVALE2_MEMORY_TYPE_BOOTLOADER_RECLAIMABLE = 0x1000"
| "stivale2_memory_type STIVALE2_MEMORY_TYPE_KERNEL_AND_MODULES = 0x1001"
| "stivale2_memory_type STIVALE2_MEMORY_TYPE_FRAMEBUFFER = 0x1002"

section \<open>Structures\<close>

record Stivale2MemoryMapEntry =
  me_base :: u64
  me_length :: u64
  me_type :: u32
  me_unused :: u32

definition get_Stivale2MemoryMapEntry :: "memory \<Rightarrow> addr \<Rightarrow> Stivale2MemoryMapEntry" where
  "get_Stivale2MemoryMapEntry m a = \<lparr>me_base = load64 m a, me_length = load64 m (a + 8), me_type = load32 m (a + 16),
     me_unused = load32 m (a + 20)\<rparr>"

record Stivale2Module =
  sm_begin :: u64
  sm_end :: u64
  sm_string :: "u8 list"

definition get_Stivale2Module :: "memory \<Rightarrow> addr \<Rightarrow> Stivale2Module" where
  "get_Stivale2Module m a = \<lparr>sm_begin = load64 m a, sm_end = load64 m (a + 8), sm_string = load_array 128 m (a + 16)\<rparr>"

record Stivale2Header =
  sh_entry_point :: u64
  sh_stack :: u64
  sh_flags :: u64
  sh_tags :: u64

record Stivale2HeaderTag =
  ht_identifier :: u64
  ht_next :: u64

record Stivale2HeaderTagFrameBuffer =
  hf_tag :: Stivale2HeaderTag
  hf_width :: u16
  hf_height :: u16
  hf_bpp :: u16

record Stivale2Structure =
  ss_bootloader_brand :: "u8 list"
  ss_bootloader_version :: "u8 list"
  ss_tags :: u64

definition get_Stivale2Structure :: "memory \<Rightarrow> addr \<Rightarrow> Stivale2Structure" where
  "get_Stivale2Structure m a = \<lparr>ss_bootloader_brand = load_array 64 m a, ss_bootloader_version = load_array 64 m (a + 64),
     ss_tags = load64 m (a + 128)\<rparr>"

record Stivale2StructureTag =
  st_identifier :: u64
  st_next :: u64

definition get_Stivale2StructureTag :: "memory \<Rightarrow> addr \<Rightarrow> Stivale2StructureTag" where
  "get_Stivale2StructureTag m a = \<lparr>st_identifier = load64 m a, st_next = load64 m (a + 8)\<rparr>"

record Stivale2StructureTagMemoryMap =
  mmap_tag :: Stivale2StructureTag
  mmap_entries_num :: u64

definition get_Stivale2StructureTagMemoryMap :: "memory \<Rightarrow> addr \<Rightarrow> Stivale2StructureTagMemoryMap" where
  "get_Stivale2StructureTagMemoryMap m a = \<lparr>mmap_tag = get_Stivale2StructureTag m a, mmap_entries_num = load64 m (a + 16)\<rparr>"

record Stivale2StructureTagFramebuffer =
  sfb_tag :: Stivale2StructureTag
  sfb_base :: u64
  sfb_width :: u16
  sfb_height :: u16
  sfb_pitch :: u16
  sfb_bpp :: u16
  sfb_memory_model :: u8
  sfb_red_mask_size :: u8
  sfb_red_mask_shift :: u8
  sfb_green_mask_size :: u8
  sfb_green_mask_shift :: u8
  sfb_blue_mask_size :: u8
  sfb_blue_mask_shift :: u8

definition get_Stivale2StructureTagFramebuffer :: "memory \<Rightarrow> addr \<Rightarrow> Stivale2StructureTagFramebuffer" where
  "get_Stivale2StructureTagFramebuffer m a = \<lparr>sfb_tag = get_Stivale2StructureTag m a, sfb_base = load64 m (a + 16),
     sfb_width = load16 m (a + 24), sfb_height = load16 m (a + 26),
     sfb_pitch = load16 m (a + 28), sfb_bpp = load16 m (a + 30),
     sfb_memory_model = m (a + 32), sfb_red_mask_size = m (a + 33),
     sfb_red_mask_shift = m (a + 34), sfb_green_mask_size = m (a + 35),
     sfb_green_mask_shift = m (a + 36), sfb_blue_mask_size = m (a + 37),
     sfb_blue_mask_shift = m (a + 38)\<rparr>"

record Stivale2StructureModules =
  mods_tag :: Stivale2StructureTag
  mods_modules_num :: u64

definition get_Stivale2StructureModules :: "memory \<Rightarrow> addr \<Rightarrow> Stivale2StructureModules" where
  "get_Stivale2StructureModules m a = \<lparr>mods_tag = get_Stivale2StructureTag m a, mods_modules_num = load64 m (a + 16)\<rparr>"

record Stivale2StructureRSDP =
  rsdp_tag :: Stivale2StructureTag
  rsdp_rsdp :: u64

definition get_Stivale2StructureRSDP :: "memory \<Rightarrow> addr \<Rightarrow> Stivale2StructureRSDP" where
  "get_Stivale2StructureRSDP m a = \<lparr>rsdp_tag = get_Stivale2StructureTag m a, rsdp_rsdp = load64 m (a + 16)\<rparr>"

record Stivale2StructureKernelFile =
  kf_tag :: Stivale2StructureTag
  kf_kernel_file :: u64

definition get_Stivale2StructureKernelFile :: "memory \<Rightarrow> addr \<Rightarrow> Stivale2StructureKernelFile" where
  "get_Stivale2StructureKernelFile m a = \<lparr>kf_tag = get_Stivale2StructureTag m a, kf_kernel_file = load64 m (a + 16)\<rparr>"

record Stivale2StructureKernelSlide =
  ks_tag :: Stivale2StructureTag
  ks_kernel_slide :: u64

definition get_Stivale2StructureKernelSlide :: "memory \<Rightarrow> addr \<Rightarrow> Stivale2StructureKernelSlide" where
  "get_Stivale2StructureKernelSlide m a = \<lparr>ks_tag = get_Stivale2StructureTag m a, ks_kernel_slide = load64 m (a + 16)\<rparr>"

section \<open>The header given to the boot loader\<close>

definition s_tag0 :: Stivale2HeaderTagFrameBuffer where
  "s_tag0 = \<lparr>hf_tag = \<lparr>ht_identifier = header_tag_value STIVALE2_HEADER_TAG_IDENTIFIER_FRAMEBUFFER, ht_next = 0\<rparr>,
     hf_width = 0, hf_height = 0, hf_bpp = 32\<rparr>"

text \<open>Its fields are addresses of the kernel: the entry point, the stack and its size, and \<^const>\<open>s_tag0\<close>.\<close>

definition s_stivale2_header :: "addr \<Rightarrow> addr \<Rightarrow> u64 \<Rightarrow> addr \<Rightarrow> Stivale2Header" where
  "s_stivale2_header kernel_start g_bsp_stack sizeof_g_bsp_stack tag0 =
     \<lparr>sh_entry_point = kernel_start, sh_stack = g_bsp_stack + sizeof_g_bsp_stack, sh_flags = 0, sh_tags = tag0\<rparr>"

section \<open>Functions\<close>

partial_function (option) tag_loop :: "memory \<Rightarrow> u64 \<Rightarrow> addr \<Rightarrow> addr option" where
  "tag_loop m identifier current =
     (if current = 0 then Some 0
      else if st_identifier (get_Stivale2StructureTag m current) = identifier then Some current
      else tag_loop m identifier (st_next (get_Stivale2StructureTag m current)))"

declare tag_loop.simps [code]

definition stivale2_get_structure :: "memory \<Rightarrow> addr \<Rightarrow> Stivale2StructureTagIdentifier \<Rightarrow> addr option" where
  "stivale2_get_structure m structure identifier =
     tag_loop m (structure_tag_value identifier) (ss_tags (get_Stivale2Structure m structure))"

definition stivale2_get_framebuffer :: "memory \<Rightarrow> addr \<Rightarrow> Framebuffer option" where
  "stivale2_get_framebuffer m structure = do {
     p \<leftarrow> stivale2_get_structure m structure STIVALE2_STRUCTURE_TAG_IDENTIFIER_FRAMEBUFFER;
     let t = get_Stivale2StructureTagFramebuffer m p;
     Some \<lparr>fb_base = sfb_base t, fb_width = sfb_width t, fb_height = sfb_height t, fb_pitch = sfb_pitch t,
       fb_bpp = sfb_bpp t\<rparr> }"

text \<open>
  The type of an entry is the value of \<open>MEMORY_TYPE_USABLE ? type == USABLE : MEMORY_TYPE_UNUSABLE\<close>, a
  conditional expression whose condition is the constant 1; its value is that of the comparison.
\<close>

primrec memory_type_value :: "MemoryType \<Rightarrow> int" where
  "memory_type_value MEMORY_TYPE_UNUSABLE = 0"
| "memory_type_value MEMORY_TYPE_USABLE = 1"

definition memory_type_of :: "int \<Rightarrow> MemoryType" where
  "memory_type_of v = (if v = memory_type_value MEMORY_TYPE_UNUSABLE then MEMORY_TYPE_UNUSABLE else MEMORY_TYPE_USABLE)"

definition memorymap_entry :: "Stivale2MemoryMapEntry \<Rightarrow> MemoryMapEntry" where
  "memorymap_entry e =
     \<lparr>physical_base = me_base e, num_pages = NEAREST_PAGE (me_length e),
      mtype = memory_type_of
        (if memory_type_value MEMORY_TYPE_USABLE \<noteq> 0
         then of_bool (me_type e = stivale2_memory_type STIVALE2_MEMORY_TYPE_USABLE)
         else memory_type_value MEMORY_TYPE_UNUSABLE)\<rparr>"

text \<open>A write behind the last of the 256 entries of the memory map is the result \<^const>\<open>None\<close>.\<close>

definition stivale2_get_memorymap :: "memory \<Rightarrow> addr \<Rightarrow> MemoryMap option" where
  "stivale2_get_memorymap m structure = do {
     p \<leftarrow> stivale2_get_structure m structure STIVALE2_STRUCTURE_TAG_IDENTIFIER_MEMORYMAP;
     let n = mmap_entries_num (get_Stivale2StructureTagMemoryMap m p);
     if unat n \<le> MEMORY_MEMORYMAP_MAX_ENTRIES
     then Some \<lparr>entries = map (\<lambda>i. memorymap_entry (get_Stivale2MemoryMapEntry m (p + 24 + 24 * of_nat i))) [0..<unat n]\<rparr>
     else None }"

text \<open>The module that \<open>modules[i]\<close> describes, and the search for the first with the name.\<close>

definition module_address :: "addr \<Rightarrow> u64 \<Rightarrow> addr" where
  "module_address p i = p + 24 + 144 * i"

definition module_of :: "Stivale2Module \<Rightarrow> u64 \<Rightarrow> Module" where
  "module_of s header_size =
     \<lparr>mo_header = sm_begin s, mo_body = sm_begin s + header_size, mo_size = sm_end s - sm_begin s\<rparr>"

partial_function (option) module_loop ::
  "memory \<Rightarrow> addr \<Rightarrow> addr \<Rightarrow> u64 \<Rightarrow> u64 \<Rightarrow> Module \<Rightarrow> (Module \<times> bool) option" where
  "module_loop m p signature header_size i module =
     (if i < mods_modules_num (get_Stivale2StructureModules m p)
      then do {
        d \<leftarrow> strcmp m signature (module_address p i + 16);
        if d \<noteq> 0 then module_loop m p signature header_size (i + 1) module
        else Some (module_of (get_Stivale2Module m (module_address p i)) header_size, True) }
      else Some (module, False))"

declare module_loop.simps [code]

definition stivale2_get_module :: "memory \<Rightarrow> addr \<Rightarrow> Module \<Rightarrow> addr \<Rightarrow> u64 \<Rightarrow> (Module \<times> bool) option" where
  "stivale2_get_module m structure module signature header_size = do {
     p \<leftarrow> stivale2_get_structure m structure STIVALE2_STRUCTURE_TAG_IDENTIFIER_MODULES;
     module_loop m p signature header_size 0 module }"

text \<open>\<open>font_name\<close> and \<open>image_name\<close> are the addresses of the two names as string constants.\<close>

definition stivale2_init :: "memory \<Rightarrow> addr \<Rightarrow> addr \<Rightarrow> addr \<Rightarrow> BootloaderInformation \<Rightarrow> BootloaderInformation option" where
  "stivale2_init m font_name image_name structure info = do {
     framebuffer \<leftarrow> stivale2_get_framebuffer m structure;
     memorymap \<leftarrow> stivale2_get_memorymap m structure;
     rsdp \<leftarrow> stivale2_get_structure m structure STIVALE2_STRUCTURE_TAG_IDENTIFIER_RSDP;
     kernel_file \<leftarrow> stivale2_get_structure m structure STIVALE2_STRUCTURE_TAG_IDENTIFIER_KERNEL_FILE;
     kernel_slide \<leftarrow> stivale2_get_structure m structure STIVALE2_STRUCTURE_TAG_IDENTIFIER_KERNEL_SLIDE;
     (f, _) \<leftarrow> stivale2_get_module m structure (bi_font info) font_name sizeof_ModulePSF1Header;
     (i, _) \<leftarrow> stivale2_get_module m structure (bi_image info) image_name sizeof_ModuleTGAHeader;
     Some \<lparr>bi_framebuffer = framebuffer, bi_memorymap = memorymap,
       bi_rsdp = rsdp_rsdp (get_Stivale2StructureRSDP m rsdp),
       bi_kernel_header = kf_kernel_file (get_Stivale2StructureKernelFile m kernel_file),
       bi_kernel_offset = ks_kernel_slide (get_Stivale2StructureKernelSlide m kernel_slide),
       bi_font = f, bi_image = i\<rparr> }"

end
