(* ===== verification/Stivale2_Props.thy ===== *)
theory Stivale2_Props
  imports Stivale2 Musl_String_Props
begin

text \<open>
  What \<open>stivale2_init\<close> finds in the structures of the boot loader, when their list of tags ends and their
  strings end.
\<close>

section \<open>Tags\<close>

fun tag_chain :: "memory \<Rightarrow> addr \<Rightarrow> addr list \<Rightarrow> bool" where
  "tag_chain m p [] \<longleftrightarrow> p = 0"
| "tag_chain m p (t # ts) \<longleftrightarrow> p = t \<and> t \<noteq> 0 \<and> tag_chain m (st_next (get_Stivale2StructureTag m t)) ts"

definition has_tag :: "memory \<Rightarrow> Stivale2StructureTagIdentifier \<Rightarrow> addr \<Rightarrow> bool" where
  "has_tag m i t \<longleftrightarrow> st_identifier (get_Stivale2StructureTag m t) = structure_tag_value i"

lemma tag_loop_chain:
  "tag_chain m p ts \<Longrightarrow> find (has_tag m i) ts = Some t \<Longrightarrow> tag_loop m (structure_tag_value i) p = Some t"
proof (induction ts arbitrary: p)
  case (Cons a ts)
  then show ?case
    by (subst tag_loop.simps) (auto simp: has_tag_def split: if_splits)
qed simp

lemma stivale2_get_structure_finds:
  "tag_chain m (ss_tags (get_Stivale2Structure m structure)) ts \<Longrightarrow> find (has_tag m i) ts = Some t \<Longrightarrow>
    stivale2_get_structure m structure i = Some t"
  by (simp add: stivale2_get_structure_def tag_loop_chain)

section \<open>Modules\<close>

lemma module_loop_finds:
  assumes names: "\<And>i. i < unat n \<Longrightarrow> c_string m (module_address p (of_nat i) + 16) (names i)"
    and name: "c_string m signature xs" and n: "n = mods_modules_num (get_Stivale2StructureModules m p)"
  shows "j \<le> n \<Longrightarrow> module_loop m p signature header_size j module =
    Some (case find (\<lambda>i. names i = xs) [unat j..<unat n] of
      None \<Rightarrow> (module, False)
    | Some i \<Rightarrow> (module_of (get_Stivale2Module m (module_address p (of_nat i))) header_size, True))"
proof (induction "unat n - unat j" arbitrary: j rule: less_induct)
  case less
  show ?case
  proof (cases "j < n")
    case False
    then show ?thesis
      using n by (subst module_loop.simps) (simp add: word_less_nat_alt)
  next
    case True
    then have j: "unat j < unat n" "unat (j + 1) = Suc (unat j)" "j + 1 \<le> n"
      by (simp_all add: word_less_nat_alt unat_plus_one [OF True] word_inc_bounds)
    have zero: "0 \<notin> set xs" "0 \<notin> set (names (unat j))"
      using name names [OF j(1)] by (auto simp: c_string_def in_set_conv_nth)
    have cmp: "strcmp m signature (module_address p j + 16) = Some (cmp_bytes xs (names (unat j)))"
      using strcmp_c_string [OF name names [OF j(1)]] by simp
    have eq: "cmp_bytes xs (names (unat j)) = 0 \<longleftrightarrow> names (unat j) = xs"
      using cmp_bytes_order [OF zero] by auto
    have "module_loop m p signature header_size (j + 1) module =
        Some (case find (\<lambda>i. names i = xs) [Suc (unat j)..<unat n] of
          None \<Rightarrow> (module, False)
        | Some i \<Rightarrow> (module_of (get_Stivale2Module m (module_address p (of_nat i))) header_size, True))"
      using less.hyps [of "j + 1"] j by simp
    then show ?thesis
      using True n cmp eq j(1) by (subst module_loop.simps) (simp add: upt_conv_Cons)
  qed
qed

lemma stivale2_get_module_finds:
  assumes "tag_chain m (ss_tags (get_Stivale2Structure m structure)) ts"
    and "find (has_tag m STIVALE2_STRUCTURE_TAG_IDENTIFIER_MODULES) ts = Some p"
    and "\<And>i. i < unat (mods_modules_num (get_Stivale2StructureModules m p)) \<Longrightarrow>
      c_string m (module_address p (of_nat i) + 16) (names i)"
    and "c_string m signature xs"
  shows "stivale2_get_module m structure module signature header_size =
    Some (case find (\<lambda>i. names i = xs) [0..<unat (mods_modules_num (get_Stivale2StructureModules m p))] of
      None \<Rightarrow> (module, False)
    | Some i \<Rightarrow> (module_of (get_Stivale2Module m (module_address p (of_nat i))) header_size, True))"
  using module_loop_finds [OF assms(3,4) refl, of 0] stivale2_get_structure_finds [OF assms(1,2)]
  by (simp add: stivale2_get_module_def)

lemma memorymap_entry_type: "mtype (memorymap_entry e) = MEMORY_TYPE_USABLE \<longleftrightarrow> me_type e = 1"
  by (simp add: memorymap_entry_def memory_type_of_def)

lemma memorymap_entry_pages:
  "physical_base (memorymap_entry e) = me_base e"
  "unat (me_length e) < 2 ^ 64 - 4095 \<Longrightarrow> unat (num_pages (memorymap_entry e)) = (unat (me_length e) + 4095) div 4096"
  by (simp_all add: memorymap_entry_def NEAREST_PAGE_unat)

text \<open>
  C15. \<^const>\<open>stivale2_init\<close> returns with what the boot loader passed: when its list of tags ends, has the
  tags the kernel uses, at most 256 memory map entries, and strings that end, the framebuffer, the root
  of the ACPI tables and the kernel's file and slide are those of the first tag with the identifier; the
  memory map has an entry for each of the boot loader's, usable exactly when that one is and with the
  number of pages its length fills; and the font and the image are the first modules with these names,
  or stay what they were.
\<close>

theorem stivale2_init_reads:
  assumes chain: "tag_chain m (ss_tags (get_Stivale2Structure m structure)) ts"
    and tags: "find (has_tag m STIVALE2_STRUCTURE_TAG_IDENTIFIER_FRAMEBUFFER) ts = Some fb"
      "find (has_tag m STIVALE2_STRUCTURE_TAG_IDENTIFIER_MEMORYMAP) ts = Some mm"
      "find (has_tag m STIVALE2_STRUCTURE_TAG_IDENTIFIER_RSDP) ts = Some rs"
      "find (has_tag m STIVALE2_STRUCTURE_TAG_IDENTIFIER_KERNEL_FILE) ts = Some kf"
      "find (has_tag m STIVALE2_STRUCTURE_TAG_IDENTIFIER_KERNEL_SLIDE) ts = Some ks"
      "find (has_tag m STIVALE2_STRUCTURE_TAG_IDENTIFIER_MODULES) ts = Some mo"
    and n: "n = unat (mmap_entries_num (get_Stivale2StructureTagMemoryMap m mm))" "n \<le> 256"
    and k: "k = unat (mods_modules_num (get_Stivale2StructureModules m mo))"
    and names: "\<forall>i<k. c_string m (module_address mo (of_nat i) + 16) (names i)"
    and f: "c_string m font_name f" and g: "c_string m image_name g"
  shows "\<exists>info'. stivale2_init m font_name image_name structure info = Some info' \<and>
    bi_framebuffer info' = \<lparr>fb_base = load64 m (fb + 16), fb_width = load16 m (fb + 24),
      fb_height = load16 m (fb + 26), fb_pitch = load16 m (fb + 28), fb_bpp = load16 m (fb + 30)\<rparr> \<and>
    bi_rsdp info' = load64 m (rs + 16) \<and> bi_kernel_header info' = load64 m (kf + 16) \<and>
    bi_kernel_offset info' = load64 m (ks + 16) \<and>
    length (entries (bi_memorymap info')) = n \<and>
    (\<forall>i<n. let e = entries (bi_memorymap info') ! i; a = mm + 24 + 24 * of_nat i in
      physical_base e = load64 m a \<and> (mtype e = MEMORY_TYPE_USABLE \<longleftrightarrow> load32 m (a + 16) = 1) \<and>
      (unat (load64 m (a + 8)) + 4095 < 2 ^ 64 \<longrightarrow> unat (num_pages e) = (unat (load64 m (a + 8)) + 4095) div 4096)) \<and>
    bi_font info' = (case find (\<lambda>i. names i = f) [0..<k] of None \<Rightarrow> bi_font info
      | Some i \<Rightarrow> let a = mo + 24 + 144 * of_nat i in
          \<lparr>mo_header = load64 m a, mo_body = load64 m a + 4, mo_size = load64 m (a + 8) - load64 m a\<rparr>) \<and>
    bi_image info' = (case find (\<lambda>i. names i = g) [0..<k] of None \<Rightarrow> bi_image info
      | Some i \<Rightarrow> let a = mo + 24 + 144 * of_nat i in
          \<lparr>mo_header = load64 m a, mo_body = load64 m a + 18, mo_size = load64 m (a + 8) - load64 m a\<rparr>)"
proof -
  note structures = tags [THEN stivale2_get_structure_finds [OF chain]]
  let ?found = "\<lambda>xs module size. case find (\<lambda>i. names i = xs) [0..<k] of None \<Rightarrow> module
    | Some i \<Rightarrow> module_of (get_Stivale2Module m (module_address mo (of_nat i))) size"
  have modules: "\<exists>r. stivale2_get_module m structure module name size = Some (?found xs module size, r)"
    if "c_string m name xs" for module name size xs
    using stivale2_get_module_finds [OF chain tags(6) names [unfolded k, rule_format] that]
    by (auto simp: k split: option.split)
  obtain r r' where found: "stivale2_get_module m structure (bi_font info) font_name 4 = Some (?found f (bi_font info) 4, r)"
      "stivale2_get_module m structure (bi_image info) image_name 18 = Some (?found g (bi_image info) 18, r')"
    using modules [OF f] modules [OF g] by blast
  let ?map = "map (\<lambda>i. memorymap_entry (get_Stivale2MemoryMapEntry m (mm + 24 + 24 * of_nat i))) [0..<n]"
  have "stivale2_init m font_name image_name structure info = Some
      \<lparr>bi_framebuffer = \<lparr>fb_base = load64 m (fb + 16), fb_width = load16 m (fb + 24),
        fb_height = load16 m (fb + 26), fb_pitch = load16 m (fb + 28), fb_bpp = load16 m (fb + 30)\<rparr>,
       bi_memorymap = \<lparr>entries = ?map\<rparr>, bi_rsdp = load64 m (rs + 16), bi_kernel_header = load64 m (kf + 16),
       bi_kernel_offset = load64 m (ks + 16), bi_font = ?found f (bi_font info) 4, bi_image = ?found g (bi_image info) 18\<rparr>"
    using n
    by (simp add: stivale2_init_def stivale2_get_framebuffer_def stivale2_get_memorymap_def structures found
        MEMORY_MEMORYMAP_MAX_ENTRIES_def sizeof_ModulePSF1Header_def sizeof_ModuleTGAHeader_def
        get_Stivale2StructureTagFramebuffer_def get_Stivale2StructureRSDP_def
        get_Stivale2StructureKernelFile_def get_Stivale2StructureKernelSlide_def)
  then show ?thesis
    by (simp add: Let_def memorymap_entry_type memorymap_entry_pages get_Stivale2MemoryMapEntry_def
        module_of_def get_Stivale2Module_def module_address_def split: option.split)
qed

text \<open>
  An example: six tags, one usable entry in the memory map and one module with the name \<open>font\<close>.
\<close>

definition example_words :: "(addr \<times> u64) list" where
  "example_words =
    [(0x1080, 0x2000),
     (0x2000, 0x506461d2950408fa), (0x2008, 0x2100), (0x2010, 0xfd000000), (0x2018, 0x0020100003000400),
     (0x2100, 0x2187f79e8612de07), (0x2108, 0x2200), (0x2110, 1), (0x2118, 0x100000), (0x2120, 0x5800), (0x2128, 1),
     (0x2200, 0x9e1786930a375e78), (0x2208, 0x2300), (0x2210, 0xe0000),
     (0x2300, 0xe599d90c2975584a), (0x2308, 0x2400), (0x2310, 0x400000),
     (0x2400, 0xee80847d01506c57), (0x2408, 0x2500), (0x2410, 0),
     (0x2500, 0x4b6fe466aade04ce), (0x2508, 0), (0x2510, 1), (0x2518, 0x700000), (0x2520, 0x701004), (0x2528, 0x746e6f66),
     (0x3000, 0x746e6f66), (0x3100, 0x6567616d69)]"

definition word_at :: "(addr \<times> u64) list \<Rightarrow> addr \<Rightarrow> u64" where
  "word_at ws a = (case map_of ws a of None \<Rightarrow> 0 | Some v \<Rightarrow> v)"

definition boot_memory :: "(addr \<times> u64) list \<Rightarrow> memory" where
  "boot_memory ws = (\<lambda>b. ucast (drop_bit (8 * unat (b AND 7)) (word_at ws (b AND NOT 7))))"

lemma aligned_byte:
  assumes "(a :: u64) AND 7 = 0" "k < 8"
  shows "(a + of_nat k) AND 7 = of_nat k" "(a + of_nat k) AND NOT 7 = a" "unat (of_nat k :: u64) = k"
proof -
  have k: "k \<in> {0, 1, 2, 3, 4, 5, 6, 7}"
    using assms(2) by auto
  then have c: "(of_nat k :: u64) AND 7 = of_nat k" "(of_nat k :: u64) AND NOT 7 = 0"
    by auto
  have "a AND of_nat k = 0"
  proof -
    have "a AND of_nat k = (a AND 7) AND of_nat k"
      unfolding and.assoc and.commute [of 7] c(1) ..
    then show ?thesis using assms(1) by simp
  qed
  then have "a + of_nat k = a OR of_nat k"
    by (rule disjunctive_add_eq_or)
  moreover have "a AND NOT 7 = a"
  proof (rule bit_word_eqI)
    fix n
    have "\<not> (bit a n \<and> bit (7 :: u64) n)"
      using arg_cong [OF assms(1), where f = "\<lambda>x. bit x n"] by (simp add: bit_and_iff)
    then show "bit (a AND NOT 7) n \<longleftrightarrow> bit a n" if "n < LENGTH(64)"
      unfolding bit_and_iff bit_not_iff using that by auto
  qed
  ultimately show "(a + of_nat k) AND 7 = of_nat k" "(a + of_nat k) AND NOT 7 = a"
    using assms(1) c by (simp_all add: bit.conj_disj_distrib2)
  show "unat (of_nat k :: u64) = k"
    using k by auto
qed

lemma boot_byte:
  "a AND 7 = 0 \<Longrightarrow> k < 8 \<Longrightarrow> boot_memory ws (a + of_nat k) = ucast (drop_bit (8 * k) (word_at ws a))"
  by (simp only: boot_memory_def aligned_byte)

lemma load64_boot: "a AND 7 = 0 \<Longrightarrow> load64 (boot_memory ws) a = word_at ws a"
  using load_bytes_word [of 8 "boot_memory ws" a "word_at ws a"]
  by (simp add: load64_def boot_byte take_bit_word_eq_self)

lemmas example_defs = get_Stivale2Structure_def get_Stivale2StructureTag_def has_tag_def
  get_Stivale2StructureTagMemoryMap_def get_Stivale2StructureModules_def load64_boot word_at_def example_words_def

lemma example_strings:
  "c_string (boot_memory example_words) 0x2528 [0x66, 0x6f, 0x6e, 0x74]"
  "c_string (boot_memory example_words) 0x3000 [0x66, 0x6f, 0x6e, 0x74]"
  "c_string (boot_memory example_words) 0x3100 [0x69, 0x6d, 0x61, 0x67, 0x65]"
  by (simp_all add: boot_memory_def word_at_def example_words_def)

lemma example_tags:
  "find (has_tag (boot_memory example_words) STIVALE2_STRUCTURE_TAG_IDENTIFIER_FRAMEBUFFER)
     [0x2000, 0x2100, 0x2200, 0x2300, 0x2400, 0x2500] = Some 0x2000"
  "find (has_tag (boot_memory example_words) STIVALE2_STRUCTURE_TAG_IDENTIFIER_MEMORYMAP)
     [0x2000, 0x2100, 0x2200, 0x2300, 0x2400, 0x2500] = Some 0x2100"
  "find (has_tag (boot_memory example_words) STIVALE2_STRUCTURE_TAG_IDENTIFIER_RSDP)
     [0x2000, 0x2100, 0x2200, 0x2300, 0x2400, 0x2500] = Some 0x2200"
  "find (has_tag (boot_memory example_words) STIVALE2_STRUCTURE_TAG_IDENTIFIER_KERNEL_FILE)
     [0x2000, 0x2100, 0x2200, 0x2300, 0x2400, 0x2500] = Some 0x2300"
  "find (has_tag (boot_memory example_words) STIVALE2_STRUCTURE_TAG_IDENTIFIER_KERNEL_SLIDE)
     [0x2000, 0x2100, 0x2200, 0x2300, 0x2400, 0x2500] = Some 0x2400"
  "find (has_tag (boot_memory example_words) STIVALE2_STRUCTURE_TAG_IDENTIFIER_MODULES)
     [0x2000, 0x2100, 0x2200, 0x2300, 0x2400, 0x2500] = Some 0x2500"
  by (simp_all add: example_defs)

lemma map_single: "length es = Suc 0 \<Longrightarrow> map g es = [g (es ! 0)]"
  by (cases es) simp_all

theorem stivale2_init_reads_witness:
  "\<exists>info'. stivale2_init (boot_memory example_words) 0x3000 0x3100 0x1000 s_bootloader_info = Some info' \<and>
    fb_base (bi_framebuffer info') = 0xfd000000 \<and> bi_rsdp info' = 0xe0000 \<and> bi_kernel_header info' = 0x400000 \<and>
    map mtype (entries (bi_memorymap info')) = [MEMORY_TYPE_USABLE] \<and>
    map (\<lambda>e. unat (num_pages e)) (entries (bi_memorymap info')) = [6] \<and>
    mo_body (bi_font info') = 0x700004 \<and> bi_image info' = bi_image s_bootloader_info"
proof -
  let ?m = "boot_memory example_words"
  have reads: "load64 ?m 0x2010 = 0xfd000000" "load64 ?m 0x2210 = 0xe0000" "load64 ?m 0x2310 = 0x400000"
      "load64 ?m 0x2120 = 0x5800" "load64 ?m 0x2518 = 0x700000"
    by (simp_all add: example_defs)
  have type: "load32 ?m 0x2128 = 1"
    by (simp add: load32_eval boot_memory_def word_at_def example_words_def)
  have chain: "tag_chain ?m (ss_tags (get_Stivale2Structure ?m 0x1000)) [0x2000, 0x2100, 0x2200, 0x2300, 0x2400, 0x2500]"
    by (simp add: example_defs)
  have num: "1 = unat (mmap_entries_num (get_Stivale2StructureTagMemoryMap ?m 0x2100))"
      "1 = unat (mods_modules_num (get_Stivale2StructureModules ?m 0x2500))" "(1 :: nat) \<le> 256"
    by (simp_all add: example_defs)
  have names: "\<forall>i<1. c_string ?m (module_address 0x2500 (of_nat i) + 16) ((\<lambda>_. [0x66, 0x6f, 0x6e, 0x74]) i)"
    using example_strings(1) by (simp add: module_address_def)
  show ?thesis
    using stivale2_init_reads [OF chain example_tags num(1,3,2) names example_strings(2,3), of s_bootloader_info]
    apply -
    apply (elim exE conjE)
    subgoal premises prems for info'
      using prems(1-6) prems(7) [rule_format, of 0] prems(8,9)
      by (intro exI [of _ info']) (simp add: reads type Let_def map_single)
    done
qed

end
