(* ===== verification/Process.thy ===== *)
theory Process
  imports Scheduler Elf
begin

text \<open>
  \<^verbatim>\<open>scheduler/process.c\<close> and \<^verbatim>\<open>scheduler/loader.c\<close>: processes, the environments they are created in and
  the loader.  Processes and environments are objects of the heap like the scheduler's nodes;
  \<open>root\<close> is the address of the variable \<open>s_root\<close>, and the results of \<open>malloc\<close> are arguments.
\<close>

section \<open>Data\<close>

definition PROCESS_RPL :: u8 where
  "PROCESS_RPL = 3"

record ProcessEnvironment =
  pe_virtual_address :: addr
  pe_physical_address :: addr
  pe_flags :: u64
  pe_pages :: u64
  pe_next :: addr

record Process =
  pid :: u64
  p_pml4 :: addr
  p_flags :: u64
  thread_contexts :: addr
  p_parent :: addr
  p_next :: addr
  p_child_list :: addr
  p_entry :: addr
  p_environment :: addr

definition PROCESS_FLAG_LOCKED :: nat where
  "PROCESS_FLAG_LOCKED = 0"

datatype ProcessEnvironmentFlagBit =
  PROCESS_ENVIRONMENT_EXECUTABLE | PROCESS_ENVIRONMENT_WRITABLE | PROCESS_ENVIRONMENT_READABLE
| PROCESS_ENVIRONMENT_STACK

primrec environment_bit :: "ProcessEnvironmentFlagBit \<Rightarrow> nat" where
  "environment_bit PROCESS_ENVIRONMENT_EXECUTABLE = 1"
| "environment_bit PROCESS_ENVIRONMENT_WRITABLE = 2"
| "environment_bit PROCESS_ENVIRONMENT_READABLE = 3"
| "environment_bit PROCESS_ENVIRONMENT_STACK = 4"

definition environment_has :: "ProcessEnvironmentFlagBit \<Rightarrow> ProcessEnvironment \<Rightarrow> bool" where
  "environment_has f e \<longleftrightarrow> pe_flags e AND push_bit (environment_bit f) 1 \<noteq> 0"

definition s_root :: Process where
  "s_root = \<lparr>pid = 0, p_pml4 = 0, p_flags = 0, thread_contexts = 0, p_parent = 0, p_next = 0, p_child_list = 0,
     p_entry = 0, p_environment = 0\<rparr>"

record process_state = scheduler_state +
  s_process :: "addr \<rightharpoonup> Process"
  s_environment :: "addr \<rightharpoonup> ProcessEnvironment"
  s_processes_num :: u64
  s_pid_accumulator :: u64

type_synonym 'a pr = "'a process_state_scheme"

section \<open>Internal functions\<close>

definition process_spinlock :: "addr \<Rightarrow> 'a pr \<Rightarrow> 'a pr option" where
  "process_spinlock process s = do {
     p \<leftarrow> s_process s process;
     f \<leftarrow> atomic_spinlock (p_flags p) PROCESS_FLAG_LOCKED;
     Some (s\<lparr>s_process := (s_process s)(process \<mapsto> p\<lparr>p_flags := f\<rparr>)\<rparr>) }"

definition process_unlock :: "addr \<Rightarrow> 'a pr \<Rightarrow> 'a pr option" where
  "process_unlock process s = do {
     p \<leftarrow> s_process s process;
     Some (s\<lparr>s_process := (s_process s)(process \<mapsto> p\<lparr>p_flags := fst (atomic_unlock (p_flags p) PROCESS_FLAG_LOCKED)\<rparr>)\<rparr>) }"

text \<open>The loop of \<open>_process_add\<close> walks to the end of the list; the process itself is not used.\<close>

partial_function (option) child_loop :: "addr \<Rightarrow> 'a pr \<Rightarrow> 'a pr option" where
  "child_loop child s = (if child \<noteq> 0 then do { p \<leftarrow> s_process s child; child_loop (p_next p) s } else Some s)"

definition process_add :: "addr \<Rightarrow> addr \<Rightarrow> addr \<Rightarrow> 'a pr \<Rightarrow> 'a pr option" where
  "process_add root parent process s = do {
     p \<leftarrow> s_process s (if parent = 0 then root else parent);
     s \<leftarrow> child_loop (p_child_list p) s;
     Some (s\<lparr>s_processes_num := fst (atomic_accumulate (s_processes_num s) 1)\<rparr>) }"

partial_function (option) pagemap_loop :: "addr \<Rightarrow> addr \<Rightarrow> 'a pr \<Rightarrow> 'a pr option" where
  "pagemap_loop pml4 environment s =
     (if environment \<noteq> 0 then do {
        e \<leftarrow> s_environment s environment;
        s \<leftarrow> paging_map pml4 (pe_virtual_address e) (pe_physical_address e) (pe_pages e) s;
        let s = (if environment_has PROCESS_ENVIRONMENT_WRITABLE e
          then paging_set_attribute pml4 (pe_virtual_address e) (pe_pages e) PAGE_DIRECTORY_WRITABLE True s else s);
        pagemap_loop pml4 (pe_next e) s }
      else Some s)"

declare child_loop.simps [code] pagemap_loop.simps [code]

definition process_pagemap :: "addr \<Rightarrow> 'a pr \<Rightarrow> (addr \<times> 'a pr) option" where
  "process_pagemap environment s = do {
     (pml4, s) \<leftarrow> pageframe_request s;
     s \<leftarrow> pagemap_loop pml4 environment s;
     Some (pml4, s) }"

section \<open>Operations\<close>

definition process_init :: "addr \<Rightarrow> 'a pr \<Rightarrow> 'a pr option" where
  "process_init root s = do {
     p \<leftarrow> s_process s root;
     Some (s\<lparr>s_process := (s_process s)(root \<mapsto> p\<lparr>p_pml4 := paging_get_pagetable_l4 s\<rparr>)\<rparr>) }"

text \<open>The search for the stack does not advance to the next environment.\<close>

partial_function (option) stack_loop :: "addr \<Rightarrow> 'a pr \<Rightarrow> addr option" where
  "stack_loop current_environment s =
     (if current_environment \<noteq> 0 then do {
        e \<leftarrow> s_environment s current_environment;
        if environment_has PROCESS_ENVIRONMENT_STACK e then Some (pe_virtual_address e)
        else stack_loop current_environment s }
      else Some 0)"

declare stack_loop.simps [code]

text \<open>The context is the first field of a node, so that both have the same address.\<close>

definition process_create_new ::
  "addr \<Rightarrow> addr \<Rightarrow> addr \<Rightarrow> addr \<Rightarrow> addr \<Rightarrow> addr \<Rightarrow> SchedulerQueueNumber \<Rightarrow> 'a pr \<Rightarrow> 'a pr option" where
  "process_create_new root malloc_process malloc_node parent environment entry queue s = do {
     let process = malloc_process;
     let parent = (if parent = 0 then root else parent);
     s \<leftarrow> process_spinlock parent s;
     let (accumulator, p) = atomic_accumulate (s_pid_accumulator s) 1;
     let s = s\<lparr>s_pid_accumulator := accumulator\<rparr>;
     (pml4, s) \<leftarrow> process_pagemap environment s;
     s \<leftarrow> (if process = 0 then None else Some (s\<lparr>s_process := (s_process s)(process \<mapsto>
       \<lparr>pid = p, p_pml4 = pml4, p_flags = 0, thread_contexts = 0, p_parent = parent, p_next = 0, p_child_list = 0,
        p_entry = 0, p_environment = 0\<rparr>)\<rparr>));
     stack \<leftarrow> stack_loop environment s;
     let new_state = \<lparr>is_general = zero_registers, is_entry = entry, is_stack = stack, is_rpl = PROCESS_RPL\<rparr>;
     (node, s) \<leftarrow> scheduler_add_task malloc_node new_state queue s;
     q \<leftarrow> s_process s process;
     let s = s\<lparr>s_process := (s_process s)(process \<mapsto> q\<lparr>thread_contexts := node\<rparr>)\<rparr>;
     s \<leftarrow> node_update (\<lambda>n. n\<lparr>context_of := (context_of n)\<lparr>task := (task (context_of n))\<lparr>t_process := process\<rparr>\<rparr>\<rparr>) node s;
     s \<leftarrow> process_add root parent process s;
     process_unlock parent s }"

section \<open>Loader\<close>

definition LOADER_DEFAULT_STACK_PAGES :: u64 where
  "LOADER_DEFAULT_STACK_PAGES = 3"
definition stack_virtual_base :: addr where
  "stack_virtual_base = 0xffff800000000000"

definition loader_create_environment :: "addr \<Rightarrow> u64 \<Rightarrow> 'a pr \<Rightarrow> (addr \<times> 'a pr) option" where
  "loader_create_environment malloc stack_pages s = do {
     let environment = malloc;
     (stack_physical_base, s) \<leftarrow> pageframe_request_pages stack_pages s;
     if environment = 0 then None
     else Some (environment, s\<lparr>s_environment := (s_environment s)(environment \<mapsto>
       \<lparr>pe_virtual_address = stack_virtual_base, pe_physical_address = stack_physical_base - stack_pages * MEMORY_PAGE_SIZE,
        pe_flags = 0, pe_pages = stack_pages, pe_next = 0\<rparr>)\<rparr>) }"

text \<open>The loop over the program headers has an empty body: the environment is all there is so far.\<close>

definition loader_execute_elf :: "addr \<Rightarrow> addr \<Rightarrow> 'a pr \<Rightarrow> 'a pr option" where
  "loader_execute_elf malloc module s = do {
     (environment, s) \<leftarrow> loader_create_environment malloc LOADER_DEFAULT_STACK_PAGES s;
     Some s }"

end
