(* ===== verification/Process_Props.thy ===== *)
theory Process_Props
  imports Process Scheduler_Props Pageframe_Props
begin

text \<open>
  What \<open>process_create_new\<close> does: it starts the process's first thread when the first environment is the
  stack, and does not return otherwise.  The page map of the process leaves the scheduler and the other processes alone, and
  adding the task leaves the processes alone.
\<close>

section \<open>What the calls keep\<close>

lemma word_for_opt_frame:
  assumes "\<And>j t u. f j t = Some u \<Longrightarrow> g u = g t"
  shows "word_for_opt i n f s = Some t \<Longrightarrow> g t = g s"
proof -
  have "\<forall>t. word_for i n (\<lambda>i so. do { s \<leftarrow> so; f i s }) (Some s) = Some t \<longrightarrow> g t = g s"
  proof (rule word_for_inv [where P = "\<lambda>so. \<forall>t. so = Some t \<longrightarrow> g t = g s"])
    fix j so
    assume "\<forall>t. so = Some t \<longrightarrow> g t = g s"
    then show "\<forall>t. do { s \<leftarrow> so; f j s } = Some t \<longrightarrow> g t = g s"
      by (cases so) (auto dest!: assms)
  qed simp
  then show "word_for_opt i n f s = Some t \<Longrightarrow> g t = g s"
    by (simp add: word_for_opt_def)
qed

lemma paging_map_more: "paging_map l4 va pa n s = Some t \<Longrightarrow> pageframe_state.more t = pageframe_state.more s"
  unfolding paging_map_def by (rule word_for_opt_frame) (auto simp: Let_def dest: paging_map_page_more)

lemma paging_set_attribute_more: "pageframe_state.more (paging_set_attribute l4 va n a e s) = pageframe_state.more s"
  unfolding paging_set_attribute_def by (rule word_for_frame) simp

lemma pagemap_loop_more: "pagemap_loop pml4 environment s = Some t \<Longrightarrow> pageframe_state.more t = pageframe_state.more s"
proof (rule pagemap_loop.raw_induct [where P = "\<lambda>pml4 environment s t. pageframe_state.more t = pageframe_state.more s"])
  fix loop :: "addr \<Rightarrow> addr \<Rightarrow> 'a pr \<Rightarrow> 'a pr option" and pml4 environment s t
  assume "\<And>pml4 environment s t. loop pml4 environment s = Some t \<Longrightarrow> pageframe_state.more t = pageframe_state.more s"
    and "(if environment \<noteq> 0 then do {
        e \<leftarrow> s_environment s environment;
        s \<leftarrow> paging_map pml4 (pe_virtual_address e) (pe_physical_address e) (pe_pages e) s;
        let s = (if environment_has PROCESS_ENVIRONMENT_WRITABLE e
          then paging_set_attribute pml4 (pe_virtual_address e) (pe_pages e) PAGE_DIRECTORY_WRITABLE True s else s);
        loop pml4 (pe_next e) s }
      else Some s) = Some t"
  then show "pageframe_state.more t = pageframe_state.more s"
    by (auto simp: Let_def paging_set_attribute_more split: if_splits Option.bind_splits dest!: paging_map_more)
qed

lemma process_pagemap_more:
  "process_pagemap environment s = Some (pml4, t) \<Longrightarrow> pageframe_state.more t = pageframe_state.more s"
  by (auto simp: process_pagemap_def pageframe_request_more pagemap_loop_more split: Option.bind_splits dest!: pagemap_loop_more)

lemma process_more:
  assumes "pageframe_state.more u = pageframe_state.more (t :: 'a pr)"
  shows "s_nodes u = s_nodes t" "s_queues u = s_queues t" "s_tid_accumulator u = s_tid_accumulator t"
    "s_process u = s_process t" "s_environment u = s_environment t" "s_processes_num u = s_processes_num t"
    "s_pid_accumulator u = s_pid_accumulator t"
  using assms by (cases t; cases u; simp)+

lemma stack_loop_first:
  assumes "stack_loop environment s = Some stack" "environment \<noteq> 0"
  shows "\<exists>e. s_environment s environment = Some e \<and> environment_has PROCESS_ENVIRONMENT_STACK e \<and> stack = pe_virtual_address e"
  using assms
proof -
  have "environment \<noteq> 0 \<longrightarrow> (\<exists>e. s_environment s environment = Some e \<and>
      environment_has PROCESS_ENVIRONMENT_STACK e \<and> stack = pe_virtual_address e)"
    using assms(1)
  proof (rule stack_loop.raw_induct [where P = "\<lambda>environment s stack. environment \<noteq> 0 \<longrightarrow>
      (\<exists>e. s_environment s environment = Some e \<and> environment_has PROCESS_ENVIRONMENT_STACK e \<and> stack = pe_virtual_address e)", rotated])
    fix loop :: "addr \<Rightarrow> 'a pr \<Rightarrow> addr option" and environment s stack
    assume "\<And>environment s stack. loop environment s = Some stack \<Longrightarrow> environment \<noteq> 0 \<longrightarrow>
        (\<exists>e. s_environment s environment = Some e \<and> environment_has PROCESS_ENVIRONMENT_STACK e \<and> stack = pe_virtual_address e)"
      and "(if environment \<noteq> 0 then do {
          e \<leftarrow> s_environment s environment;
          if environment_has PROCESS_ENVIRONMENT_STACK e then Some (pe_virtual_address e) else loop environment s }
        else Some 0) = Some stack"
    then show "environment \<noteq> 0 \<longrightarrow> (\<exists>e. s_environment s environment = Some e \<and>
        environment_has PROCESS_ENVIRONMENT_STACK e \<and> stack = pe_virtual_address e)"
      by (fastforce split: if_splits Option.bind_splits)
  qed
  with assms(2) show ?thesis by blast
qed

lemma node_update_more:
  "node_update f a s = Some t \<Longrightarrow> scheduler_state.more t = scheduler_state.more s \<and> s_tid_accumulator t = s_tid_accumulator s"
  by (auto simp: node_update_def split: Option.bind_splits)

lemma scheduler_add_task_more:
  assumes "scheduler_add_task p st q s = Some (node, t)"
  shows "scheduler_state.more t = scheduler_state.more s"
  using assms
  by (auto simp: scheduler_add_task_def scheduler_enqueue_task_def set_queue_def Let_def atomic_accumulate_def
      split: Option.bind_splits if_splits dest!: node_update_more)

lemma scheduler_more:
  assumes "scheduler_state.more u = scheduler_state.more (t :: 'a pr)"
  shows "s_process u = s_process t" "s_environment u = s_environment t" "s_processes_num u = s_processes_num t"
    "s_pid_accumulator u = s_pid_accumulator t"
  using assms by (cases t; cases u; simp)+

lemma sched_rel_update_task:
  assumes "sched_rel idle s Q fl" "s_nodes s a = Some n" "flags c = flags (context_of n)"
  shows "sched_rel idle (s\<lparr>s_nodes := (s_nodes s)(a \<mapsto> n\<lparr>context_of := c\<rparr>)\<rparr>) Q fl"
proof -
  have "same_links (s_nodes s) ((s_nodes s)(a \<mapsto> n\<lparr>context_of := c\<rparr>))"
    by (rule same_links_update) (rule assms(2))
  moreover have "node_flags ((s_nodes s)(a \<mapsto> n\<lparr>context_of := c\<rparr>)) = node_flags (s_nodes s)"
    using assms(2,3) by (simp add: node_flags_def fun_eq_iff)
  ultimately show ?thesis
    using assms(1) queue_ok_same_links by (auto simp: sched_rel_def)
qed

lemma sched_rel_same: "s_nodes t = s_nodes s \<Longrightarrow> s_queues t = s_queues s \<Longrightarrow> sched_rel idle t Q fl \<longleftrightarrow> sched_rel idle s Q fl"
  by (simp add: sched_rel_def)

section \<open>Results\<close>

text \<open>The state in which the page map is made: the parent is locked and the process number is taken.\<close>

definition started :: "addr \<Rightarrow> Process \<Rightarrow> 'a pr \<Rightarrow> 'a pr" where
  "started par pp s = s\<lparr>s_process := (s_process s)(par \<mapsto> pp\<lparr>p_flags := set_bit 0 (p_flags pp)\<rparr>),
     s_pid_accumulator := s_pid_accumulator s + 1\<rparr>"

text \<open>The new process before its thread is known.\<close>

definition made_process :: "u64 \<Rightarrow> addr \<Rightarrow> addr \<Rightarrow> Process" where
  "made_process p pml4 par = \<lparr>pid = p, p_pml4 = pml4, p_flags = 0, thread_contexts = 0,
     p_parent = par, p_next = 0, p_child_list = 0, p_entry = 0, p_environment = 0\<rparr>"

abbreviation thread_state :: "addr \<Rightarrow> addr \<Rightarrow> SchedulerTaskInitialState" where
  "thread_state entry stack \<equiv> \<lparr>is_general = zero_registers, is_entry = entry, is_stack = stack, is_rpl = PROCESS_RPL\<rparr>"

abbreviation owned_by :: "addr \<Rightarrow> SchedulerNode \<Rightarrow> SchedulerNode" where
  "owned_by process n \<equiv> n\<lparr>context_of := (context_of n)\<lparr>task := (task (context_of n))\<lparr>t_process := process\<rparr>\<rparr>\<rparr>"

text \<open>What is left to do when the page map is made.\<close>

lemma process_create_new_start:
  assumes "process \<noteq> 0" and par: "par = (if parent = 0 then root else parent)" "s_process s par = Some pp" "\<not> bit (p_flags pp) 0"
    and map: "process_pagemap environment (started par pp s) = Some (pml4, s1)"
    and s2: "s2 = s1\<lparr>s_process := (s_process s1)(process \<mapsto> made_process (s_pid_accumulator s) pml4 par)\<rparr>"
  shows "process_create_new root process node parent environment entry queue s = do {
      stack \<leftarrow> stack_loop environment s2;
      (node, s) \<leftarrow> scheduler_add_task node (thread_state entry stack) queue s2;
      q \<leftarrow> s_process s process;
      let s = s\<lparr>s_process := (s_process s)(process \<mapsto> q\<lparr>thread_contexts := node\<rparr>)\<rparr>;
      s \<leftarrow> node_update (owned_by process) node s;
      s \<leftarrow> process_add root par process s;
      process_unlock par s }"
proof -
  have "process_spinlock par s = Some (s\<lparr>s_process := (s_process s)(par \<mapsto> pp\<lparr>p_flags := set_bit 0 (p_flags pp)\<rparr>)\<rparr>)"
    using par(2,3) by (simp add: process_spinlock_def atomic_spinlock_eq PROCESS_FLAG_LOCKED_def)
  then show ?thesis
    using map assms(1) unfolding process_create_new_def par(1) [symmetric] Let_def
    by (simp add: atomic_accumulate_def started_def s2 made_process_def)
qed

text \<open>The end of the creation, from the state \<open>t\<close> in which the thread is added.\<close>

lemma process_create_new_end:
  assumes p: "s_process s par = Some pp" "\<not> bit (p_flags pp) 0" "p_child_list pp = 0" "par \<noteq> 0" "par \<noteq> process"
    and t: "s_nodes t node = Some n" "s_processes_num t = s_processes_num s"
      "s_process t = (s_process s)(par \<mapsto> pp\<lparr>p_flags := set_bit 0 (p_flags pp)\<rparr>, process \<mapsto> new)"
  shows "do {
      q \<leftarrow> s_process t process;
      s \<leftarrow> node_update (owned_by process) node (t\<lparr>s_process := (s_process t)(process \<mapsto> q\<lparr>thread_contexts := node\<rparr>)\<rparr>);
      s \<leftarrow> process_add root par process s;
      process_unlock par s }
    = Some (t\<lparr>s_nodes := (s_nodes t)(node \<mapsto> owned_by process n), s_processes_num := s_processes_num s + 1,
        s_process := (s_process s)(process \<mapsto> new\<lparr>thread_contexts := node\<rparr>)\<rparr>)"
  using t p
  by (simp add: node_update_def process_add_def process_unlock_def child_loop.simps [of 0]
      fun_upd_twist fun_upd_idem [of "s_process s" par, OF p(1)]
      atomic_unlock_def atomic_accumulate_def PROCESS_FLAG_LOCKED_def)

text \<open>
  C10. \<^const>\<open>process_create_new\<close> with fresh objects from \<open>malloc\<close>, a parent that is not locked and a page map that
  can be made: when the first environment is a stack, it returns, and the process's first thread is the
  last task of the requested queue, not locked, at the entry and on the stack of that environment, in ring
  3, with a reference to the process; the process has the next number, its page map and its parent, the parent is unlocked and
  otherwise as before (in particular its list of children does not have the process), and the number of
  processes is one more.  When the first environment is not a stack, it never returns, whatever the
  other environments are.
\<close>

theorem process_create_new_result:
  fixes s :: "'a pr"
  assumes sched: "sched_rel idle s Q fl" and node: "node \<noteq> 0" "node \<noteq> idle" "s_nodes s node = None"
    and process: "process \<noteq> 0" "s_process s process = None"
    and par: "par = (if parent = 0 then root else parent)" "s_process s par = Some pp" "\<not> bit (p_flags pp) 0" "p_child_list pp = 0" "par \<noteq> 0"
    and environment: "environment \<noteq> 0" "s_environment s environment = Some e"
    and map: "process_pagemap environment (started par pp s) = Some (pml4, s1)"
  shows "if environment_has PROCESS_ENVIRONMENT_STACK e
    then \<exists>t n. process_create_new root process node parent environment entry queue s = Some t \<and>
      sched_rel idle t (Q(queue_index queue := Q (queue_index queue) @ [node])) (fl(node := 0)) \<and>
      s_nodes t node = Some n \<and> rip (context_frame (context_of n)) = entry \<and>
      rsp (context_frame (context_of n)) = pe_virtual_address e \<and>
      cs (context_frame (context_of n)) AND 3 = 3 \<and> ss (context_frame (context_of n)) AND 3 = 3 \<and>
      t_process (task (context_of n)) = process \<and>
      s_process t = (s_process s)(process \<mapsto> \<lparr>pid = s_pid_accumulator s, p_pml4 = pml4, p_flags = 0, thread_contexts = node,
        p_parent = par, p_next = 0, p_child_list = 0, p_entry = 0, p_environment = 0\<rparr>) \<and>
      s_processes_num t = s_processes_num s + 1 \<and> s_pid_accumulator t = s_pid_accumulator s + 1
    else process_create_new root process node parent environment entry queue s = None"
proof -
  define s2 where "s2 = s1\<lparr>s_process := (s_process s1)(process \<mapsto> made_process (s_pid_accumulator s) pml4 par)\<rparr>"
  let ?st = "thread_state entry (pe_virtual_address e)"
  note s1 = process_more [OF process_pagemap_more [OF map]]
  note start = process_create_new_start [OF process(1) par(1-3) map s2_def, of node entry queue]
  show ?thesis
  proof (cases "environment_has PROCESS_ENVIRONMENT_STACK e")
    case False
    then have "stack_loop environment s2 = None"
      using stack_loop_first [of environment s2] environment s1(5)
      by (cases "stack_loop environment s2") (auto simp: started_def s2_def)
    then show ?thesis using False by (simp add: start)
  next
    case True
    have stack: "stack_loop environment s2 = Some (pe_virtual_address e)"
      using True environment s1(5) by (subst stack_loop.simps) (simp add: started_def s2_def)
    have "sched_rel idle s2 Q fl" using sched s1(1,2) sched_rel_same [of s2 s] by (simp add: started_def s2_def)
    moreover have "s_nodes s2 node = None" using node(3) s1(1) by (simp add: started_def s2_def)
    ultimately obtain t n where t: "scheduler_add_task node ?st queue s2 = Some (node, t)"
        "sched_rel idle t (Q(queue_index queue := Q (queue_index queue) @ [node])) (fl(node := 0))"
        "s_nodes t node = Some n" "context_of n = context_of (new_node ?st (queue_index queue) (s_tid_accumulator s2))"
      using sched_rel_add_task [of idle s2 Q fl node ?st queue] node(1,2) by (auto simp: content_def)
    note more = scheduler_more [OF scheduler_add_task_more [OF t(1)]]
    let ?p = "made_process (s_pid_accumulator s) pml4 par"
    let ?t = "t\<lparr>s_nodes := (s_nodes t)(node \<mapsto> owned_by process n), s_processes_num := s_processes_num s + 1,
      s_process := (s_process s)(process \<mapsto> ?p\<lparr>thread_contexts := node\<rparr>)\<rparr>"
    have "par \<noteq> process" using par(2) process(2) by auto
    moreover have "s_process t = (s_process s)(par \<mapsto> pp\<lparr>p_flags := set_bit 0 (p_flags pp)\<rparr>, process \<mapsto> ?p)"
        "s_processes_num t = s_processes_num s"
      using more(1,3) s1(4,6) by (simp_all add: started_def s2_def)
    ultimately have "process_create_new root process node parent environment entry queue s = Some ?t"
      using process_create_new_end [of s par pp process t node n ?p root] t(3) par(2-5)
      by (simp add: start stack t(1) Let_def)
    moreover have "sched_rel idle ?t (Q(queue_index queue := Q (queue_index queue) @ [node])) (fl(node := 0))"
      using sched_rel_update_task [OF t(2,3), of "context_of (owned_by process n)"] by (simp add: sched_rel_def)
    moreover have "s_pid_accumulator t = s_pid_accumulator s + 1" using s1(7) more(4) by (simp add: started_def s2_def)
    ultimately show ?thesis
      using True t(4) by (auto simp: new_node_def PROCESS_RPL_def made_process_def)
  qed
qed

definition example_pr :: process_state where
  "example_pr = example_pf 0xC0 \<lparr>s_pagetable_l4 = 0, s_madt = 0,
     s_madt_info = \<lparr>local_apic_ptr = 0, processors = [], ioapics = [], isos = [], nmis = []\<rparr>,
     s_nodes = Map.empty, s_queues = replicate 3 \<lparr>q_first = 0, q_num = 0, q_flags = 0\<rparr>, s_tid_accumulator = 1,
     s_process = [0x10 \<mapsto> s_root],
     s_environment = [0x500 \<mapsto> \<lparr>pe_virtual_address = 0x7000, pe_physical_address = 0, pe_flags = 0x10, pe_pages = 0, pe_next = 0\<rparr>],
     s_processes_num = 0, s_pid_accumulator = 1\<rparr>"

lemma example_pr_map: "\<exists>pml4 t. process_pagemap 0x500 (started 0x10 s_root example_pr) = Some (pml4, t)"
proof -
  let ?x = "pageframe_state.more (started 0x10 s_root example_pr)"
  have s: "started 0x10 s_root example_pr = example_pf 0xC0 ?x"
    by (simp add: started_def example_pr_def example_pf_def)
  obtain pml4 t where t: "pageframe_request (started 0x10 s_root example_pr) = Some (pml4, t)"
    using pageframe_request_cases [OF example_pf_good(1,2), of "0xC0" ?x] unfolding s [symmetric] by metis
  then have "s_environment t = s_environment (started 0x10 s_root example_pr)"
    using process_more(5) pageframe_request_more(1) by blast
  then have "s_environment t 0x500 =
      Some \<lparr>pe_virtual_address = 0x7000, pe_physical_address = 0, pe_flags = 0x10, pe_pages = 0, pe_next = 0\<rparr>"
    by (simp add: started_def example_pr_def example_pf_def)
  then have "pagemap_loop pml4 0x500 t = Some t"
    by (subst pagemap_loop.simps)
      (simp add: paging_map_def word_for_opt_step environment_has_def pagemap_loop.simps [of _ 0])
  then show ?thesis by (simp add: process_pagemap_def t)
qed

theorem process_create_new_result_witness:
  "\<exists>t n. process_create_new 0x10 0x2000 0x1000 0 0x500 0x400000 SCHEDULER_QUEUE_REGULAR example_pr = Some t \<and>
    sched_rel 0x18 t ((\<lambda>_. [])(1 := [0x1000])) (\<lambda>_. 0) \<and> s_nodes t 0x1000 = Some n \<and>
    rip (context_frame (context_of n)) = 0x400000 \<and> rsp (context_frame (context_of n)) = 0x7000 \<and>
    t_process (task (context_of n)) = 0x2000 \<and> s_processes_num t = 1"
proof -
  obtain pml4 s1 where map: "process_pagemap 0x500 (started 0x10 s_root example_pr) = Some (pml4, s1)"
    using example_pr_map by blast
  have fields: "s_nodes example_pr = Map.empty" "s_process example_pr = [0x10 \<mapsto> s_root]" "s_processes_num example_pr = 0"
    "s_environment example_pr = [0x500 \<mapsto> \<lparr>pe_virtual_address = 0x7000, pe_physical_address = 0, pe_flags = 0x10, pe_pages = 0, pe_next = 0\<rparr>]"
    "scheduler_init example_pr = example_pr"
    by (simp_all add: example_pr_def example_pf_def scheduler_init_def SCHEDULER_QUEUES_NUM_def)
  have "sched_rel 0x18 example_pr (\<lambda>_. []) (\<lambda>_. 0)"
    using scheduler_init_rel [of "0x18" example_pr "\<lambda>_. 0"] by (simp add: fields)
  from process_create_new_result [OF this, of "0x1000" "0x2000" "0x10" 0 "0x10" s_root "0x500" _ pml4 s1 "0x400000" SCHEDULER_QUEUE_REGULAR]
  show ?thesis
    using map [unfolded s_root_def] by (auto simp: fields s_root_def environment_has_def zero_flags)
qed

section \<open>The segments of a task\<close>

definition frame_segments :: "GDTBlock \<Rightarrow> u8 \<Rightarrow> SchedulerContextFrame \<Rightarrow> bool" where
  "frame_segments b r f \<longleftrightarrow>
     cs f AND 7 = ucast r \<and> seg_kind (gdt_entry_at (cs f AND NOT 7) b) = (True, r, True, False) \<and>
     ss f AND 7 = ucast r \<and> seg_kind (gdt_entry_at (ss f AND NOT 7) b) = (True, r, False, True)"

text \<open>
  C29. The frames of tasks are well formed for the return from an interrupt: with the table that
  \<^const>\<open>gdt_init\<close> makes, the code and the stack selector of a new task, for ring 0 or ring 3, have that ring
  as requested privilege and name a present code segment and a present writable data segment of the same
  ring; so do those of the idle task, for ring 0.
\<close>

theorem task_frames_well_formed:
  assumes "is_rpl st \<in> {0, 3}" "gdt_init g t b = Some b'"
  shows "frame_segments b' (is_rpl st) (context_frame (context_of (new_node st q i))) \<and>
    frame_segments b' 0 (context_frame (context_of (s_idle_node a entry)))"
proof -
  have "gdt b' = gdt_table t"
    using assms(2) by (auto simp: gdt_init_table)
  then show ?thesis
    using assms(1)
    by (auto simp: frame_segments_def new_node_def s_idle_node_def zero_node_def gdt_entry_at_def sizeof_GDTEntry_def gdt_table_def
        seg_kind_def GDT_OFFSET_KERNEL_CODE_def GDT_OFFSET_KERNEL_DATA_def GDT_OFFSET_USER_DATA_def
        GDT_OFFSET_USER_CODE_def GDT_ACCESS_DPL_def zero_gdt_entry_def drop_bit_eq_div)
qed

theorem task_frames_well_formed_witness:
  "\<exists>b'. gdt_init 0x1000 0x2000 \<lparr>gdt_descriptor = \<lparr>gdt_size = 0, gdt_offset = 0\<rparr>, gdt = [], tss = []\<rparr> = Some b' \<and>
     frame_segments b' 3 (context_frame (context_of (new_node example_task 1 1)))"
proof -
  obtain b' where b': "gdt_init 0x1000 0x2000 \<lparr>gdt_descriptor = \<lparr>gdt_size = 0, gdt_offset = 0\<rparr>, gdt = [], tss = []\<rparr> = Some b'"
    by (simp add: gdt_init_table)
  then show ?thesis
    using task_frames_well_formed [OF _ b', of example_task] by (simp add: example_task_def)
qed

end
