(* ===== verification/Text.thy ===== *)
theory Text
  imports Paging Bootloader Io
begin

text \<open>
  \<^verbatim>\<open>shell/color.c\<close>, \<^verbatim>\<open>shell/text.c\<close>, \<^verbatim>\<open>shell/shell.c\<close> and the output to the serial port of \<^verbatim>\<open>log.c\<close>: text on the
  framebuffer, with the control sequences that select its colour.  \<open>info\<close> is the boot loader
  information; the font and the image it names lie in memory.
\<close>

section \<open>Colours\<close>

datatype LogType = LOG_TYPE_NORMAL | LOG_TYPE_INFO | LOG_TYPE_WARNING | LOG_TYPE_ERROR

record ColorInterface =
  c_ansi :: "u8 list"
  c_shell :: u32
  c_log :: LogType

text \<open>
  A colour without a third field has the zero of \<open>enum LogType\<close>; the strings are filled up with
  zeros to the eight bytes of the array.
\<close>

definition s_colors :: "ColorInterface list" where
  "s_colors =
    [\<lparr>c_ansi = [0x1b, 0x5b, 0x30, 0x6d, 0, 0, 0, 0], c_shell = 0xffffffff, c_log = LOG_TYPE_NORMAL\<rparr>,
     \<lparr>c_ansi = [0x1b, 0x5b, 0x30, 0x3b, 0x33, 0x30, 0x6d, 0], c_shell = 0xff000000, c_log = LOG_TYPE_NORMAL\<rparr>,
     \<lparr>c_ansi = [0x1b, 0x5b, 0x30, 0x3b, 0x33, 0x31, 0x6d, 0], c_shell = 0xffff0000, c_log = LOG_TYPE_ERROR\<rparr>,
     \<lparr>c_ansi = [0x1b, 0x5b, 0x30, 0x3b, 0x33, 0x32, 0x6d, 0], c_shell = 0xff00ff00, c_log = LOG_TYPE_NORMAL\<rparr>,
     \<lparr>c_ansi = [0x1b, 0x5b, 0x30, 0x3b, 0x33, 0x33, 0x6d, 0], c_shell = 0xffffff00, c_log = LOG_TYPE_WARNING\<rparr>,
     \<lparr>c_ansi = [0x1b, 0x5b, 0x30, 0x3b, 0x33, 0x34, 0x6d, 0], c_shell = 0xff0000ff, c_log = LOG_TYPE_INFO\<rparr>,
     \<lparr>c_ansi = [0x1b, 0x5b, 0x30, 0x3b, 0x33, 0x35, 0x6d, 0], c_shell = 0xffff00ff, c_log = LOG_TYPE_NORMAL\<rparr>,
     \<lparr>c_ansi = [0x1b, 0x5b, 0x30, 0x3b, 0x33, 0x36, 0x6d, 0], c_shell = 0xff00ffff, c_log = LOG_TYPE_NORMAL\<rparr>,
     \<lparr>c_ansi = [0x1b, 0x5b, 0x30, 0x3b, 0x33, 0x37, 0x6d, 0], c_shell = 0xffffffff, c_log = LOG_TYPE_NORMAL\<rparr>]"

definition g_color_default :: ColorInterface where
  "g_color_default =
     \<lparr>c_ansi = [0x1b, 0x5b, 0x30, 0x3b, 0x33, 0x37, 0x6d, 0], c_shell = 0xffffffff, c_log = LOG_TYPE_NORMAL\<rparr>"

text \<open>
  \<open>COLOR_MATCH_FAIL\<close> is \<^const>\<open>None\<close>.  The two arguments are the bytes at the two pointers, of
  which the loop sees at most eight.
\<close>

fun color_ansi_compare :: "nat \<Rightarrow> u8 list \<Rightarrow> u8 list \<Rightarrow> nat option" where
  "color_ansi_compare i (x # xs) (y # ys) =
     (if x \<noteq> y then None
      else if x = 0x6d \<and> y = 0x6d then Some (i + 1)
      else color_ansi_compare (i + 1) xs ys)"
| "color_ansi_compare i xs ys = None"

definition color_from_ansi :: "memory \<Rightarrow> addr \<Rightarrow> ColorInterface \<times> nat option" where
  "color_from_ansi m color =
     (let compare = (\<lambda>c. color_ansi_compare 0 (c_ansi c) (load_array 8 m color))
      in if m color \<noteq> 0x1b then (g_color_default, None)
         else case find (\<lambda>c. compare c \<noteq> None) s_colors of None \<Rightarrow> (g_color_default, None) | Some c \<Rightarrow> (c, compare c))"

definition color_from_shell :: "u32 \<Rightarrow> ColorInterface" where
  "color_from_shell color = (case find (\<lambda>c. c_shell c = color) s_colors of None \<Rightarrow> g_color_default | Some c \<Rightarrow> c)"

definition color_from_log :: "LogType \<Rightarrow> ColorInterface" where
  "color_from_log color = (case find (\<lambda>c. c_log c = color) s_colors of None \<Rightarrow> g_color_default | Some c \<Rightarrow> c)"

section \<open>Text\<close>

record text_state = paging_state +
  s_cursor_x :: u32
  s_cursor_y :: u32
  s_color_state :: u32

type_synonym 'a tx = "'a text_state_scheme"

definition text_set_cursor :: "u32 \<Rightarrow> u32 \<Rightarrow> 'a tx \<Rightarrow> 'a tx" where
  "text_set_cursor x y s = s\<lparr>s_cursor_x := x, s_cursor_y := y\<rparr>"

text \<open>The character is signed and multiplied as an \<open>int\<close>; the coordinates are cut to 16 bits.\<close>

definition text_draw_char :: "BootloaderInformation \<Rightarrow> u8 \<Rightarrow> u32 \<Rightarrow> u32 \<Rightarrow> u32 \<Rightarrow> 'a tx \<Rightarrow> 'a tx" where
  "text_draw_char info chr color xoff yoff s =
     (let charsize = psf1_charsize (get_ModulePSF1Header (mem s) (mo_header (bi_font info)));
          glyph = mo_body (bi_font info) + signed (signed chr * ucast charsize :: u32)
      in word_for 0 (ucast charsize) (\<lambda>dy. word_for 0 (ucast MODULE_PSF1_WIDTH) (\<lambda>dx s.
           if mem s (glyph + dy) AND drop_bit (unat dx) 0x80 \<noteq> 0
           then s\<lparr>mem := framebuffer_putpix32 (bi_framebuffer info) (ucast (dx + ucast xoff)) (ucast (dy + ucast yoff)) color (mem s)\<rparr>
           else s)) s)"

definition text_output_char_color :: "BootloaderInformation \<Rightarrow> u8 \<Rightarrow> u32 \<Rightarrow> 'a tx \<Rightarrow> 'a tx" where
  "text_output_char_color info chr color s =
     (let newline = (\<lambda>s. s\<lparr>s_cursor_x := 0, s_cursor_y := s_cursor_y s +
            ucast (psf1_charsize (get_ModulePSF1Header (mem s) (mo_header (bi_font info))))\<rparr>)
      in if chr = 0x0a then newline s
         else let s = text_draw_char info chr color (s_cursor_x s) (s_cursor_y s) s;
                  s = s\<lparr>s_cursor_x := s_cursor_x s + ucast MODULE_PSF1_WIDTH\<rparr>
           in if s_cursor_x s < ucast (fb_width (bi_framebuffer info)) then s else newline s)"

definition text_output_char :: "BootloaderInformation \<Rightarrow> u8 \<Rightarrow> 'a tx \<Rightarrow> 'a tx" where
  "text_output_char info chr s = text_output_char_color info chr (s_color_state s) s"

definition text_handle_ansi_color :: "addr \<Rightarrow> u64 \<Rightarrow> 'a tx \<Rightarrow> nat option \<times> 'a tx" where
  "text_handle_ansi_color str i s =
     (let (color, relative_index) = color_from_ansi (mem s) (str + i)
      in (relative_index, if relative_index \<noteq> None then s\<lparr>s_color_state := c_shell color\<rparr> else s))"

text \<open>Each of the four loops reads the string again after every character it has drawn; \<open>i\<close> is 0 at the call.\<close>

partial_function (option) text_output_color_size ::
  "BootloaderInformation \<Rightarrow> addr \<Rightarrow> u32 \<Rightarrow> u64 \<Rightarrow> u64 \<Rightarrow> 'a tx \<Rightarrow> 'a tx option" where
  "text_output_color_size info str color count i s =
     (if i < count \<and> mem s (str + i) \<noteq> 0
      then text_output_color_size info str color count (i + 1) (text_output_char_color info (mem s (str + i)) color s)
      else Some s)"

partial_function (option) text_output_color :: "BootloaderInformation \<Rightarrow> addr \<Rightarrow> u32 \<Rightarrow> 'a tx \<Rightarrow> 'a tx option" where
  "text_output_color info chr color s =
     (if mem s chr \<noteq> 0 then text_output_color info (chr + 1) color (text_output_char_color info (mem s chr) color s)
      else Some s)"

partial_function (option) text_output :: "BootloaderInformation \<Rightarrow> addr \<Rightarrow> u64 \<Rightarrow> 'a tx \<Rightarrow> 'a tx option" where
  "text_output info str i s =
     (if mem s (str + i) \<noteq> 0
      then case text_handle_ansi_color str i s of
          (Some n, s) \<Rightarrow> text_output info str (i + (of_nat n - 1)) s
        | (None, s) \<Rightarrow> text_output info str (i + 1) (text_output_char info (mem s (str + i)) s)
      else Some s)"

partial_function (option) text_output_size :: "BootloaderInformation \<Rightarrow> addr \<Rightarrow> u64 \<Rightarrow> u64 \<Rightarrow> 'a tx \<Rightarrow> 'a tx option" where
  "text_output_size info str count i s =
     (if i < count
      then case text_handle_ansi_color str i s of
          (Some n, s) \<Rightarrow> text_output_size info str count (i + (of_nat n - 1) + 1) s
        | (None, s) \<Rightarrow> text_output_size info str count (i + 1) (text_output_char info (mem s (str + i)) s)
      else Some s)"

declare text_output_color_size.simps [code] text_output_color.simps [code] text_output.simps [code]
  text_output_size.simps [code]

section \<open>Screen and serial port\<close>

definition shell_draw_tga :: "BootloaderInformation \<Rightarrow> Module \<Rightarrow> u32 \<Rightarrow> u32 \<Rightarrow> 'a tx \<Rightarrow> 'a tx" where
  "shell_draw_tga info img xoff yoff s =
     (let header = get_ModuleTGAHeader (mem s) (mo_header img)
      in word_for 0 (ucast (tga_height header)) (\<lambda>dy. word_for 0 (ucast (tga_width header)) (\<lambda>dx s.
           let offset = dx + ucast (tga_height header) * dy;
               color = load32 (mem s) (mo_body img + 4 * offset)
           in s\<lparr>mem := framebuffer_putpix32 (bi_framebuffer info) (ucast (dx + ucast xoff)) (ucast (dy + ucast yoff)) color (mem s)\<rparr>)) s)"

definition shell_init :: "BootloaderInformation \<Rightarrow> 'a tx \<Rightarrow> 'a tx" where
  "shell_init info s =
     (let header = get_ModuleTGAHeader (mem s) (mo_header (bi_image info));
          s = shell_draw_tga info (bi_image info)
            (ucast (fb_width (bi_framebuffer info)) div 2 - ucast (tga_width header) div 2) 0 s
      in text_set_cursor 0 (ucast (tga_height header)) s)"

definition shell_clear :: "BootloaderInformation \<Rightarrow> 'a tx \<Rightarrow> 'a tx" where
  "shell_clear info s = (let fb = bi_framebuffer info in
     s\<lparr>mem := memset (mem s) (fb_base fb) 0 (signed (ucast (fb_pitch fb) * ucast (fb_height fb) :: u32))\<rparr>)"

definition LOG_PORT :: u16 where
  "LOG_PORT = 0x03f8"

definition log_output_size :: "addr \<Rightarrow> u64 \<Rightarrow> 'a tx \<Rightarrow> 'a tx" where
  "log_output_size str count s = word_for 0 count (\<lambda>i s. outb LOG_PORT (mem s (str + i)) s) s"

end
