(* ===== verification/Sys.thy ===== *)
theory Sys
  imports Text
begin

text \<open>
  \<^verbatim>\<open>sys/\<close>: the table of system calls and the calls for reading, writing, memory and the size of the
  terminal.  A call is identified by its number.
\<close>

section \<open>The table\<close>

datatype SysNum =
  SYS_NUM_READ | SYS_NUM_WRITE | SYS_NUM_MMAP | SYS_NUM_MUNMAP | SYS_NUM_IOCTL | SYS_NUM_READV | SYS_NUM_WRITEV
| SYS_NUM_EXECVE | SYS_NUM_EXIT | SYS_NUM_GETRLIMIT | SYS_NUM_SYSINFO | SYS_NUM_SCHED_GETAFFINITY | SYS_NUM_PRLIMIT64

primrec sys_num :: "SysNum \<Rightarrow> u64" where
  "sys_num SYS_NUM_READ = 0"
| "sys_num SYS_NUM_WRITE = 1"
| "sys_num SYS_NUM_MMAP = 9"
| "sys_num SYS_NUM_MUNMAP = 11"
| "sys_num SYS_NUM_IOCTL = 16"
| "sys_num SYS_NUM_READV = 19"
| "sys_num SYS_NUM_WRITEV = 20"
| "sys_num SYS_NUM_EXECVE = 59"
| "sys_num SYS_NUM_EXIT = 60"
| "sys_num SYS_NUM_GETRLIMIT = 97"
| "sys_num SYS_NUM_SYSINFO = 99"
| "sys_num SYS_NUM_SCHED_GETAFFINITY = 204"
| "sys_num SYS_NUM_PRLIMIT64 = 302"

definition s_handlers :: "SysNum list" where
  "s_handlers = [SYS_NUM_READ, SYS_NUM_WRITE, SYS_NUM_MMAP, SYS_NUM_MUNMAP, SYS_NUM_IOCTL, SYS_NUM_READV,
     SYS_NUM_WRITEV, SYS_NUM_EXECVE, SYS_NUM_EXIT, SYS_NUM_GETRLIMIT, SYS_NUM_SYSINFO, SYS_NUM_SCHED_GETAFFINITY,
     SYS_NUM_PRLIMIT64]"

text \<open>\<^const>\<open>None\<close> is the stub, which returns 0.\<close>

definition syshandler_get :: "u64 \<Rightarrow> SysNum option" where
  "syshandler_get num = find (\<lambda>h. sys_num h = num) s_handlers"

section \<open>Reading and writing\<close>

definition sys_read :: "u32 \<Rightarrow> addr \<Rightarrow> u64 \<Rightarrow> u64" where
  "sys_read fd buf count = (if fd = 0 then count else 0)"

text \<open>The array of buffers: an address and a length each.\<close>

definition sys_readv :: "memory \<Rightarrow> u32 \<Rightarrow> addr \<Rightarrow> u64 \<Rightarrow> u64" where
  "sys_readv m fd vec vlen =
     word_for 0 vlen (\<lambda>i total. total + sys_read fd (load64 m (vec + 16 * i)) (load64 m (vec + 16 * i + 8))) 0"

definition sys_write :: "BootloaderInformation \<Rightarrow> u32 \<Rightarrow> addr \<Rightarrow> u64 \<Rightarrow> 'a tx \<Rightarrow> (u64 \<times> 'a tx) option" where
  "sys_write info fd buf count s =
     (if fd = 1 then map_option (Pair count) (text_output_size info buf count 0 s)
      else if fd = 2 then Some (count, log_output_size buf count s)
      else Some (0, s))"

definition sys_writev :: "BootloaderInformation \<Rightarrow> u32 \<Rightarrow> addr \<Rightarrow> u64 \<Rightarrow> 'a tx \<Rightarrow> (u64 \<times> 'a tx) option" where
  "sys_writev info fd vec vlen s =
     word_for_opt 0 vlen (\<lambda>i (total, s). do {
       (n, s) \<leftarrow> sys_write info fd (load64 (mem s) (vec + 16 * i)) (load64 (mem s) (vec + 16 * i + 8)) s;
       Some (total + n, s) }) (0, s)"

section \<open>Memory and terminal\<close>

text \<open>The test of the protection is \<open>prot | PROT_WRITE\<close>.\<close>

definition sys_mmap :: "addr \<Rightarrow> u64 \<Rightarrow> u32 \<Rightarrow> u32 \<Rightarrow> u32 \<Rightarrow> u64 \<Rightarrow> 'a pg \<Rightarrow> (u64 \<times> 'a pg) option" where
  "sys_mmap a len prot fl fd offset s = do {
     let pagetable_l4 = paging_get_pagetable_l4 s;
     let pages = NEAREST_PAGE len;
     (block, s) \<leftarrow> pageframe_request_pages pages s;
     Some (block, if prot OR 2 \<noteq> 0 then paging_set_attribute pagetable_l4 block pages PAGE_DIRECTORY_WRITABLE True s else s) }"

definition sys_munmap :: "addr \<Rightarrow> u64 \<Rightarrow> 'a pg \<Rightarrow> (u64 \<times> 'a pg) option" where
  "sys_munmap a len s = do { s \<leftarrow> pageframe_free a (NEAREST_PAGE len) s; Some (0, s) }"

text \<open>Another command reaches the end of the function without a value: \<^const>\<open>None\<close>.\<close>

definition sys_ioctl :: "BootloaderInformation \<Rightarrow> u32 \<Rightarrow> u32 \<Rightarrow> addr \<Rightarrow> 'a tx \<Rightarrow> (u64 \<times> 'a tx) option" where
  "sys_ioctl info fd cmd arg s =
     (if cmd = 0x5413
      then let fb = bi_framebuffer info;
          font = get_ModulePSF1Header (mem s) (mo_header (bi_image info));
          m = store16 (store16 (store16 (store16 (mem s) arg (fb_width fb)) (arg + 2) (fb_height fb))
            (arg + 4) (ucast MODULE_PSF1_WIDTH)) (arg + 6) (ucast (psf1_charsize font))
        in Some (0, s\<lparr>mem := m\<rparr>)
      else None)"

end
