(* ===== verification/Sys_Props.thy ===== *)
theory Sys_Props
  imports Sys
begin

text \<open>
  What the system calls for writing send to the serial port, and how the two ways of printing a string
  differ at a control sequence.
\<close>

section \<open>The serial port\<close>

lemma log_output_size_ports:
  "log_output_size str count s = s\<lparr>ports := ports s @ map (\<lambda>j. Outb LOG_PORT (mem s (str + of_nat j))) [0..<unat count]\<rparr>"
  unfolding log_output_size_def
proof (rule word_for_rule [where P = "\<lambda>i t. t = s\<lparr>ports := ports s @ map (\<lambda>j. Outb LOG_PORT (mem s (str + of_nat j))) [0..<unat i]\<rparr>"])
  fix j t
  assume "j < count" "t = s\<lparr>ports := ports s @ map (\<lambda>j. Outb LOG_PORT (mem s (str + of_nat j))) [0..<unat j]\<rparr>"
  then show "outb LOG_PORT (mem t (str + j)) t =
      s\<lparr>ports := ports s @ map (\<lambda>j. Outb LOG_PORT (mem s (str + of_nat j))) [0..<unat (j + 1)]\<rparr>"
    by (simp add: outb_def unat_plus_one)
qed simp_all

text \<open>What a call with the buffers of \<open>vec\<close> up to \<open>n\<close> sends, and the number of bytes.\<close>

definition vec_events :: "memory \<Rightarrow> addr \<Rightarrow> nat \<Rightarrow> io_event list" where
  "vec_events m vec n = concat (map (\<lambda>i. map (\<lambda>j. Outb LOG_PORT (m (load64 m (vec + 16 * of_nat i) + of_nat j)))
     [0..<unat (load64 m (vec + 16 * of_nat i + 8))]) [0..<n])"

definition vec_total :: "memory \<Rightarrow> addr \<Rightarrow> nat \<Rightarrow> u64" where
  "vec_total m vec n = (\<Sum>i\<leftarrow>[0..<n]. load64 m (vec + 16 * of_nat i + 8))"

lemma sys_writev_ports:
  "sys_writev info 2 vec vlen s =
     Some (vec_total (mem s) vec (unat vlen), s\<lparr>ports := ports s @ vec_events (mem s) vec (unat vlen)\<rparr>)"
proof -
  let ?P = "\<lambda>i (r, t). r = vec_total (mem s) vec (unat i) \<and> t = s\<lparr>ports := ports s @ vec_events (mem s) vec (unat i)\<rparr>"
  have "\<exists>t. sys_writev info 2 vec vlen s = Some t \<and> ?P vlen t"
    unfolding sys_writev_def
  proof (rule word_for_opt_rule)
    fix j t
    assume "j < vlen" "?P j t"
    then show "\<exists>u. (case t of (r, s) \<Rightarrow> do {
        (n, s) \<leftarrow> sys_write info 2 (load64 (mem s) (vec + 16 * j)) (load64 (mem s) (vec + 16 * j + 8)) s;
        Some (r + n, s) }) = Some u \<and> ?P (j + 1) u"
      by (auto simp: sys_write_def log_output_size_ports vec_total_def vec_events_def unat_plus_one)
  qed (simp_all add: vec_total_def vec_events_def)
  then show ?thesis by auto
qed

lemma sys_writev_other: "fd \<noteq> 1 \<Longrightarrow> fd \<noteq> 2 \<Longrightarrow> sys_writev info fd vec vlen s = Some (0, s)"
proof -
  assume fd: "fd \<noteq> 1" "fd \<noteq> 2"
  have "\<exists>t. sys_writev info fd vec vlen s = Some t \<and> t = (0, s)"
    unfolding sys_writev_def by (rule word_for_opt_rule) (use fd in \<open>simp_all add: sys_write_def\<close>)
  then show ?thesis by simp
qed

section \<open>Control sequences\<close>

lemma color_ansi_compare_end:
  "color_ansi_compare k xs ys = Some n \<Longrightarrow> k < n \<and> n \<le> k + length ys \<and> ys ! (n - 1 - k) = 0x6d"
proof (induction k xs ys rule: color_ansi_compare.induct)
  case (1 i x xs y ys)
  then show ?case by (auto split: if_splits simp: nth_Cons' )
qed simp_all

lemma color_from_ansi_end:
  assumes "color_from_ansi m a = (c, Some n)"
  shows "m a = 0x1b" "1 \<le> n" "m (a + (of_nat n - 1)) = 0x6d"
proof -
  have esc: "m a = 0x1b" and n: "color_ansi_compare 0 (c_ansi c) (load_array 8 m a) = Some n"
    using assms by (auto simp: color_from_ansi_def Let_def split: if_splits option.splits)
  note last = color_ansi_compare_end [OF n]
  then have "load_array 8 m a ! (n - 1) = m (a + of_nat (n - 1))"
    by (auto simp: load_array_def)
  with last esc show "m a = 0x1b" "1 \<le> n" "m (a + (of_nat n - 1)) = 0x6d"
    by (auto simp: of_nat_diff)
qed

section \<open>Results\<close>

text \<open>
  C32. A vectored write to the standard error output always returns, sends the bytes of the buffers to the serial
  port, one after the other in the order of the array, and returns the sum of their lengths; it changes
  nothing else.  A write to any descriptor other than 1 and 2 returns 0 and changes nothing.
\<close>

theorem sys_writev_sends:
  "sys_writev info 2 vec vlen s =
     Some ((\<Sum>i\<leftarrow>[0..<unat vlen]. load64 (mem s) (vec + 16 * of_nat i + 8)),
       s\<lparr>ports := ports s @ concat (map (\<lambda>i. map (\<lambda>j. Outb LOG_PORT (mem s (load64 (mem s) (vec + 16 * of_nat i) + of_nat j)))
         [0..<unat (load64 (mem s) (vec + 16 * of_nat i + 8))]) [0..<unat vlen])\<rparr>) \<and>
   (fd \<notin> {1, 2} \<longrightarrow> sys_writev info fd vec vlen s = Some (0, s))"
  by (simp add: sys_writev_ports vec_total_def vec_events_def sys_writev_other)

definition example_tx :: "memory \<Rightarrow> text_state" where
  "example_tx m = \<lparr>mem = m, ports = [], s_memory_total_size = 0, s_memory_used_size = 0, s_memory_reserved_size = 0,
     s_pageframemap = \<lparr>bm_buffer = 0, bm_size = 0\<rparr>, s_current_index = 0, s_mutex = 0, s_pagetable_l4 = 0,
     s_cursor_x = 0, s_cursor_y = 0, s_color_state = 0\<rparr>"

theorem sys_writev_sends_witness:
  "sys_writev s_bootloader_info 3 0x1000 5 (example_tx (\<lambda>_. 0)) = Some (0, example_tx (\<lambda>_. 0))"
  using sys_writev_sends [of s_bootloader_info "0x1000" 5 "example_tx (\<lambda>_. 0)" 3] by simp

text \<open>
  C38. At a control sequence for a colour, \<open>n\<close> bytes long, \<^const>\<open>text_output_size\<close> sets the colour and goes on behind
  the sequence, while \<^const>\<open>text_output\<close> sets the colour and then prints the last byte of the sequence, the
  letter \<open>m\<close>, as a character.
\<close>

theorem text_output_prints_sequence_end:
  assumes "color_from_ansi (mem s) (str + i) = (c, Some n)" "i < count"
  shows "text_output_size info str count i s =
      text_output_size info str count (i + of_nat n) (s\<lparr>s_color_state := c_shell c\<rparr>) \<and>
    text_output info str i s =
      text_output info str (i + of_nat n) (text_output_char info 0x6d (s\<lparr>s_color_state := c_shell c\<rparr>))"
proof
  note e = color_from_ansi_end [OF assms(1)]
  let ?s = "s\<lparr>s_color_state := c_shell c\<rparr>"
  have set: "text_handle_ansi_color str i s = (Some n, ?s)"
    using assms(1) by (simp add: text_handle_ansi_color_def)
  show "text_output_size info str count i s = text_output_size info str count (i + of_nat n) ?s"
    using assms(2) set by (subst text_output_size.simps) (simp add: add.assoc)
  have byte: "mem s (str + (i + (of_nat n - 1))) = 0x6d"
    using e(3) by (simp add: add.assoc)
  then have none: "text_handle_ansi_color str (i + (of_nat n - 1)) ?s = (None, ?s)"
    by (simp add: text_handle_ansi_color_def color_from_ansi_def)
  have "text_output info str i s = text_output info str (i + (of_nat n - 1)) ?s"
    using set e(1) by (subst text_output.simps) simp
  also have "\<dots> = text_output info str (i + of_nat n) (text_output_char info 0x6d ?s)"
    using none byte by (subst text_output.simps) (simp add: add.assoc)
  finally show "text_output info str i s = text_output info str (i + of_nat n) (text_output_char info 0x6d ?s)" .
qed

definition red_text :: memory where
  "red_text a = (if a = 0x1000 then 0x1b else if a = 0x1001 then 0x5b else if a = 0x1002 then 0x30
     else if a = 0x1003 then 0x3b else if a = 0x1004 then 0x33 else if a = 0x1005 then 0x31
     else if a = 0x1006 then 0x6d else 0)"

theorem text_output_prints_sequence_end_witness:
  "text_output_size s_bootloader_info 0x1000 7 0 (example_tx red_text) =
      text_output_size s_bootloader_info 0x1000 7 7 (example_tx red_text\<lparr>s_color_state := 0xffff0000\<rparr>) \<and>
    text_output s_bootloader_info 0x1000 0 (example_tx red_text) =
      text_output s_bootloader_info 0x1000 7 (text_output_char s_bootloader_info 0x6d (example_tx red_text\<lparr>s_color_state := 0xffff0000\<rparr>))"
proof -
  have "load_array 8 red_text 0x1000 = [0x1b, 0x5b, 0x30, 0x3b, 0x33, 0x31, 0x6d, 0]"
    by (simp add: load_array_def red_text_def upt_rec)
  then have "color_from_ansi (mem (example_tx red_text)) (0x1000 + 0) = (s_colors ! 2, Some 7)"
    by (simp add: color_from_ansi_def example_tx_def s_colors_def red_text_def)
  then show ?thesis
    using text_output_prints_sequence_end [of "example_tx red_text" "0x1000" 0 "s_colors ! 2" 7 7 s_bootloader_info]
    by (simp add: s_colors_def)
qed

end
