(* ===== verification/Cpu.thy ===== *)
theory Cpu
  imports Local_Apic
begin

text \<open>
  \<^verbatim>\<open>x86_64/cpu.c\<close> and \<^verbatim>\<open>setup.c\<close>: the context of a processor with its descriptor tables and stacks, and the
  part of the start of the kernel that brings up the memory management.  A context lies in memory as a packed
  structure and the block of the global descriptor table in the page that is allocated
  for it; the shared interrupt descriptor table is a variable.  The address of a variable is a parameter.
\<close>

section \<open>Structures in memory\<close>

definition word_bytes :: "nat \<Rightarrow> 'a::len word \<Rightarrow> u8 list" where
  "word_bytes n v = map (\<lambda>k. ucast (drop_bit (8 * k) v)) [0..<n]"

definition store_list :: "memory \<Rightarrow> addr \<Rightarrow> u8 list \<Rightarrow> memory" where
  "store_list m a bs = (\<lambda>b. if unat (b - a) < length bs then bs ! unat (b - a) else m b)"

definition gdt_entry_bytes :: "GDTEntry \<Rightarrow> u8 list" where
  "gdt_entry_bytes e = word_bytes 2 (limit_low e) @ word_bytes 2 (base_low e)
     @ [base_mid e, access e, gdt_flags e, base_high e]"

definition tss_entry_bytes :: "TSSEntry \<Rightarrow> u8 list" where
  "tss_entry_bytes e = word_bytes 4 (tss_reserved0 e) @ concat (map (word_bytes 4) (tss_rsp e))
     @ concat (map (word_bytes 4) (tss_reserved1 e)) @ concat (map (word_bytes 4) (tss_ist e))
     @ concat (map (word_bytes 4) (tss_reserved2 e)) @ word_bytes 2 (tss_reserved3 e) @ word_bytes 2 (io_map_base e)"

definition put_GDTBlock :: "memory \<Rightarrow> addr \<Rightarrow> GDTBlock \<Rightarrow> memory" where
  "put_GDTBlock m a b = store_list m a (word_bytes 2 (gdt_size (gdt_descriptor b))
     @ word_bytes 8 (gdt_offset (gdt_descriptor b))
     @ concat (map gdt_entry_bytes (gdt b)) @ concat (map tss_entry_bytes (tss b)))"

text \<open>Behind the descriptor of 10 bytes the eight entries of the table, then the task state segment.\<close>

definition sizeof_GDTBlock :: u64 where
  "sizeof_GDTBlock = 10 + of_nat GDT_NUM * sizeof_GDTEntry + of_nat GDT_TSS_NUM * sizeof_TSSEntry"

definition zero_gdt_block :: GDTBlock where
  "zero_gdt_block = \<lparr>gdt_descriptor = \<lparr>gdt_size = 0, gdt_offset = 0\<rparr>,
     gdt = replicate GDT_NUM zero_gdt_entry, tss = replicate GDT_TSS_NUM zero_tss\<rparr>"

section \<open>Context of a processor\<close>

record CPUContext =
  c_local_apic_id :: u8
  c_reserved :: "u8 list"
  rsp_userspace :: u64
  c_gdt_block :: addr
  c_idt_block :: addr
  stack_kernel :: addr
  stack_isr :: addr
  stack_irq :: addr
  stack_timer_begin :: addr
  stack_timer :: addr

definition get_CPUContext :: "memory \<Rightarrow> addr \<Rightarrow> CPUContext" where
  "get_CPUContext m a = \<lparr>c_local_apic_id = m a, c_reserved = load_array 3 m (a + 1), rsp_userspace = load64 m (a + 4),
     c_gdt_block = load64 m (a + 12), c_idt_block = load64 m (a + 20), stack_kernel = load64 m (a + 28),
     stack_isr = load64 m (a + 36), stack_irq = load64 m (a + 44), stack_timer_begin = load64 m (a + 52),
     stack_timer = load64 m (a + 60)\<rparr>"

definition sizeof_CPUContext :: u64 where
  "sizeof_CPUContext = 68"
definition sizeof_TimerStackTop :: u64 where
  "sizeof_TimerStackTop = 32"

definition CPU_STACK_PAGES_ISR :: u64 where
  "CPU_STACK_PAGES_ISR = 1"
definition CPU_STACK_PAGES_IRQ :: u64 where
  "CPU_STACK_PAGES_IRQ = 2"
definition CPU_STACK_PAGES_TIMER :: u64 where
  "CPU_STACK_PAGES_TIMER = 1"

record cpu_state = paging_state +
  s_shared_idt :: IDTBlock
  s_idt_initialized :: bool

type_synonym 'a cpu = "'a cpu_state_scheme"

definition cpu_allocate_stack :: "u64 \<Rightarrow> bool \<Rightarrow> 'a pg \<Rightarrow> (addr \<times> 'a pg) option" where
  "cpu_allocate_stack pages clear s = do {
     (stack, s) \<leftarrow> pageframe_request_pages pages s;
     let s = (if clear then s\<lparr>mem := memset (mem s) stack 0 (pages * MEMORY_PAGE_SIZE)\<rparr> else s);
     Some (stack + pages * MEMORY_PAGE_SIZE, s) }"

text \<open>\<open>shared_idt\<close> is the address of \<open>s_shared_idt\<close>, \<open>c\<close> the address of the context.\<close>

definition cpu_allocate :: "addr \<Rightarrow> addr \<Rightarrow> 'a pg \<Rightarrow> 'a pg option" where
  "cpu_allocate shared_idt c s = do {
     (gdt_block, s) \<leftarrow> pageframe_request_pages (NEAREST_PAGE sizeof_GDTBlock) s;
     let s = s\<lparr>mem := store64 (mem s) (c + 12) gdt_block\<rparr>;
     let s = s\<lparr>mem := store64 (mem s) (c + 20) shared_idt\<rparr>;
     (stack, s) \<leftarrow> cpu_allocate_stack CPU_STACK_PAGES_ISR False s;
     let s = s\<lparr>mem := store64 (mem s) (c + 36) stack\<rparr>;
     (stack, s) \<leftarrow> cpu_allocate_stack CPU_STACK_PAGES_IRQ False s;
     let s = s\<lparr>mem := store64 (mem s) (c + 44) stack\<rparr>;
     (stack, s) \<leftarrow> cpu_allocate_stack CPU_STACK_PAGES_TIMER True s;
     let s = s\<lparr>mem := store64 (mem s) (c + 60) stack\<rparr>;
     let s = s\<lparr>mem := store64 (mem s) (c + 52) (load64 (mem s) (c + 60) - CPU_STACK_PAGES_TIMER * MEMORY_PAGE_SIZE)\<rparr>;
     Some (s\<lparr>mem := store64 (mem s) (c + 60) (load64 (mem s) (c + 60) - sizeof_TimerStackTop)\<rparr>) }"

text \<open>
  The result of \<open>cpu_init\<close> holds the arguments of \<open>gdt_load\<close> and \<open>idt_load\<close>: the addresses of the two
  descriptors and whether interrupts are enabled.  The functions that only set registers of the
  processor are left out.  \<open>bsp\<close> is the address of \<open>s_cpu_bsp\<close>.  \<open>gdt_init\<close> writes every byte of
  the block, so that its former contents do not matter.
\<close>

definition cpu_init ::
  "(nat \<Rightarrow> addr) \<Rightarrow> Framebuffer \<Rightarrow> addr \<Rightarrow> addr \<Rightarrow> addr \<Rightarrow> 'a cpu \<Rightarrow> ((addr \<times> addr \<times> bool) \<times> 'a cpu) option" where
  "cpu_init isr framebuffer shared_idt bsp c s = do {
     s \<leftarrow> cpu_allocate shared_idt c s;
     let is_bsp = (c_local_apic_id (get_CPUContext (mem s) c) = c_local_apic_id (get_CPUContext (mem s) bsp));
     let s = s\<lparr>mem := store64 (mem s) (stack_timer (get_CPUContext (mem s) c) + 8) (paging_get_pagetable_l4 s)\<rparr>;
     let cpu_context = get_CPUContext (mem s) c;
     let a = c_gdt_block cpu_context;
     b \<leftarrow> gdt_init (a + 10) (a + 10 + of_nat GDT_NUM * sizeof_GDTEntry) zero_gdt_block;
     b \<leftarrow> gdt_set_tss_ring 0 (stack_kernel cpu_context) b;
     b \<leftarrow> gdt_set_tss_ist (ucast IDT_IST_ISR) (stack_isr cpu_context) b;
     b \<leftarrow> gdt_set_tss_ist (ucast IDT_IST_IRQ) (stack_irq cpu_context) b;
     b \<leftarrow> gdt_set_tss_ist (ucast IDT_IST_TIMER) (stack_timer cpu_context) b;
     let s = s\<lparr>mem := put_GDTBlock (mem s) a b\<rparr>;
     s \<leftarrow> (if \<not> s_idt_initialized s then do {
         i \<leftarrow> idt_init isr (c_idt_block cpu_context + 10) (s_shared_idt s);
         Some (s\<lparr>s_shared_idt := i, s_idt_initialized := True\<rparr>) }
       else Some s);
     let s = paging_init_pat framebuffer s;
     let s = paging_set_cache_size c sizeof_CPUContext PAGE_PAT_WRITE_COMBINE s;
     Some ((a, c_idt_block cpu_context, is_bsp), s) }"

definition cpu_set_bsp_kernel_stack :: "addr \<Rightarrow> addr \<Rightarrow> 'a pg \<Rightarrow> 'a pg" where
  "cpu_set_bsp_kernel_stack bsp stack s = s\<lparr>mem := store64 (mem s) (bsp + 28) stack\<rparr>"

section \<open>Start of the memory management\<close>

text \<open>
  The linker symbols are parameters as for \<open>pageframe_init\<close> and \<open>paging_init\<close>; loading the tables into the
  processor is left out.  The size of the framebuffer is an \<open>int\<close> product.  The size of the trampoline in
  bytes is passed as the number of pages.
\<close>

definition setup_memory ::
  "addr \<Rightarrow> addr \<Rightarrow> addr \<Rightarrow> addr \<Rightarrow> addr \<Rightarrow> Framebuffer \<Rightarrow> MemoryMap \<Rightarrow> 'a pg \<Rightarrow> 'a pg option" where
  "setup_memory virtual_base kernel_start kernel_end kernel_writable_start kernel_writable_end framebuffer memorymap s = do {
     let framebuffer_size = signed (ucast (fb_pitch framebuffer) * ucast (fb_height framebuffer) :: u32);
     s \<leftarrow> pageframe_init virtual_base kernel_start kernel_end memorymap s;
     s \<leftarrow> pageframe_reserve_size (fb_base framebuffer) framebuffer_size s;
     s \<leftarrow> pageframe_lock LOCAL_APIC_TRAMPOLINE_TARGET LOCAL_APIC_TRAMPOLINE_TARGET_SIZE s;
     s \<leftarrow> paging_init virtual_base kernel_start kernel_end kernel_writable_start kernel_writable_end memorymap s;
     s \<leftarrow> paging_identity_map_size (fb_base framebuffer) framebuffer_size s;
     Some (paging_set_writable_size (fb_base framebuffer) framebuffer_size s) }"

end
