(* ===== verification/Cpu_Correct.thy ===== *)
theory Cpu_Correct
  imports Cpu Paging_Props
begin

text \<open>
  The start of a processor.  Bytes of the kernel that belong neither to the frame map nor to a page table are
  its data; the steps of \<open>cpu_init\<close> take the next free frames, write to the context and to these frames, and keep
  the page tables and all other data.
\<close>

section \<open>Structures in memory\<close>

lemma store_list_other: "length bs \<le> unat (b - a) \<Longrightarrow> store_list m a bs b = m b"
  by (simp add: store_list_def)

lemma store_list_nth: "k < length bs \<Longrightarrow> length bs \<le> 2 ^ 64 \<Longrightarrow> store_list m a bs (a + of_nat k) = bs ! k"
  by (simp add: store_list_def unat_of_nat)

lemma length_word_bytes [simp]: "length (word_bytes n v) = n"
  by (simp add: word_bytes_def)

text \<open>A word that is stored as part of a list of bytes.\<close>

lemma load_bytes_store_list:
  assumes "bs = xs @ word_bytes n (v :: 'a::len word) @ ys" and "length bs \<le> 2 ^ 64" and "d = of_nat (length xs)"
  shows "load_bytes n (store_list m a bs) (a + d) = take_bit (8 * n) v"
proof (rule load_bytes_word)
  fix k assume "k < n"
  then have "store_list m a bs (a + of_nat (length xs + k)) = bs ! (length xs + k)"
    using assms by (intro store_list_nth) simp_all
  also have "\<dots> = ucast (drop_bit (8 * k) v)" using \<open>k < n\<close> by (simp add: assms(1) nth_append word_bytes_def)
  finally show "store_list m a bs (a + d + of_nat k) = ucast (drop_bit (8 * k) v)" by (simp add: assms(3) add.assoc)
qed

lemma load64_far:
  assumes "8 \<le> y - x" and "8 \<le> x - y"
  shows "load64 (store64 m x v) y = load64 m y"
proof (rule load64_cong, rule store64_other)
  fix k l :: nat assume "k < 8" "l < 8"
  show "y + of_nat k \<noteq> x + of_nat l"
  proof
    assume eq: "y + of_nat k = x + of_nat l"
    have lt: "of_nat k < (8 :: u64)" "of_nat l < (8 :: u64)"
      using \<open>k < 8\<close> \<open>l < 8\<close> by (simp_all add: word_less_nat_alt unat_of_nat)
    have "y - x = of_nat l - of_nat k" using eq by (simp add: algebra_simps)
    moreover have "x - y = of_nat k - of_nat l" using eq by (simp add: algebra_simps)
    ultimately show False using assms lt
      by (cases "l \<le> k") (auto simp: word_le_nat_alt word_less_nat_alt unat_sub_if' unat_of_nat split: if_splits)
  qed
qed

section \<open>Data of the kernel beside the page tables\<close>

text \<open>A byte that belongs neither to the frame map nor to a table and does not lie in a free frame.\<close>

definition kernel_data :: "'a pf \<Rightarrow> addr \<Rightarrow> addr \<Rightarrow> bool" where
  "kernel_data s l4 a \<longleftrightarrow> \<not> map_byte s a \<and> (page_of a < frames s \<longrightarrow> frame_used s (page_of a))
     \<and> (\<forall>p t. table_at (mem s) l4 p t \<longrightarrow> page_of t \<noteq> page_of a)"

text \<open>A step that keeps the tables and of the kernel's data changes at most the bytes in \<open>W\<close>.\<close>

definition data_step :: "addr \<Rightarrow> addr set \<Rightarrow> 'a pf \<Rightarrow> 'a pf \<Rightarrow> bool" where
  "data_step l4 W s t \<longleftrightarrow> paging_tree t l4 \<and> frames t = frames s
     \<and> (\<forall>va. walk (mem t) l4 va = walk (mem s) l4 va)
     \<and> (\<forall>a. kernel_data s l4 a \<longrightarrow> kernel_data t l4 a \<and> (a \<notin> W \<longrightarrow> mem t a = mem s a))"

lemma data_step_trans:
  "data_step l4 V s t \<Longrightarrow> data_step l4 W t u \<Longrightarrow> (\<And>a. kernel_data s l4 a \<Longrightarrow> a \<in> W \<Longrightarrow> a \<in> V)
     \<Longrightarrow> data_step l4 V s u"
  unfolding data_step_def by metis

text \<open>The next free frames: the first free one is \<open>k\<close>, and \<open>n\<close> in a row are free.\<close>

definition free_run :: "'a pf \<Rightarrow> u64 \<Rightarrow> u64 \<Rightarrow> bool" where
  "free_run s k n \<longleftrightarrow> s_current_index s \<le> k \<and> unat k + unat n \<le> unat (frames s)
     \<and> (\<forall>i. s_current_index s \<le> i \<and> i < k \<longrightarrow> frame_used s i) \<and> (\<forall>j < n. \<not> frame_used s (k + j))"

lemma table_at_same_tables: "same_tables m m' l4 \<Longrightarrow> table_at m' l4 p t \<longleftrightarrow> table_at m l4 p t"
  using descend_same_tables [of m m' l4 p] by (auto simp: table_at_def)

lemma write_data:
  assumes s: "paging_tree s l4" and m: "\<And>a. m a \<noteq> mem s a \<Longrightarrow> kernel_data s l4 a \<and> a \<in> W"
  shows "data_step l4 W s (s\<lparr>mem := m\<rparr>)" and "free_run s k n \<Longrightarrow> free_run (s\<lparr>mem := m\<rparr>) k n"
    and "kernel_data (s\<lparr>mem := m\<rparr>) l4 a = kernel_data s l4 a"
proof -
  from s have inv: "pf_alloc_inv s" and tree: "table_tree (frame_in_use s) (map_byte s) (mem s) l4"
    by (simp_all add: paging_tree_def)
  have "entry_next m t j = entry_next (mem s) t j" if "table_at (mem s) l4 q t" "j < 512" for q t j
  proof -
    have "load64 m (slot t j) = load64 (mem s) (slot t j)"
    proof (rule load64_slot_cong [OF table_tree_aligned [OF tree that(1)] that(2)])
      fix b assume "page_of b = page_of t"
      then have "\<not> kernel_data s l4 b" using that(1) by (auto simp: kernel_data_def)
      then show "m b = mem s b" using m by blast
    qed
    then show ?thesis by (simp add: entry_next_def)
  qed
  then have same: "same_tables (mem s) m l4" unfolding same_tables_def by blast
  let ?t = "s\<lparr>mem := m\<rparr>"
  have own: "m a = mem s a" if "map_byte s a" for a using m that by (auto simp: kernel_data_def)
  have put: "pf_alloc_inv ?t" "frame_in_use ?t = frame_in_use s" "map_byte ?t = map_byte s"
    using put_frame_pf [OF inv own] by simp_all
  have used: "frame_used ?t i = frame_used s i" if "i < frames s" for i
    using fun_cong [OF put(2), of i] that by (simp add: frame_in_use_def)
  have kd: "kernel_data ?t l4 a = kernel_data s l4 a" for a
    unfolding kernel_data_def put(3) using used table_at_same_tables [OF same] by auto
  then show "kernel_data ?t l4 a = kernel_data s l4 a" .
  have "walk m l4 va = walk (mem s) l4 va" for va by (rule walk_same_tables [OF same])
  moreover have "paging_tree ?t l4"
    unfolding paging_tree_def put(2,3) using put(1) table_tree_same_tables [OF same tree] by simp
  ultimately show "data_step l4 W s ?t" using m by (auto simp: data_step_def kd)
  show "free_run ?t k n" if run: "free_run s k n"
  proof -
    have lt: "j < n \<Longrightarrow> k + j < frames s" "i < k \<Longrightarrow> i < frames s" for i j
      using run unfolding free_run_def
      by (auto simp: word_less_nat_alt unat_word_ariths intro: le_less_trans [OF mod_less_eq_dividend])
    show ?thesis using run used lt by (auto simp: free_run_def)
  qed
qed

text \<open>A request for a block at the beginning of a run of free frames.\<close>

lemma free_run_bounds:
  assumes "free_run s k n"
  shows "j < n \<Longrightarrow> k + j < frames s" "j \<le> n \<Longrightarrow> unat (k + j) = unat k + unat j" "i < k \<Longrightarrow> i < frames s"
    "j \<le> n \<Longrightarrow> k \<le> k + j"
proof -
  have le: "unat k + unat n \<le> unat (frames s)" using assms by (simp add: free_run_def)
  then have lt: "unat k + unat n < 2 ^ 64" using le_less_trans [OF _ unat_u64_lt] by simp
  then show eq: "unat (k + j) = unat k + unat j" if "j \<le> n" for j
    using that lt by (intro unat_add_no_wrap) (simp add: word_le_nat_alt)
  show "k + j < frames s" if "j < n"
    using eq [of j] le that by (simp add: word_less_nat_alt word_le_nat_alt)
  show "i < frames s" if "i < k" using le that by (simp add: word_less_nat_alt)
  show "k \<le> k + j" if "j \<le> n" using eq [OF that] by (simp add: word_le_nat_alt)
qed

lemma block_at_run:
  assumes wf: "pf_wf s" "pf_idle s" and run: "free_run s k n" and n: "0 < n"
  shows "pageframe_request_pages n s = Some (k * 4096, (word_for k (k + n) lock_frame s)\<lparr>s_current_index := k + n\<rparr>)"
proof -
  have k: "s_current_index s \<le> k" "k < frames s" "block_free s k n"
    using run free_run_bounds(1) [OF run n] by (simp_all add: free_run_def block_free_def)
  have "unat n \<le> unat (frames s)" using run by (simp add: free_run_def)
  then have "n < 2 ^ 63" using pf_wf_frames(2) [OF wf(1)] by (simp add: word_less_nat_alt)
  from wf this show ?thesis
  proof (cases rule: pageframe_request_pages_cases)
    case (none i)
    then show ?thesis using k by blast
  next
    case (block i t)
    have "\<not> i < k"
    proof
      assume "i < k"
      then have "frame_used s i" using run block(2) by (simp add: free_run_def)
      moreover have "\<not> frame_used s (i + 0)" using block(4) n unfolding block_free_def by blast
      ultimately show False by simp
    qed
    moreover have "\<not> k < i" using block(5) [OF k(1)] k(3) by blast
    ultimately have "i = k" by simp
    then show ?thesis using block(1,6) by simp
  qed
qed

definition locked_run :: "u64 \<Rightarrow> u64 \<Rightarrow> 'a pf \<Rightarrow> 'a pf" where
  "locked_run k n s = (word_for k (k + n) lock_frame s)\<lparr>s_current_index := k + n\<rparr>"

lemma locked_run_simps [simp]:
  "s_pageframemap (locked_run k n s) = s_pageframemap s" "map_byte (locked_run k n s) = map_byte s"
  "s_mutex (locked_run k n s) = s_mutex s" "s_current_index (locked_run k n s) = k + n"
  "pageframe_state.more (locked_run k n s) = pageframe_state.more s"
  by (simp_all add: locked_run_def map_byte_def [abs_def] lock_body.map_loop lock_body.mutex_loop lock_body.more_loop)

lemma run_block:
  assumes "free_run s k n" and "k \<le> i" "i < k + n"
  shows "i < frames s" and "\<not> frame_used s i"
proof -
  have eq: "i = k + (i - k)" "i - k < n"
    using assms(2,3) free_run_bounds(2) [OF assms(1) order.refl]
    by (auto simp: word_less_nat_alt word_le_nat_alt unat_sub_if')
  then have "k + (i - k) < frames s" "\<not> frame_used s (k + (i - k))"
    using free_run_bounds(1) [OF assms(1)] assms(1) unfolding free_run_def by blast+
  then show "i < frames s" "\<not> frame_used s i" by simp_all
qed

lemma locked_run_used:
  assumes "free_run s k n"
  shows "frame_used (locked_run k n s) j = (k \<le> j \<and> j < k + n \<or> frame_used s j)"
  using lock_body.used_loop [OF free_run_bounds(4) [OF assms order.refl], of s j] run_block(1) [OF assms, of j]
  by (auto simp: locked_run_def intro: less_imp_le)

lemma locked_run_mem:
  assumes wf: "pf_wf s" and run: "free_run s k n" and a: "\<not> map_byte s a"
  shows "mem (locked_run k n s) a = mem s a"
proof -
  have "unat (bm_size (s_pageframemap s)) * 8 < 2 ^ 64"
    using pf_wf_frames(1) [OF wf] unat_u64_lt [of "frames s"] by simp
  then have "a \<noteq> byte_address (s_pageframemap s) i" if "k \<le> i" "i < k + n" for i
    using byte_address_in_buffer [of "s_pageframemap s" i] run_block(1) [OF run that] a by (auto simp: map_byte_def)
  then show ?thesis using lock_body.mem_loop_frame [of k "k + n" s a] by (simp add: locked_run_def)
qed

lemma locked_run_tables:
  assumes s: "paging_tree s l4" and run: "free_run s k n"
  shows "same_tables (mem s) (mem (locked_run k n s)) l4"
proof -
  from s have wf: "pf_wf s" and tree: "table_tree (frame_in_use s) (map_byte s) (mem s) l4"
    by (simp_all add: paging_tree_def pf_alloc_inv_def)
  have "entry_next (mem (locked_run k n s)) t j = entry_next (mem s) t j" if "table_at (mem s) l4 q t" "j < 512" for q t j
  proof -
    have "load64 (mem (locked_run k n s)) (slot t j) = load64 (mem s) (slot t j)"
      by (rule load64_slot_cong [OF table_tree_aligned [OF tree that(1)] that(2)])
        (use locked_run_mem [OF wf run] table_tree_used(2) [OF tree that(1)] in blast)
    then show ?thesis by (simp add: entry_next_def)
  qed
  then show ?thesis unfolding same_tables_def by blast
qed

text \<open>The frames of the block become data of the kernel; the tables and the former data stay.\<close>

lemma locked_run_step:
  assumes s: "paging_tree s l4" and run: "free_run s k n"
  shows "data_step l4 {} s (locked_run k n s)"
    and "k \<le> page_of a \<Longrightarrow> page_of a < k + n \<Longrightarrow> kernel_data (locked_run k n s) l4 a"
proof -
  let ?t = "locked_run k n s"
  from s have inv: "pf_alloc_inv s" and tree: "table_tree (frame_in_use s) (map_byte s) (mem s) l4"
    by (simp_all add: paging_tree_def)
  then have wf: "pf_wf s" by (simp add: pf_alloc_inv_def)
  note same = locked_run_tables [OF s run]
  note at = table_at_same_tables [OF same] and used = locked_run_used [OF run]
  have use: "frame_in_use ?t i \<longleftrightarrow> frame_in_use s i \<or> k \<le> i \<and> i < k + n" for i
    using run_block(1) [OF run] by (auto simp: frame_in_use_def used)
  have "table_tree (frame_in_use ?t) (map_byte ?t) (mem ?t) l4"
    using table_tree_same_tables [OF same tree] unfolding table_tree_def use locked_run_simps by blast
  moreover have "pf_alloc_inv ?t" using inv by (auto simp: pf_alloc_inv_def use pf_wf_def pf_idle_def)
  moreover have "kernel_data ?t l4 a" if "kernel_data s l4 a" for a
    using that unfolding kernel_data_def at used locked_run_simps by blast
  ultimately show "data_step l4 {} s ?t"
    using walk_same_tables [OF same] locked_run_mem [OF wf run] by (auto simp: data_step_def paging_tree_def kernel_data_def)
  show "kernel_data ?t l4 a" if a: "k \<le> page_of a" "page_of a < k + n"
  proof -
    have free: "\<not> frame_in_use s (page_of a)" using run_block(2) [OF run a] by (simp add: frame_in_use_def)
    then have "\<not> map_byte s a" using inv by (auto simp: pf_alloc_inv_def)
    moreover have "page_of t \<noteq> page_of a" if "table_at (mem s) l4 q t" for q t
      using table_tree_used(1) [OF tree that] free by auto
    ultimately show ?thesis using a by (auto simp: kernel_data_def at used)
  qed
qed

lemma locked_run_rest:
  assumes run: "free_run s k (n + r)" and nr: "unat (n + r) = unat n + unat r"
  shows "free_run (locked_run k n s) (k + n) r" and "free_run s k n"
proof -
  show run_n: "free_run s k n" using run nr by (auto simp: free_run_def word_less_nat_alt)
  have kn: "unat (k + n) = unat k + unat n" by (rule free_run_bounds(2) [OF run_n order.refl])
  have rest: "\<not> frame_used s (k + n + j) \<and> k + n \<le> k + n + j" if j: "j < r" for j
  proof -
    have "unat n + unat j < 2 ^ 64" using j nr unat_u64_lt [of "n + r"] by (simp add: word_less_nat_alt)
    then have eq: "unat (n + j) = unat n + unat j" by (rule unat_add_no_wrap)
    then have lt: "n + j < n + r" using j nr by (simp add: word_less_nat_alt)
    then have "k + n \<le> k + (n + j)"
      using free_run_bounds(2) [OF run less_imp_le [OF lt]] kn eq by (simp add: word_le_nat_alt)
    then show ?thesis using lt run by (simp add: free_run_def add.assoc)
  qed
  show "free_run (locked_run k n s) (k + n) r"
    using run nr kn rest unfolding free_run_def locked_run_used [OF run_n] by (auto simp: linorder_not_less [symmetric])
qed

lemma request_data:
  assumes s: "paging_tree s l4" and run: "free_run s k (n + r)" and n: "0 < n" and nr: "unat (n + r) = unat n + unat r"
  shows "\<exists>t. pageframe_request_pages n s = Some (k * 4096, t) \<and> data_step l4 {} s t \<and> free_run t (k + n) r
    \<and> (\<forall>a. k \<le> page_of a \<and> page_of a < k + n \<longrightarrow> kernel_data t l4 a)
    \<and> pageframe_state.more t = pageframe_state.more s"
proof -
  note run_n = locked_run_rest(2) [OF run nr]
  have "pf_wf s" "pf_idle s" using s by (simp_all add: paging_tree_def pf_alloc_inv_def)
  from block_at_run [OF this run_n n] have "pageframe_request_pages n s = Some (k * 4096, locked_run k n s)"
    by (simp add: locked_run_def)
  then show ?thesis
    using locked_run_step [OF s run_n] locked_run_rest(1) [OF run nr] by auto
qed

section \<open>The context\<close>

lemma store64_far: "8 \<le> b - x \<Longrightarrow> store64 m x v b = m b"
proof (rule store64_other)
  fix k :: nat assume "8 \<le> b - x" "k < 8"
  then show "b \<noteq> x + of_nat k" by (auto simp: word_le_nat_alt unat_of_nat)
qed

definition context_bytes :: "addr \<Rightarrow> addr set" where
  "context_bytes c = {a. in_region c sizeof_CPUContext a}"

lemma context_bytes_offset: "x < 68 \<Longrightarrow> c + x \<in> context_bytes c"
  by (simp add: context_bytes_def in_region_def sizeof_CPUContext_def)

lemma store64_context:
  assumes "x \<le> 60" and "store64 m (c + x) v a \<noteq> m a"
  shows "a \<in> context_bytes c"
proof (rule ccontr)
  assume "a \<notin> context_bytes c"
  then have "68 \<le> a - c" by (simp add: context_bytes_def in_region_def sizeof_CPUContext_def)
  then have "8 \<le> a - (c + x)"
    using assms(1) unat_u64_lt [of "a - c"]
    by (simp add: word_le_nat_alt diff_diff_eq [symmetric] unat_sub_if')
  then show False using store64_far assms(2) by blast
qed

lemma get_CPUContext_cong:
  assumes "\<And>a. a \<in> context_bytes c \<Longrightarrow> m a = m' a"
  shows "get_CPUContext m c = get_CPUContext m' c"
proof -
  have w: "load64 m (c + x) = load64 m' (c + x)" if "x \<le> 60" for x
  proof (rule load64_cong)
    fix k :: nat assume k: "k < 8"
    then have "x + of_nat k < 68" using that
      by (simp add: word_le_nat_alt word_less_nat_alt unat_word_ariths unat_of_nat)
    then show "m (c + x + of_nat k) = m' (c + x + of_nat k)"
      using assms [OF context_bytes_offset, of "x + of_nat k"] by (simp add: add.assoc)
  qed
  have b: "m (c + x) = m' (c + x)" if "x < 68" for x by (rule assms [OF context_bytes_offset [OF that]])
  show ?thesis using b [of 0] b [of 1] b [of 2] b [of 3]
    by (simp add: get_CPUContext_def w load_array_def upt_rec add.assoc)
qed

lemma get_CPUContext_store [simp]:
  "get_CPUContext (store64 m (c + 12) v) c = (get_CPUContext m c)\<lparr>c_gdt_block := v\<rparr>"
  "get_CPUContext (store64 m (c + 20) v) c = (get_CPUContext m c)\<lparr>c_idt_block := v\<rparr>"
  "get_CPUContext (store64 m (c + 28) v) c = (get_CPUContext m c)\<lparr>stack_kernel := v\<rparr>"
  "get_CPUContext (store64 m (c + 36) v) c = (get_CPUContext m c)\<lparr>stack_isr := v\<rparr>"
  "get_CPUContext (store64 m (c + 44) v) c = (get_CPUContext m c)\<lparr>stack_irq := v\<rparr>"
  "get_CPUContext (store64 m (c + 52) v) c = (get_CPUContext m c)\<lparr>stack_timer_begin := v\<rparr>"
  "get_CPUContext (store64 m (c + 60) v) c = (get_CPUContext m c)\<lparr>stack_timer := v\<rparr>"
  by (simp_all add: get_CPUContext_def load_array_def upt_rec load64_far store64_far)

text \<open>
  A stage of the start of a processor from state \<open>s\<close> with a run of \<open>n\<close> free frames at \<open>k0\<close>: the frames below
  \<open>k\<close> are taken, \<open>r\<close> are left, and the context has the value \<open>x\<close>.
\<close>

definition alloc_stage ::
  "addr \<Rightarrow> addr \<Rightarrow> 'a pf \<Rightarrow> u64 \<Rightarrow> u64 \<Rightarrow> u64 \<Rightarrow> u64 \<Rightarrow> CPUContext \<Rightarrow> 'a pf \<Rightarrow> bool" where
  "alloc_stage l4 c s k0 n k r x t \<longleftrightarrow> (\<forall>a \<in> context_bytes c. kernel_data s l4 a) \<and> free_run s k0 n
     \<and> data_step l4 (context_bytes c) s t \<and> free_run t k r \<and> unat k + unat r = unat k0 + unat n
     \<and> get_CPUContext (mem t) c = x \<and> pageframe_state.more t = pageframe_state.more s
     \<and> (\<forall>a. k0 \<le> page_of a \<and> page_of a < k \<longrightarrow> kernel_data t l4 a)"

lemma alloc_stage_start:
  assumes "paging_tree s l4" and "free_run s k n" and "\<forall>a \<in> context_bytes c. kernel_data s l4 a"
  shows "alloc_stage l4 c s k n k n (get_CPUContext (mem s) c) s"
  using assms by (auto simp: alloc_stage_def data_step_def)

lemma run_not_data:
  assumes "free_run s k n" and "kernel_data s l4 a" and "k \<le> page_of a"
  shows "unat k + unat n \<le> unat (page_of a)"
proof (rule ccontr)
  assume "\<not> ?thesis"
  then have "page_of a - k < n" using assms(3) by (simp add: word_less_nat_alt word_le_nat_alt unat_sub_if')
  then have "k + (page_of a - k) < frames s" "\<not> frame_used s (k + (page_of a - k))"
    using free_run_bounds(1) [OF assms(1)] assms(1) unfolding free_run_def by blast+
  then show False using assms(2) by (simp add: kernel_data_def)
qed

lemma alloc_stage_request:
  assumes t: "alloc_stage l4 c s k0 n k (m + r) x t" and "0 < m" and mr: "unat (m + r) = unat m + unat r"
  shows "\<exists>u. pageframe_request_pages m t = Some (k * 4096, u) \<and> alloc_stage l4 c s k0 n (k + m) r x u"
proof -
  from t have D: "data_step l4 (context_bytes c) s t" and run: "free_run t k (m + r)" by (simp_all add: alloc_stage_def)
  then have "paging_tree t l4" by (simp add: data_step_def)
  from request_data [OF this run assms(2,3)]
  obtain u where u: "pageframe_request_pages m t = Some (k * 4096, u)" "data_step l4 {} t u" "free_run u (k + m) r"
    "\<And>a. k \<le> page_of a \<Longrightarrow> page_of a < k + m \<Longrightarrow> kernel_data u l4 a"
    "pageframe_state.more u = pageframe_state.more t" by blast
  have km: "unat (k + m) = unat k + unat m"
    using free_run_bounds(2) [OF run, of m] mr by (simp add: word_le_nat_alt)
  have keep: "kernel_data t l4 a \<Longrightarrow> kernel_data u l4 a \<and> mem u a = mem t a" for a
    using u(2) by (simp add: data_step_def)
  have ctx: "a \<in> context_bytes c \<Longrightarrow> kernel_data t l4 a" for a
    using t by (auto simp: alloc_stage_def data_step_def)
  have "get_CPUContext (mem u) c = get_CPUContext (mem t) c"
    by (rule get_CPUContext_cong) (simp add: keep ctx)
  moreover have "data_step l4 (context_bytes c) s u" by (rule data_step_trans [OF D u(2)]) simp
  moreover have "kernel_data u l4 a" if "k0 \<le> page_of a" "page_of a < k + m" for a
    using that t keep u(4) by (cases "page_of a < k") (auto simp: alloc_stage_def)
  ultimately show ?thesis using t u km mr by (auto simp: alloc_stage_def)
qed

lemma alloc_stage_write:
  assumes t: "alloc_stage l4 c s k0 n k r x t"
    and m: "\<And>a. m a \<noteq> mem t a \<Longrightarrow> a \<in> context_bytes c \<or> k0 \<le> page_of a \<and> page_of a < k"
  shows "alloc_stage l4 c s k0 n k r (get_CPUContext m c) (t\<lparr>mem := m\<rparr>)"
proof -
  from t have D: "data_step l4 (context_bytes c) s t" and run: "free_run t k r" by (simp_all add: alloc_stage_def)
  have "paging_tree t l4" using D by (simp add: data_step_def)
  note W = write_data [OF this, of m "context_bytes c \<union> {a. k0 \<le> page_of a \<and> page_of a < k}"]
  have "m a \<noteq> mem t a \<Longrightarrow> kernel_data t l4 a \<and> a \<in> context_bytes c \<union> {a. k0 \<le> page_of a \<and> page_of a < k}" for a
    using m [of a] t by (auto simp: alloc_stage_def data_step_def)
  note W = W [OF this]
  have "data_step l4 (context_bytes c) s (t\<lparr>mem := m\<rparr>)"
  proof (rule data_step_trans [OF D W(1)])
    fix a assume a: "kernel_data s l4 a" "a \<in> context_bytes c \<union> {a. k0 \<le> page_of a \<and> page_of a < k}"
    show "a \<in> context_bytes c"
    proof (rule ccontr)
      assume "a \<notin> context_bytes c"
      with a t show False
        using run_not_data [of s k0 n l4 a] by (auto simp: alloc_stage_def word_less_nat_alt)
    qed
  qed
  then show ?thesis using t W(2,3) by (simp add: alloc_stage_def)
qed

lemma alloc_stage_store:
  assumes t: "alloc_stage l4 c s k0 n k r x t" and "y \<le> 60"
  shows "alloc_stage l4 c s k0 n k r (get_CPUContext (store64 (mem t) (c + y) v) c) (t\<lparr>mem := store64 (mem t) (c + y) v\<rparr>)"
  by (rule alloc_stage_write [OF t]) (use store64_context [OF assms(2)] in blast)

lemma alloc_stage_block:
  assumes t: "alloc_stage l4 c s k0 n k r x t"
    and m: "\<And>a. m a \<noteq> mem t a \<Longrightarrow> k0 \<le> page_of a \<and> page_of a < k"
  shows "alloc_stage l4 c s k0 n k r x (t\<lparr>mem := m\<rparr>)"
proof -
  have "m a = mem t a" if "a \<in> context_bytes c" for a
  proof (rule ccontr)
    assume "m a \<noteq> mem t a"
    then have "k0 \<le> page_of a" "page_of a < k" using m by blast+
    then show False using t that run_not_data [of s k0 n l4 a] by (auto simp: alloc_stage_def word_less_nat_alt)
  qed
  then have "get_CPUContext m c = x" using get_CPUContext_cong [of c m "mem t"] t by (simp add: alloc_stage_def)
  then show ?thesis using alloc_stage_write [OF t, of m] m by blast
qed

text \<open>The context with the addresses of the block and the stacks in the frames from \<open>k\<close> on.\<close>

definition allocated_context :: "addr \<Rightarrow> u64 \<Rightarrow> CPUContext \<Rightarrow> CPUContext" where
  "allocated_context shared_idt k x = x\<lparr>c_gdt_block := k * 4096, c_idt_block := shared_idt, stack_isr := (k + 2) * 4096,
     stack_irq := (k + 4) * 4096, stack_timer_begin := (k + 4) * 4096, stack_timer := (k + 5) * 4096 - 32\<rparr>"

lemma run_page:
  assumes "free_run s k n" and "pf_wf s" and "j < n"
  shows "page_aligned ((k + j) * 4096)" and "page_of ((k + j) * 4096) = k + j"
proof -
  have "k + j < 2 ^ 52"
    using order.strict_trans [OF free_run_bounds(1) [OF assms(1,3)] pf_wf_frames(2) [OF assms(2)]] .
  from frame_page(1,2) [OF this] show "page_aligned ((k + j) * 4096)" "page_of ((k + j) * 4096) = k + j"
    by (simp_all add: page_aligned_unat page_of_div)
qed

lemma alloc_stage_fields:
  assumes t: "alloc_stage l4 c s k0 n k r x t"
  shows "alloc_stage l4 c s k0 n k r (x\<lparr>c_gdt_block := v\<rparr>) (t\<lparr>mem := store64 (mem t) (c + 12) v\<rparr>)"
    and "alloc_stage l4 c s k0 n k r (x\<lparr>c_idt_block := v\<rparr>) (t\<lparr>mem := store64 (mem t) (c + 20) v\<rparr>)"
    and "alloc_stage l4 c s k0 n k r (x\<lparr>stack_isr := v\<rparr>) (t\<lparr>mem := store64 (mem t) (c + 36) v\<rparr>)"
    and "alloc_stage l4 c s k0 n k r (x\<lparr>stack_irq := v\<rparr>) (t\<lparr>mem := store64 (mem t) (c + 44) v\<rparr>)"
    and "alloc_stage l4 c s k0 n k r (x\<lparr>stack_timer_begin := v\<rparr>) (t\<lparr>mem := store64 (mem t) (c + 52) v\<rparr>)"
    and "alloc_stage l4 c s k0 n k r (x\<lparr>stack_timer := v\<rparr>) (t\<lparr>mem := store64 (mem t) (c + 60) v\<rparr>)"
    and "load64 (mem t) (c + 60) = stack_timer x"
proof -
  have x: "get_CPUContext (mem t) c = x" using t by (simp add: alloc_stage_def)
  show "alloc_stage l4 c s k0 n k r (x\<lparr>c_gdt_block := v\<rparr>) (t\<lparr>mem := store64 (mem t) (c + 12) v\<rparr>)"
    "alloc_stage l4 c s k0 n k r (x\<lparr>c_idt_block := v\<rparr>) (t\<lparr>mem := store64 (mem t) (c + 20) v\<rparr>)"
    "alloc_stage l4 c s k0 n k r (x\<lparr>stack_isr := v\<rparr>) (t\<lparr>mem := store64 (mem t) (c + 36) v\<rparr>)"
    "alloc_stage l4 c s k0 n k r (x\<lparr>stack_irq := v\<rparr>) (t\<lparr>mem := store64 (mem t) (c + 44) v\<rparr>)"
    "alloc_stage l4 c s k0 n k r (x\<lparr>stack_timer_begin := v\<rparr>) (t\<lparr>mem := store64 (mem t) (c + 52) v\<rparr>)"
    "alloc_stage l4 c s k0 n k r (x\<lparr>stack_timer := v\<rparr>) (t\<lparr>mem := store64 (mem t) (c + 60) v\<rparr>)"
    using alloc_stage_store [OF t, of 12 v] alloc_stage_store [OF t, of 20 v] alloc_stage_store [OF t, of 36 v]
      alloc_stage_store [OF t, of 44 v] alloc_stage_store [OF t, of 52 v] alloc_stage_store [OF t, of 60 v]
    by (simp_all add: x)
  show "load64 (mem t) (c + 60) = stack_timer x" using x by (auto simp: get_CPUContext_def)
qed

lemma alloc_stage_stack:
  assumes t: "alloc_stage l4 c s k0 n k (m + r) x t" and m: "0 < m" and mr: "unat (m + r) = unat m + unat r"
    and "clear \<Longrightarrow> m = 1 \<and> k0 \<le> k"
  shows "\<exists>u. cpu_allocate_stack m clear t = Some ((k + m) * 4096, u) \<and> alloc_stage l4 c s k0 n (k + m) r x u"
proof -
  obtain u where u: "pageframe_request_pages m t = Some (k * 4096, u)" "alloc_stage l4 c s k0 n (k + m) r x u"
    using alloc_stage_request [OF t m mr] by blast
  show ?thesis
  proof (cases clear)
    case True
    have run: "free_run t k (m + r)" and tree: "paging_tree t l4" using t by (simp_all add: alloc_stage_def data_step_def)
    then have wf: "pf_wf t" by (simp add: paging_tree_def pf_alloc_inv_def)
    have "0 < m + r" using m mr by (simp add: word_less_nat_alt)
    from run_page [OF run wf this] have k: "page_aligned (k * 4096)" "page_of (k * 4096) = k" by simp_all
    have "k < k + 1" using free_run_bounds(2) [OF run, of 1] mr True assms(4) by (simp add: word_le_nat_alt word_less_nat_alt)
    then have "alloc_stage l4 c s k0 n (k + m) r x (u\<lparr>mem := memset (mem u) (k * 4096) 0 4096\<rparr>)"
      using True assms(4) k by (intro alloc_stage_block [OF u(2)]) (auto split: if_splits)
    then show ?thesis using u(1) True assms(4)
      by (auto simp: cpu_allocate_stack_def MEMORY_PAGE_SIZE_def algebra_simps)
  next
    case False
    then show ?thesis using u by (simp add: cpu_allocate_stack_def MEMORY_PAGE_SIZE_def algebra_simps)
  qed
qed

lemma cpu_allocate_stage:
  assumes s: "paging_tree s l4" and run: "free_run s k 5" and c: "\<forall>a \<in> context_bytes c. kernel_data s l4 a"
  shows "\<exists>t. cpu_allocate shared_idt c s = Some t
    \<and> alloc_stage l4 c s k 5 (k + 5) 0 (allocated_context shared_idt k (get_CPUContext (mem s) c)) t"
proof -
  have page: "NEAREST_PAGE sizeof_GDTBlock = 1" by code_simp
  let ?x = "get_CPUContext (mem s) c"
  let ?st = "\<lambda>y v t. t\<lparr>mem := store64 (mem t) (c + y) v\<rparr>"
  have k: "k \<le> k + 4" using free_run_bounds(4) [OF run, of 4] by simp
  note S0 = alloc_stage_start [OF s run c]
  obtain s1 where s1: "pageframe_request_pages 1 s = Some (k * 4096, s1)" "alloc_stage l4 c s k 5 (k + 1) 4 ?x s1"
    using alloc_stage_request [of l4 c s k 5 k 1 4] S0 by auto
  note S1 = alloc_stage_fields(2) [OF alloc_stage_fields(1) [OF s1(2), of "k * 4096"], of shared_idt]
  obtain s2 where s2: "cpu_allocate_stack 1 False (?st 20 shared_idt (?st 12 (k * 4096) s1)) = Some ((k + 2) * 4096, s2)"
    "alloc_stage l4 c s k 5 (k + 2) 3 (?x\<lparr>c_gdt_block := k * 4096, c_idt_block := shared_idt\<rparr>) s2"
    using alloc_stage_stack [of l4 c s k 5 "k + 1" 1 3, where clear = False] S1 by (auto simp: add.assoc)
  note S2 = alloc_stage_fields(3) [OF s2(2), of "(k + 2) * 4096"]
  obtain s3 where s3: "cpu_allocate_stack 2 False (?st 36 ((k + 2) * 4096) s2) = Some ((k + 4) * 4096, s3)"
    "alloc_stage l4 c s k 5 (k + 4) 1 (?x\<lparr>c_gdt_block := k * 4096, c_idt_block := shared_idt, stack_isr := (k + 2) * 4096\<rparr>) s3"
    using alloc_stage_stack [of l4 c s k 5 "k + 2" 2 1, where clear = False] S2 by (auto simp: add.assoc)
  note S3 = alloc_stage_fields(4) [OF s3(2), of "(k + 4) * 4096"]
  obtain s4 where s4: "cpu_allocate_stack 1 True (?st 44 ((k + 4) * 4096) s3) = Some ((k + 5) * 4096, s4)"
    "alloc_stage l4 c s k 5 (k + 5) 0 (?x\<lparr>c_gdt_block := k * 4096, c_idt_block := shared_idt, stack_isr := (k + 2) * 4096,
       stack_irq := (k + 4) * 4096\<rparr>) s4"
    using alloc_stage_stack [of l4 c s k 5 "k + 4" 1 0, where clear = True] S3 k by (auto simp: add.assoc)
  note S4 = alloc_stage_fields(6) [OF s4(2), of "(k + 5) * 4096"]
  note S5 = alloc_stage_fields(5) [OF S4, of "(k + 4) * 4096"]
  note S6 = alloc_stage_fields(6) [OF S5, of "(k + 5) * 4096 - 32"]
  have "cpu_allocate shared_idt c s = Some (?st 60 ((k + 5) * 4096 - 32) (?st 52 ((k + 4) * 4096) (?st 60 ((k + 5) * 4096) s4)))"
    using s1(1) s2(1) s3(1) s4(1) alloc_stage_fields(7) [OF S4] alloc_stage_fields(7) [OF S5]
    by (simp add: cpu_allocate_def page CPU_STACK_PAGES_ISR_def CPU_STACK_PAGES_IRQ_def CPU_STACK_PAGES_TIMER_def
        MEMORY_PAGE_SIZE_def sizeof_TimerStackTop_def algebra_simps)
  moreover have "alloc_stage l4 c s k 5 (k + 5) 0 (allocated_context shared_idt k ?x)
      (?st 60 ((k + 5) * 4096 - 32) (?st 52 ((k + 4) * 4096) (?st 60 ((k + 5) * 4096) s4)))"
    using S6 by (simp add: allocated_context_def)
  ultimately show ?thesis by blast
qed

section \<open>The block of the global descriptor table\<close>

abbreviation halves :: "addr \<Rightarrow> u32 list" where
  "halves v \<equiv> [ucast v, ucast (drop_bit 32 v)]"

definition cpu_block :: "addr \<Rightarrow> CPUContext \<Rightarrow> GDTBlock" where
  "cpu_block a x = \<lparr>gdt_descriptor = \<lparr>gdt_size = 63, gdt_offset = a + 10\<rparr>, gdt = gdt_table (a + 74),
     tss = [zero_tss\<lparr>tss_rsp := halves (stack_kernel x) @ replicate 4 0,
       tss_ist := halves (stack_isr x) @ halves (stack_irq x) @ halves (stack_timer x) @ replicate 8 0,
       io_map_base := 0xffff\<rparr>]\<rparr>"

lemma replicate_numerals:
  "replicate 2 x = [x, x]" "replicate 4 x = [x, x, x, x]" "replicate 6 x = [x, x, x, x, x, x]"
  "replicate 8 x = [x, x, x, x, x, x, x, x]" "replicate 14 x = [x, x, x, x, x, x, x, x, x, x, x, x, x, x]"
  by (simp_all add: numeral_nat)

lemma cpu_block_steps:
  "do { b \<leftarrow> gdt_init (a + 10) (a + 10 + of_nat GDT_NUM * sizeof_GDTEntry) zero_gdt_block;
     b \<leftarrow> gdt_set_tss_ring 0 (stack_kernel x) b;
     b \<leftarrow> gdt_set_tss_ist (ucast IDT_IST_ISR) (stack_isr x) b;
     b \<leftarrow> gdt_set_tss_ist (ucast IDT_IST_IRQ) (stack_irq x) b;
     b \<leftarrow> gdt_set_tss_ist (ucast IDT_IST_TIMER) (stack_timer x) b;
     f b } = f (cpu_block a x)"
  by (simp add: gdt_init_table gdt_set_tss_ring_def gdt_set_tss_ist_def set_pair_def zero_tss_def cpu_block_def
      zero_gdt_block_def IDT_IST_ISR_def IDT_IST_IRQ_def IDT_IST_TIMER_def GDT_NUM_def sizeof_GDTEntry_def
      replicate_numerals add.commute [of 74])

lemma word_bytes_halves:
  "word_bytes 4 (ucast v :: u32) @ word_bytes 4 (ucast (drop_bit 32 v) :: u32) = word_bytes 8 (v :: u64)"
proof (rule nth_equalityI)
  fix i assume "i < length (word_bytes 4 (ucast v :: u32) @ word_bytes 4 (ucast (drop_bit 32 v) :: u32))"
  then have i: "i < 8" by simp
  show "(word_bytes 4 (ucast v :: u32) @ word_bytes 4 (ucast (drop_bit 32 v) :: u32)) ! i = word_bytes 8 v ! i"
  proof (cases "i < 4")
    case True
    then show ?thesis using i by (intro bit_word_eqI) (auto simp: word_bytes_def nth_append bit_simps)
  next
    case False
    then obtain j where "i = 4 + j" by (metis le_Suc_ex not_less)
    then show ?thesis using i
      by (intro bit_word_eqI) (auto simp: word_bytes_def nth_append bit_simps algebra_simps)
  qed
qed simp

lemma length_gdt_entry_bytes [simp]: "length (gdt_entry_bytes e) = 8"
  by (simp add: gdt_entry_bytes_def)

text \<open>The bytes of the block: the descriptor, the table, and the words of the task state segment.\<close>

lemma put_cpu_block:
  "put_GDTBlock m a (cpu_block a x) = store_list m a (word_bytes 2 (63 :: u16) @ word_bytes 8 (a + 10)
     @ concat (map gdt_entry_bytes (gdt_table (a + 74))) @ word_bytes 4 (0 :: u32) @ word_bytes 8 (stack_kernel x)
     @ concat (replicate 6 (word_bytes 4 (0 :: u32)))
     @ word_bytes 8 (stack_isr x) @ word_bytes 8 (stack_irq x) @ word_bytes 8 (stack_timer x)
     @ concat (replicate 10 (word_bytes 4 (0 :: u32))) @ word_bytes 2 (0 :: u16) @ word_bytes 2 (0xffff :: u16))"
proof -
  have ten: "replicate 10 y = replicate 8 y @ replicate 2 y" for y :: "u8 list" by (simp flip: replicate_add)
  show ?thesis
    by (simp add: put_GDTBlock_def cpu_block_def tss_entry_bytes_def zero_tss_def replicate_numerals ten
        word_bytes_halves [symmetric])
qed

lemma length_gdt_table: "length (concat (map gdt_entry_bytes (gdt_table t))) = 64"
  by (simp add: gdt_table_def Let_def length_concat)

lemma cpu_block_loads:
  shows "load16 (put_GDTBlock m a (cpu_block a x)) a = 63"
    and "load64 (put_GDTBlock m a (cpu_block a x)) (a + 2) = a + 10"
    and "load64 (put_GDTBlock m a (cpu_block a x)) (a + 78) = stack_kernel x"
    and "load64 (put_GDTBlock m a (cpu_block a x)) (a + 110) = stack_isr x"
    and "load64 (put_GDTBlock m a (cpu_block a x)) (a + 118) = stack_irq x"
    and "load64 (put_GDTBlock m a (cpu_block a x)) (a + 126) = stack_timer x"
    and "load_array 64 (put_GDTBlock m a (cpu_block a x)) (a + 10) = concat (map gdt_entry_bytes (gdt_table (a + 74)))"
    and "put_GDTBlock m a (cpu_block a x) b \<noteq> m b \<Longrightarrow> b - a < 178"
proof -
  let ?T = "concat (map gdt_entry_bytes (gdt_table (a + 74)))" and ?z = "word_bytes 4 (0 :: u32)"
  let ?z6 = "concat (replicate 6 ?z)" and ?z10 = "concat (replicate 10 ?z)"
  let ?h = "word_bytes 2 (63 :: u16) @ word_bytes 8 (a + 10)"
  let ?bs = "?h @ ?T @ ?z @ word_bytes 8 (stack_kernel x) @ ?z6 @ word_bytes 8 (stack_isr x)
     @ word_bytes 8 (stack_irq x) @ word_bytes 8 (stack_timer x) @ ?z10 @ word_bytes 2 (0 :: u16) @ word_bytes 2 (0xffff :: u16)"
  have eq: "put_GDTBlock m a (cpu_block a x) = store_list m a ?bs" by (simp add: put_cpu_block)
  have z: "length ?z6 = 24" "length ?z10 = 40" by (simp_all add: length_concat sum_list_replicate)
  note len = z length_gdt_table
  have L: "length ?bs = 178" by (simp add: len)
  have w: "load64 (store_list m a ?bs) (a + d) = v" if "?bs = xs @ word_bytes 8 v @ ys" "d = of_nat (length xs)" for xs v ys d
    using load_bytes_store_list [OF that(1) _ that(2)] L by (simp add: load64_def take_bit_word_eq_self)
  show "load16 (put_GDTBlock m a (cpu_block a x)) a = 63"
    using load_bytes_store_list [of ?bs "[]" 2 "63 :: u16", where d = 0] L
    by (simp add: eq load16_def)
  show "load64 (put_GDTBlock m a (cpu_block a x)) (a + 2) = a + 10"
    unfolding eq by (rule w [of "word_bytes 2 (63 :: u16)"]) simp_all
  show "load64 (put_GDTBlock m a (cpu_block a x)) (a + 78) = stack_kernel x"
    unfolding eq by (rule w [of "?h @ ?T @ ?z"]) (simp_all add: len)
  show "load64 (put_GDTBlock m a (cpu_block a x)) (a + 110) = stack_isr x"
    unfolding eq by (rule w [of "?h @ ?T @ ?z @ word_bytes 8 (stack_kernel x) @ ?z6"]) (simp_all add: len)
  show "load64 (put_GDTBlock m a (cpu_block a x)) (a + 118) = stack_irq x"
    unfolding eq by (rule w [of "?h @ ?T @ ?z @ word_bytes 8 (stack_kernel x) @ ?z6 @ word_bytes 8 (stack_isr x)"])
      (simp_all add: len)
  show "load64 (put_GDTBlock m a (cpu_block a x)) (a + 126) = stack_timer x"
    unfolding eq by (rule w [of "?h @ ?T @ ?z @ word_bytes 8 (stack_kernel x) @ ?z6 @ word_bytes 8 (stack_isr x)
        @ word_bytes 8 (stack_irq x)"]) (simp_all add: len)
  show "load_array 64 (put_GDTBlock m a (cpu_block a x)) (a + 10) = ?T"
  proof (rule nth_equalityI)
    fix i assume "i < length (load_array 64 (put_GDTBlock m a (cpu_block a x)) (a + 10))"
    then have i: "i < 64" by (simp add: load_array_def)
    have "store_list m a ?bs (a + of_nat (10 + i)) = ?bs ! (10 + i)" using i L by (intro store_list_nth) simp_all
    also have "\<dots> = ?T ! i" using i by (simp add: nth_append len)
    finally show "load_array 64 (put_GDTBlock m a (cpu_block a x)) (a + 10) ! i = ?T ! i"
      using i by (simp add: eq load_array_def add.assoc)
  qed (simp add: load_array_def len)
  show "b - a < 178" if "put_GDTBlock m a (cpu_block a x) b \<noteq> m b"
    using that L by (auto simp: eq store_list_def word_less_nat_alt split: if_splits)
qed

section \<open>The cache policy\<close>

text \<open>Setting the cache policy of mapped pages writes to the tables only.\<close>

lemma set_cache_page_data:
  assumes s: "paging_tree s l4" and va: "walk (mem s) l4 va \<noteq> None"
  shows "data_step l4 {} s (s\<lparr>mem := set_cache_page l4 va mode (mem s)\<rparr>)"
proof -
  let ?t = "s\<lparr>mem := set_cache_page l4 va mode (mem s)\<rparr>"
  note step = set_cache_page_step [OF s va refl, where mode = mode]
  obtain t1 where t1: "descend (mem s) l4 (take 3 (path_of va)) = Some t1" using walk_level1 [OF va] by blast
  from s have inv: "pf_alloc_inv s" and tree: "table_tree (frame_in_use s) (map_byte s) (mem s) l4"
    by (simp_all add: paging_tree_def)
  have "table_tree (frame_in_use s) (kernel_data s l4) (mem s) l4"
    using tree unfolding table_tree_def kernel_data_def by metis
  note data = set_cache_page_changed(2) [OF this t1]
  have "pf_alloc_inv ?t \<and> frame_in_use ?t = frame_in_use s \<and> frames_left ?t = frames_left s \<and> map_byte ?t = map_byte s"
    by (rule put_frame_pf [OF inv]) (rule set_cache_page_changed(2) [OF tree t1])
  then have use: "frame_in_use ?t = frame_in_use s" "map_byte ?t = map_byte s" by simp_all
  have used: "frame_used ?t i = frame_used s i" if "i < frames s" for i
    using fun_cong [OF use(1), of i] that by (simp add: frame_in_use_def)
  have "table_at (mem ?t) l4 p u = table_at (mem s) l4 p u" for p u
    using step(2) [of p] by (auto simp: table_at_def)
  then have "kernel_data ?t l4 a = kernel_data s l4 a" for a
    unfolding kernel_data_def use(2) using used by auto
  moreover have "walk (mem ?t) l4 va' = walk (mem s) l4 va'" for va'
    using step(2) [of "path_of va'"] by (simp add: walk_def)
  ultimately show ?thesis using step(1) data by (simp add: data_step_def)
qed

lemma set_cache_data:
  assumes s: "paging_tree s (s_pagetable_l4 s)"
    and mapped: "\<forall>i < n. walk (mem s) (s_pagetable_l4 s) (va + i * 4096) \<noteq> None"
  shows "data_step (s_pagetable_l4 s) {} s (paging_set_cache va n mode s)"
    and "pageframe_state.more (paging_set_cache va n mode s) = pageframe_state.more s"
proof -
  let ?l4 = "s_pagetable_l4 s"
  have "data_step ?l4 {} s (paging_set_cache va n mode s)
      \<and> pageframe_state.more (paging_set_cache va n mode s) = pageframe_state.more s"
    unfolding paging_set_cache_def MEMORY_PAGE_SIZE_def
  proof (rule word_for_rule [where P = "\<lambda>j t. data_step ?l4 {} s t \<and> pageframe_state.more t = pageframe_state.more s"])
    show "data_step ?l4 {} s s \<and> pageframe_state.more s = pageframe_state.more s" using s by (simp add: data_step_def)
    fix j t assume j: "j < n" and P: "data_step ?l4 {} s t \<and> pageframe_state.more t = pageframe_state.more s"
    then have "paging_tree t ?l4" "walk (mem t) ?l4 (va + j * 4096) \<noteq> None" using mapped by (auto simp: data_step_def)
    from set_cache_page_data [OF this, of mode] P
    show "data_step ?l4 {} s (t\<lparr>mem := set_cache_page ?l4 (va + j * 4096) mode (mem t)\<rparr>)
        \<and> pageframe_state.more (t\<lparr>mem := set_cache_page ?l4 (va + j * 4096) mode (mem t)\<rparr>) = pageframe_state.more s"
      using data_step_trans [of ?l4 "{}" s t "{}"] by simp
  qed simp
  then show "data_step ?l4 {} s (paging_set_cache va n mode s)"
    "pageframe_state.more (paging_set_cache va n mode s) = pageframe_state.more s" by simp_all
qed

lemma load64_data:
  assumes "data_step l4 {} s t" and "\<And>j. j < 8 \<Longrightarrow> kernel_data s l4 (a + of_nat j)"
  shows "load64 (mem t) a = load64 (mem s) a"
  by (rule load64_cong) (use assms in \<open>simp add: data_step_def\<close>)

section \<open>The start of a processor\<close>

lemma page_write:
  assumes "page_aligned t" and "d \<le> 4088" and "store64 m (t + d) v b \<noteq> m b"
  shows "page_of b = page_of t"
proof -
  have lt: "b - (t + d) < 8" using store64_far [of b "t + d"] assms(3) by force
  define e where "e = b - (t + d)"
  have "d + e < 4096" using lt assms(2) by (simp add: word_less_nat_alt word_le_nat_alt unat_word_ariths e_def [symmetric])
  from page_of_add [OF assms(1) this] show ?thesis by (simp add: e_def)
qed

text \<open>The state before the cache policy is set: the context, the stack of the timer and the block are written.\<close>

lemma cpu_tables_stage:
  fixes s :: "'a pg"
  assumes s: "paging_tree s l4" and run: "free_run s k 5" and c: "\<forall>a \<in> context_bytes c. kernel_data s l4 a"
    and x: "x = allocated_context shared_idt k (get_CPUContext (mem s) c)"
  shows "\<exists>t. cpu_allocate shared_idt c s = Some t \<and> get_CPUContext (mem t) c = x \<and> s_pagetable_l4 t = s_pagetable_l4 s
    \<and> (\<forall>a. kernel_data s l4 a \<and> a \<notin> context_bytes c \<longrightarrow> mem t a = mem s a)
    \<and> alloc_stage l4 c s k 5 (k + 5) 0 x (t\<lparr>mem := store64 (mem t) (stack_timer x + 8) v\<rparr>)
    \<and> alloc_stage l4 c s k 5 (k + 5) 0 x
        (t\<lparr>mem := put_GDTBlock (store64 (mem t) (stack_timer x + 8) v) (k * 4096) (cpu_block (k * 4096) x)\<rparr>)
    \<and> load64 (put_GDTBlock (store64 (mem t) (stack_timer x + 8) v) (k * 4096) (cpu_block (k * 4096) x))
        (stack_timer x + 8) = v"
proof -
  obtain t where t: "cpu_allocate shared_idt c s = Some t" "alloc_stage l4 c s k 5 (k + 5) 0 x t"
    using cpu_allocate_stage [OF s run c] x by blast
  have D: "data_step l4 (context_bytes c) s t" and "pageframe_state.more t = pageframe_state.more s"
    and ctx: "get_CPUContext (mem t) c = x" using t(2) by (simp_all add: alloc_stage_def)
  have l4: "s_pagetable_l4 t = s_pagetable_l4 s" by (rule paging_l4_more) fact
  have wf: "pf_wf s" using s by (simp add: paging_tree_def pf_alloc_inv_def)
  from run_page [OF run wf, of 4] have p4: "page_aligned ((k + 4) * 4096)" "page_of ((k + 4) * 4096) = k + 4" by simp_all
  from run_page [OF run wf, of 0] have p0: "page_aligned (k * 4096)" "page_of (k * 4096) = k" by simp_all
  have u: "unat (k + j) = unat k + unat j" if "j \<le> 5" for j using free_run_bounds(2) [OF run that] .
  have top: "stack_timer x + 8 = (k + 4) * 4096 + 4072" by (simp add: x allocated_context_def algebra_simps)
  let ?m = "store64 (mem t) (stack_timer x + 8) v"
  have "k \<le> page_of a \<and> page_of a < k + 5" if "?m a \<noteq> mem t a" for a
    using page_write [OF p4(1) _ that [unfolded top]] p4(2) u [of 4] u [of 5]
    by (simp add: word_le_nat_alt word_less_nat_alt)
  from alloc_stage_block [OF t(2), of ?m] this
  have S1: "alloc_stage l4 c s k 5 (k + 5) 0 x (t\<lparr>mem := ?m\<rparr>)" by blast
  let ?n = "put_GDTBlock ?m (k * 4096) (cpu_block (k * 4096) x)"
  have blk: "page_of a = k" if "?n a \<noteq> ?m a" for a
  proof -
    have "a - k * 4096 < 178" using cpu_block_loads(8) that by blast
    then have "a - k * 4096 < 4096" by (rule order.strict_trans) simp
    from page_of_add [OF p0(1) this] show ?thesis using p0(2) by simp
  qed
  have "k \<le> page_of a \<and> page_of a < k + 5" if "?n a \<noteq> mem (t\<lparr>mem := ?m\<rparr>) a" for a
    using blk [of a] that u [of 5] by (simp add: word_less_nat_alt)
  from alloc_stage_block [OF S1, of ?n] this
  have S2: "alloc_stage l4 c s k 5 (k + 5) 0 x (t\<lparr>mem := ?n\<rparr>)" by simp
  have "?n (stack_timer x + 8 + of_nat j) = ?m (stack_timer x + 8 + of_nat j)" if "j < 8" for j
  proof -
    have "4072 + of_nat j < (4096 :: u64)" using that by (simp add: word_less_nat_alt unat_word_ariths unat_of_nat)
    from page_of_add [OF p4(1) this] have "page_of (stack_timer x + 8 + of_nat j) = k + 4"
      using p4(2) by (simp add: top add.assoc)
    then show ?thesis using blk u [of 4] by fastforce
  qed
  then have "load64 ?n (stack_timer x + 8) = v" using load64_cong [of ?n "stack_timer x + 8" ?m] by simp
  moreover have "\<forall>a. kernel_data s l4 a \<and> a \<notin> context_bytes c \<longrightarrow> mem t a = mem s a"
    using D by (simp add: data_step_def)
  ultimately show ?thesis using t(1) S1 S2 ctx l4 by (intro exI [of _ t] conjI)
qed

lemma shared_idt_update:
  "paging_tree (t\<lparr>s_shared_idt := i, s_idt_initialized := b\<rparr>) l4 = paging_tree t l4"
  "kernel_data (t\<lparr>s_shared_idt := i, s_idt_initialized := b\<rparr>) l4 a = kernel_data t l4 a"
  by (simp_all add: paging_tree_def kernel_data_def pf_alloc_inv_def frame_in_use_def [abs_def] map_byte_def [abs_def]
      frame_used_def pf_wf_def pf_idle_def)

abbreviation fb_bytes :: "Framebuffer \<Rightarrow> u64" where
  "fb_bytes fb \<equiv> signed (ucast (fb_pitch fb) * ucast (fb_height fb) :: u32)"

lemma cpu_cache_data:
  fixes u :: "'a pg"
  assumes u: "paging_tree u (s_pagetable_l4 u)" and c: "walk (mem u) (s_pagetable_l4 u) c \<noteq> None"
    and fb: "\<forall>i < NEAREST_PAGE (fb_bytes fb). walk (mem u) (s_pagetable_l4 u) (fb_base fb + i * 4096) \<noteq> None"
    and w: "w = paging_set_cache_size c sizeof_CPUContext PAGE_PAT_WRITE_COMBINE (paging_init_pat fb u)"
  shows "data_step (s_pagetable_l4 u) {} u w" and "pageframe_state.more w = pageframe_state.more u"
proof -
  let ?v = "paging_init_pat fb u"
  have n: "NEAREST_PAGE sizeof_CPUContext = 1" by code_simp
  note v = set_cache_data [OF u fb, of PAGE_PAT_UNCACHED]
  have v': "data_step (s_pagetable_l4 u) {} u ?v" "pageframe_state.more ?v = pageframe_state.more u"
    using v by (simp_all add: paging_init_pat_def paging_set_cache_size_def)
  have l4: "s_pagetable_l4 ?v = s_pagetable_l4 u" by (rule paging_l4_more) (rule v'(2))
  have w': "w = paging_set_cache c 1 PAGE_PAT_WRITE_COMBINE ?v" by (simp add: w paging_set_cache_size_def n)
  have tree: "paging_tree ?v (s_pagetable_l4 ?v)" using v'(1) by (simp add: l4 data_step_def)
  have "walk (mem ?v) (s_pagetable_l4 ?v) c \<noteq> None" using v'(1) c by (simp add: l4 data_step_def)
  then have "\<forall>i < 1. walk (mem ?v) (s_pagetable_l4 ?v) (c + i * 4096) \<noteq> None" by (simp add: less_one_u64)
  note W = set_cache_data [OF tree this, of PAGE_PAT_WRITE_COMBINE, folded w', unfolded l4]
  show "data_step (s_pagetable_l4 u) {} u w" using data_step_trans [OF v'(1) W(1)] by simp
  show "pageframe_state.more w = pageframe_state.more u" using W(2) v'(2) by simp
qed

lemma idt_initialized_same: "s_idt_initialized u \<Longrightarrow> u\<lparr>s_idt_initialized := True\<rparr> = u"
  by (cases u) simp

lemma cpu_init_steps:
  assumes t: "cpu_allocate shared_idt c s = Some t" "get_CPUContext (mem t) c = x"
    and x: "c_gdt_block x = a" "c_idt_block x = shared_idt"
    and m: "m = store64 (mem t) (stack_timer x + 8) (s_pagetable_l4 t)" "get_CPUContext m c = x"
    and i: "if s_idt_initialized t then s_shared_idt t = i else idt_init isr (shared_idt + 10) (s_shared_idt t) = Some i"
  shows "cpu_init isr fb shared_idt bsp c s = Some ((a, shared_idt, mem t c = mem t bsp),
      paging_set_cache_size c sizeof_CPUContext PAGE_PAT_WRITE_COMBINE (paging_init_pat fb
        (t\<lparr>mem := put_GDTBlock m a (cpu_block a x), s_shared_idt := i, s_idt_initialized := True\<rparr>)))"
proof -
  have id: "c_local_apic_id (get_CPUContext (mem t) b) = mem t b" for b by (simp add: get_CPUContext_def)
  have l4: "paging_get_pagetable_l4 t = s_pagetable_l4 t" by (simp add: paging_get_pagetable_l4_def)
  show ?thesis
    unfolding cpu_init_def t(1) bind.bind_lunit Let_def id l4
    using i m x by (auto simp: t(2) cpu_block_steps idt_initialized_same split: if_splits)
qed

lemma cpu_more:
  "pageframe_state.more t = pageframe_state.more s \<Longrightarrow> s_shared_idt t = s_shared_idt s \<and> s_idt_initialized t = s_idt_initialized s"
  by (cases t; cases s) simp

text \<open>The state \<open>u\<close> has the context and the tables, \<open>w\<close> in addition the cache policies.\<close>

lemma cpu_init_stage:
  assumes s: "paging_tree s (s_pagetable_l4 s)" and run: "free_run s k 5"
    and c: "\<forall>a \<in> context_bytes c. kernel_data s (s_pagetable_l4 s) a"
    and bsp: "kernel_data s (s_pagetable_l4 s) bsp" "bsp = c \<or> bsp \<notin> context_bytes c"
    and wc: "walk (mem s) (s_pagetable_l4 s) c \<noteq> None"
    and fb: "\<forall>i < NEAREST_PAGE (fb_bytes fb). walk (mem s) (s_pagetable_l4 s) (fb_base fb + i * 4096) \<noteq> None"
    and x: "x = allocated_context shared_idt k (get_CPUContext (mem s) c)"
  obtains u w m where "cpu_init isr fb shared_idt bsp c s = Some ((k * 4096, shared_idt, mem s c = mem s bsp), w)"
    and "alloc_stage (s_pagetable_l4 s) c s k 5 (k + 5) 0 x u" and "mem u = put_GDTBlock m (k * 4096) (cpu_block (k * 4096) x)"
    and "load64 (mem u) (stack_timer x + 8) = s_pagetable_l4 s" and "data_step (s_pagetable_l4 s) {} u w"
    and "s_idt_initialized w" and "if s_idt_initialized s then s_shared_idt w = s_shared_idt s
       else idt_init isr (shared_idt + 10) (s_shared_idt s) = Some (s_shared_idt w)"
proof -
  let ?l4 = "s_pagetable_l4 s"
  obtain t where t: "cpu_allocate shared_idt c s = Some t" "get_CPUContext (mem t) c = x" "s_pagetable_l4 t = ?l4"
    "\<forall>a. kernel_data s ?l4 a \<and> a \<notin> context_bytes c \<longrightarrow> mem t a = mem s a"
    and S1: "alloc_stage ?l4 c s k 5 (k + 5) 0 x (t\<lparr>mem := store64 (mem t) (stack_timer x + 8) ?l4\<rparr>)"
    and S2: "alloc_stage ?l4 c s k 5 (k + 5) 0 x
        (t\<lparr>mem := put_GDTBlock (store64 (mem t) (stack_timer x + 8) ?l4) (k * 4096) (cpu_block (k * 4096) x)\<rparr>)"
    and top: "load64 (put_GDTBlock (store64 (mem t) (stack_timer x + 8) ?l4) (k * 4096) (cpu_block (k * 4096) x))
        (stack_timer x + 8) = ?l4"
    using cpu_tables_stage [OF s run c x, of ?l4] by blast
  define m where "m = store64 (mem t) (stack_timer x + 8) ?l4"
  define u where "u = t\<lparr>mem := put_GDTBlock m (k * 4096) (cpu_block (k * 4096) x)\<rparr>"
  have S: "alloc_stage ?l4 c s k 5 (k + 5) 0 x u" using S2 by (simp add: u_def m_def)
  have tm: "s_idt_initialized t = s_idt_initialized s" "s_shared_idt t = s_shared_idt s"
    using S1 cpu_more [of t s] by (simp_all add: alloc_stage_def)
  obtain j where j: "idt_init isr (shared_idt + 10) (s_shared_idt t) = Some j"
    by (rule idt_init_result [of isr "shared_idt + 10" "s_shared_idt t"])
  define i where "i = (if s_idt_initialized t then s_shared_idt t else j)"
  have i: "if s_idt_initialized t then s_shared_idt t = i
      else idt_init isr (shared_idt + 10) (s_shared_idt t) = Some i" by (simp add: i_def j)
  define u' where "u' = u\<lparr>s_shared_idt := i, s_idt_initialized := True\<rparr>"
  define w where "w = paging_set_cache_size c sizeof_CPUContext PAGE_PAT_WRITE_COMBINE (paging_init_pat fb u')"
  have l4: "s_pagetable_l4 u' = ?l4" by (simp add: u'_def u_def t(3))
  have D: "data_step ?l4 (context_bytes c) s u" using S by (simp add: alloc_stage_def)
  then have walk: "walk (mem u') ?l4 va = walk (mem s) ?l4 va" for va by (simp add: data_step_def u'_def)
  have "paging_tree u' (s_pagetable_l4 u')" unfolding l4 unfolding u'_def shared_idt_update using D by (simp add: data_step_def)
  from cpu_cache_data [OF this _ _ w_def] wc fb
  have w: "data_step ?l4 {} u' w" "pageframe_state.more w = pageframe_state.more u'" by (simp_all add: l4 walk)
  have "data_step ?l4 {} u w" using w(1) unfolding data_step_def u'_def shared_idt_update by simp
  moreover have "mem t c = mem s c"
    using t(2) x by (auto simp: get_CPUContext_def allocated_context_def dest: arg_cong [where f = c_local_apic_id])
  then have "(mem t c = mem t bsp) = (mem s c = mem s bsp)" using t(4) bsp by auto
  moreover have "get_CPUContext m c = x" using S1 by (simp add: m_def alloc_stage_def)
  then have "cpu_init isr fb shared_idt bsp c s = Some ((k * 4096, shared_idt, mem t c = mem t bsp), w)"
    unfolding w_def u'_def u_def
    by (intro cpu_init_steps t(1,2) i) (simp_all add: x allocated_context_def m_def t(3))
  moreover have wi: "s_idt_initialized w" "s_shared_idt w = i" using cpu_more [OF w(2)] by (simp_all add: u'_def)
  then have "if s_idt_initialized s then s_shared_idt w = s_shared_idt s
      else idt_init isr (shared_idt + 10) (s_shared_idt s) = Some (s_shared_idt w)"
    using i unfolding tm wi(2) by (simp split: if_splits)
  ultimately show ?thesis using that [of w u m] S top wi(1) by (simp add: u_def m_def [symmetric])
qed

text \<open>What the five frames hold does not change when the cache policies are set.\<close>

lemma cpu_pages:
  assumes s: "paging_tree s l4" and run: "free_run s k 5" and u: "alloc_stage l4 c s k 5 (k + 5) 0 x u"
    and uw: "data_step l4 {} u w"
  shows "j < 5 \<Longrightarrow> d \<le> 4088 \<Longrightarrow> load64 (mem w) ((k + j) * 4096 + d) = load64 (mem u) ((k + j) * 4096 + d)"
    and "load16 (mem w) (k * 4096) = load16 (mem u) (k * 4096)"
    and "load_array 64 (mem w) (k * 4096 + 10) = load_array 64 (mem u) (k * 4096 + 10)"
    and "\<forall>i. k \<le> i \<and> i < k + 5 \<longrightarrow> \<not> frame_used s i \<and> frame_used w i"
proof -
  have wf: "pf_wf s" using s by (simp add: paging_tree_def pf_alloc_inv_def)
  note P = run_page [OF run wf]
  have in_run: "k \<le> k + j \<and> k + j < k + 5" if "j < 5" for j
    using free_run_bounds(2) [OF run, of j] free_run_bounds(2) [OF run, of 5] that
    by (simp add: word_le_nat_alt word_less_nat_alt)
  have data: "kernel_data u l4 ((k + j) * 4096 + d)" if "j < 5" "d < 4096" for j d
    using u page_of_add [OF P(1) [OF that(1)] that(2)] P(2) [OF that(1)] in_run [OF that(1)] by (simp add: alloc_stage_def)
  have same: "mem w ((k + j) * 4096 + d) = mem u ((k + j) * 4096 + d)" if "j < 5" "d < 4096" for j d
    using uw data [OF that] by (simp add: data_step_def)
  have small: "d + of_nat i < (4096 :: u64)" if "d \<le> 4088" "i < 8" for d i
    using that by (simp add: word_less_nat_alt word_le_nat_alt unat_word_ariths unat_of_nat)
  show "load64 (mem w) ((k + j) * 4096 + d) = load64 (mem u) ((k + j) * 4096 + d)" if "j < 5" "d \<le> 4088"
  proof (rule load64_data [OF uw])
    show "kernel_data u l4 ((k + j) * 4096 + d + of_nat i)" if "i < 8" for i
      using data [OF \<open>j < 5\<close> small [OF \<open>d \<le> 4088\<close> that]] by (simp add: add.assoc)
  qed
  show "load16 (mem w) (k * 4096) = load16 (mem u) (k * 4096)"
    using same [of 0 0] same [of 0 1] by (simp add: load16_eval)
  have "mem w (k * 4096 + (10 + of_nat i)) = mem u (k * 4096 + (10 + of_nat i))" if "i < 64" for i
    using same [of 0 "10 + of_nat i"] that by (simp add: word_less_nat_alt unat_word_ariths unat_of_nat)
  then show "load_array 64 (mem w) (k * 4096 + 10) = load_array 64 (mem u) (k * 4096 + 10)"
    by (simp add: load_array_def add.assoc)
  show "\<forall>i. k \<le> i \<and> i < k + 5 \<longrightarrow> \<not> frame_used s i \<and> frame_used w i"
  proof (intro allI impI)
    fix i assume i: "k \<le> i \<and> i < k + 5"
    define j where "j = i - k"
    have j: "i = k + j" "j < 5"
      using i free_run_bounds(2) [OF run, of 5] by (auto simp: j_def word_le_nat_alt word_less_nat_alt unat_sub_if')
    have "kernel_data w l4 ((k + j) * 4096)" using uw data [OF j(2), of 0] by (simp add: data_step_def)
    moreover have "frames w = frames s" using u uw by (simp add: alloc_stage_def data_step_def)
    ultimately have "frame_used w (k + j)"
      using P(2) [OF j(2)] free_run_bounds(1) [OF run j(2)] by (simp add: kernel_data_def)
    then show "\<not> frame_used s i \<and> frame_used w i" using run j by (simp add: free_run_def)
  qed
qed

end
