(* ===== verification/Cpu_Props.thy ===== *)
theory Cpu_Props
  imports Cpu_Correct
begin

text \<open>The property of the start of a processor, with its witness.\<close>

section \<open>A small state\<close>

text \<open>
  Sixteen frames: frame 1 holds the map, frames 2 to 5 the tables that map page 6 to itself, frame 6 a
  context; frames 7 to 15 are free.
\<close>

definition example_cpu_mem :: memory where
  "example_cpu_mem = store64 (store64 (store64 (store64 ((\<lambda>_. 0)(0x1000 := 0xFE)) (slot 0x5000 6) 0x6001)
     (slot 0x4000 0) 0x5001) (slot 0x3000 0) 0x4001) (slot 0x2000 0) 0x3001"

definition example_cpu :: cpu_state where
  "example_cpu = \<lparr>mem = example_cpu_mem, ports = [], s_memory_total_size = 0x10000, s_memory_used_size = 0,
     s_memory_reserved_size = 0, s_pageframemap = \<lparr>bm_buffer = 0x1000, bm_size = 2\<rparr>, s_current_index = 7, s_mutex = 0,
     s_pagetable_l4 = 0x2000, s_shared_idt = \<lparr>idt_descriptor = \<lparr>idt_limit = 0, idt_base = 0\<rparr>, idt = []\<rparr>,
     s_idt_initialized = False\<rparr>"

lemma example_map_byte: "map_byte example_cpu a \<longleftrightarrow> a = 0x1000 \<or> a = 0x1001"
proof -
  have "b < 2 \<longleftrightarrow> b = 0 \<or> b = 1" for b :: u64 by (auto simp: word_less_nat_alt word_unat_eq_iff)
  then show ?thesis by (auto simp: map_byte_def example_cpu_def in_region_def)
qed

lemma example_map_mem: "example_cpu_mem 0x1000 = 0xFE" "example_cpu_mem 0x1001 = 0"
  by (simp_all add: example_cpu_mem_def store64_far slot_def)

lemma example_frames: "frames example_cpu = 16"
  by (simp add: example_cpu_def bitmap_adjusted_size_def BITMAP_SCALE_def)

lemma example_used: "i < 16 \<Longrightarrow> frame_used example_cpu i \<longleftrightarrow> i < 7"
proof -
  assume "i < 16"
  then have "unat i < 16" by (simp add: word_less_nat_alt)
  then have "unat i \<in> {..<16}" by simp
  then have "of_nat (unat i) \<in> (of_nat ` {..<16} :: u64 set)" by (rule imageI)
  then have "i \<in> {0, 1, 2, 3, 4, 5, 6, 7, 8, 9, 10, 11, 12, 13, 14, 15}" by (simp add: lessThan_nat_numeral lessThan_Suc) blast
  then show ?thesis
    by (elim insertE emptyE) (simp_all add: frame_used_def bitmap_get_bit example_cpu_def bitmap_adjusted_size_def
      byte_address_def BITMAP_SCALE_def example_map_mem)
qed

lemma example_entries:
  assumes "i < 512"
  shows "load64 example_cpu_mem (slot 0x2000 i) = (if i = 0 then 0x3001 else 0)"
    and "load64 example_cpu_mem (slot 0x3000 i) = (if i = 0 then 0x4001 else 0)"
    and "load64 example_cpu_mem (slot 0x4000 i) = (if i = 0 then 0x5001 else 0)"
    and "load64 example_cpu_mem (slot 0x5000 i) = (if i = 6 then 0x6001 else 0)"
proof -
  have zero: "load64 ((\<lambda>_. 0)(0x1000 := 0xFE)) (slot t i) = 0" if "page_aligned t" "page_of t \<noteq> 1" for t
  proof (rule load64_zero)
    fix k :: nat assume "k < 8"
    have "page_of 0x1000 = 1" by (simp add: page_of_def)
    then have "slot t i + of_nat k \<noteq> 0x1000" using slot_byte_page [OF that(1) assms \<open>k < 8\<close>] that(2) by metis
    then show "((\<lambda>_. 0)(0x1000 := 0xFE)) (slot t i + of_nat k) = (0 :: u8)" by simp
  qed
  note other = load64_store64_slot
  show "load64 example_cpu_mem (slot 0x2000 i) = (if i = 0 then 0x3001 else 0)"
    "load64 example_cpu_mem (slot 0x3000 i) = (if i = 0 then 0x4001 else 0)"
    "load64 example_cpu_mem (slot 0x4000 i) = (if i = 0 then 0x5001 else 0)"
    "load64 example_cpu_mem (slot 0x5000 i) = (if i = 6 then 0x6001 else 0)"
    using assms by (auto simp: example_cpu_mem_def other zero page_aligned_def page_of_def)
qed

lemma example_next:
  assumes "i < 512"
  shows "entry_next example_cpu_mem 0x2000 i = (if i = 0 then Some 0x3000 else None)"
    and "entry_next example_cpu_mem 0x3000 i = (if i = 0 then Some 0x4000 else None)"
    and "entry_next example_cpu_mem 0x4000 i = (if i = 0 then Some 0x5000 else None)"
    and "entry_next example_cpu_mem 0x5000 i = (if i = 6 then Some 0x6000 else None)"
  using example_entries [OF assms] by (simp_all add: entry_next_def entry_address_def mask_eq_exp_minus_1)

lemma example_table_at:
  assumes "table_at example_cpu_mem 0x2000 p t"
  shows "(p, t) \<in> {([], 0x2000), ([0], 0x3000), ([0, 0], 0x4000), ([0, 0, 0], 0x5000)}"
proof -
  have p: "valid_path p" "length p \<le> 3" "descend example_cpu_mem 0x2000 p = Some t" using assms by (simp_all add: table_at_def)
  then obtain "p = [] \<or> (\<exists>i. p = [i]) \<or> (\<exists>i j. p = [i, j]) \<or> (\<exists>i j k. p = [i, j, k])"
    by (cases p; cases "tl p"; cases "tl (tl p)"; cases "tl (tl (tl p))") auto
  then show ?thesis using p by (auto simp: example_next split: if_splits)
qed

lemma example_walk: "walk example_cpu_mem 0x2000 0x6000 = Some 0x6000"
  by (simp add: walk_def path_of_def example_next take_bit_eq_mod)

lemma example_cpu_tree: "paging_tree example_cpu 0x2000"
proof -
  have "pf_wf example_cpu" "pf_idle example_cpu" by (simp_all add: example_cpu_def pf_wf_def pf_idle_def)
  moreover have use: "frame_in_use example_cpu i \<longleftrightarrow> i < 16 \<and> i < 7" for i
    using example_used by (auto simp: frame_in_use_def example_frames)
  ultimately have "pf_alloc_inv example_cpu"
    by (auto simp: pf_alloc_inv_def example_frames example_map_byte page_of_def)
  moreover have "mem example_cpu = example_cpu_mem" by (simp add: example_cpu_def)
  ultimately show ?thesis
    by (auto simp: paging_tree_def table_tree_def use example_map_byte page_of_def page_aligned_def
        dest!: example_table_at)
qed

lemma example_context_data: "page_of a = 6 \<Longrightarrow> kernel_data example_cpu 0x2000 a"
proof -
  assume a: "page_of a = 6"
  have "mem example_cpu = example_cpu_mem" by (simp add: example_cpu_def)
  moreover have "a \<noteq> 0x1000" "a \<noteq> 0x1001" using a by (auto simp: page_of_def)
  moreover have "page_of 0x2000 = 2" "page_of 0x3000 = 3" "page_of 0x4000 = 4" "page_of 0x5000 = 5"
    by (simp_all add: page_of_def)
  ultimately show ?thesis
    by (auto simp: kernel_data_def example_map_byte example_used a dest!: example_table_at)
qed

lemma example_run: "free_run example_cpu 7 5"
proof -
  have "s_current_index example_cpu = 7" by (simp add: example_cpu_def)
  moreover have "\<not> frame_used example_cpu (7 + j)" if "j < 5" for j
  proof -
    have "7 + j < 16" "\<not> 7 + j < 7" using that by (simp_all add: word_less_nat_alt unat_word_ariths)
    then show ?thesis using example_used [of "7 + j"] by simp
  qed
  ultimately show ?thesis by (auto simp: free_run_def example_frames)
qed

lemma example_context_page: "a \<in> context_bytes 0x6000 \<Longrightarrow> page_of a = 6"
proof -
  assume "a \<in> context_bytes 0x6000"
  then have "a - 0x6000 < 68" by (simp add: context_bytes_def in_region_def sizeof_CPUContext_def)
  then have "a - 0x6000 < 4096" by (rule order.strict_trans) simp
  from page_of_add [OF _ this, of "0x6000"] have "page_of a = page_of 0x6000" by (simp add: page_aligned_def)
  then show ?thesis by (simp add: page_of_def)
qed

section \<open>Property\<close>

text \<open>
  C11. With five free frames in a row, \<open>cpu_init\<close> returns.  The context then holds the addresses of the
  block and of the three stacks in these frames; the task state segment in memory has the kernel's stack
  for ring 0 and the three stacks as interrupt stacks 1 to 3; the descriptor that is loaded points to a table with
  the entries of \<open>gdt_init\<close>; the top of the timer's stack holds the kernel's page table; the
  interrupt descriptor table is initialised by the first processor and left alone by the others; no translation and no other data of the kernel change.
\<close>

theorem cpu_init_result:
  assumes "paging_tree s (s_pagetable_l4 s)" and "free_run s k 5"
    and "\<forall>a \<in> context_bytes c. kernel_data s (s_pagetable_l4 s) a"
    and "kernel_data s (s_pagetable_l4 s) bsp" and "bsp = c \<or> bsp \<notin> context_bytes c"
    and "walk (mem s) (s_pagetable_l4 s) c \<noteq> None"
    and "\<forall>i < NEAREST_PAGE (signed (ucast (fb_pitch fb) * ucast (fb_height fb) :: u32)).
      walk (mem s) (s_pagetable_l4 s) (fb_base fb + i * 4096) \<noteq> None"
  shows "\<exists>t. cpu_init isr fb shared_idt bsp c s = Some ((k * 4096, shared_idt, mem s c = mem s bsp), t)
    \<and> get_CPUContext (mem t) c = (get_CPUContext (mem s) c)\<lparr>c_gdt_block := k * 4096, c_idt_block := shared_idt,
        stack_isr := (k + 2) * 4096, stack_irq := (k + 4) * 4096, stack_timer_begin := (k + 4) * 4096,
        stack_timer := (k + 5) * 4096 - 32\<rparr>
    \<and> load64 (mem t) (k * 4096 + 78) = stack_kernel (get_CPUContext (mem s) c)
    \<and> load64 (mem t) (k * 4096 + 110) = (k + 2) * 4096 \<and> load64 (mem t) (k * 4096 + 118) = (k + 4) * 4096
    \<and> load64 (mem t) (k * 4096 + 126) = (k + 5) * 4096 - 32
    \<and> load64 (mem t) ((k + 5) * 4096 - 24) = s_pagetable_l4 s
    \<and> load16 (mem t) (k * 4096) = 63 \<and> load64 (mem t) (k * 4096 + 2) = k * 4096 + 10
    \<and> (\<exists>b. gdt_init (k * 4096 + 10) (k * 4096 + 74) zero_gdt_block = Some b
        \<and> load_array 64 (mem t) (k * 4096 + 10) = concat (map gdt_entry_bytes (gdt b)))
    \<and> s_idt_initialized t
    \<and> (if s_idt_initialized s then s_shared_idt t = s_shared_idt s
       else idt_init isr (shared_idt + 10) (s_shared_idt s) = Some (s_shared_idt t))
    \<and> paging_tree t (s_pagetable_l4 s) \<and> (\<forall>va. walk (mem t) (s_pagetable_l4 s) va = walk (mem s) (s_pagetable_l4 s) va)
    \<and> (\<forall>a. kernel_data s (s_pagetable_l4 s) a \<and> a \<notin> context_bytes c \<longrightarrow> mem t a = mem s a)
    \<and> (\<forall>i. k \<le> i \<and> i < k + 5 \<longrightarrow> \<not> frame_used s i \<and> frame_used t i)"
proof -
  let ?l4 = "s_pagetable_l4 s"
  define x where "x = allocated_context shared_idt k (get_CPUContext (mem s) c)"
  obtain u w m where w: "cpu_init isr fb shared_idt bsp c s = Some ((k * 4096, shared_idt, mem s c = mem s bsp), w)"
    and u: "alloc_stage ?l4 c s k 5 (k + 5) 0 x u" and mu: "mem u = put_GDTBlock m (k * 4096) (cpu_block (k * 4096) x)"
    and top: "load64 (mem u) (stack_timer x + 8) = ?l4" and uw: "data_step ?l4 {} u w"
    and idt: "s_idt_initialized w" "if s_idt_initialized s then s_shared_idt w = s_shared_idt s
       else idt_init isr (shared_idt + 10) (s_shared_idt s) = Some (s_shared_idt w)"
    by (rule cpu_init_stage [OF assms x_def])
  have su: "data_step ?l4 (context_bytes c) s u" using u by (simp add: alloc_stage_def)
  have sw: "data_step ?l4 (context_bytes c) s w" by (rule data_step_trans [OF su uw]) simp
  note pages = cpu_pages [OF assms(1,2) u uw]
  have block: "load64 (mem w) (k * 4096 + d) = load64 (mem u) (k * 4096 + d)" if "d \<le> 4088" for d
    using pages(1) [of 0 d] that by simp
  have "get_CPUContext (mem w) c = get_CPUContext (mem u) c"
    using assms(3) su uw by (intro get_CPUContext_cong) (simp add: data_step_def)
  then have ctx: "get_CPUContext (mem w) c = x" using u by (simp add: alloc_stage_def)
  have "stack_timer x + 8 = (k + 4) * 4096 + 4072" by (simp add: x_def allocated_context_def algebra_simps)
  then have "load64 (mem w) (stack_timer x + 8) = load64 (mem u) (stack_timer x + 8)" using pages(1) [of 4 4072] by simp
  with top have top': "load64 (mem w) ((k + 5) * 4096 - 24) = ?l4" by (simp add: x_def allocated_context_def)
  have low: "load16 (mem w) (k * 4096) = 63" "load_array 64 (mem w) (k * 4096 + 10) = concat (map gdt_entry_bytes (gdt_table (k * 4096 + 74)))"
    using pages(2,3) cpu_block_loads(1,7) [of m "k * 4096" x] by (simp_all add: mu)
  note loads = cpu_block_loads(2-6) [of m "k * 4096" x, folded mu]
  show ?thesis
    by (rule exI [of _ w], intro conjI)
      (use w ctx block [of 78] block [of 110] block [of 118] block [of 126] block [of 2] loads top' low idt sw pages(4)
       in \<open>simp_all add: x_def allocated_context_def data_step_def gdt_init_table\<close>)
qed

theorem cpu_init_result_witness:
  "\<exists>t. cpu_init (\<lambda>n. of_nat n) \<lparr>fb_base = 0, fb_width = 0, fb_height = 0, fb_pitch = 0, fb_bpp = 32\<rparr> 0xFFFF800000100000 0x6000 0x6000 example_cpu
      = Some ((0x7000, 0xFFFF800000100000, True), t)
    \<and> load64 (mem t) 0x706E = 0x9000 \<and> load64 (mem t) 0x7076 = 0xB000 \<and> load64 (mem t) 0x707E = 0xBFE0"
proof -
  let ?fb = "\<lparr>fb_base = 0, fb_width = 0, fb_height = 0, fb_pitch = 0, fb_bpp = 32\<rparr>"
  have l4: "s_pagetable_l4 example_cpu = 0x2000" "mem example_cpu = example_cpu_mem" by (simp_all add: example_cpu_def)
  have "NEAREST_PAGE (fb_bytes ?fb) = 0" by code_simp
  moreover have "\<forall>a \<in> context_bytes 0x6000. kernel_data example_cpu 0x2000 a"
    using example_context_page example_context_data by blast
  moreover have "kernel_data example_cpu 0x2000 0x6000" by (rule example_context_data) (simp add: page_of_def)
  ultimately show ?thesis
    using cpu_init_result [of example_cpu 7 "0x6000" "0x6000" ?fb "\<lambda>n. of_nat n" "0xFFFF800000100000"]
      example_cpu_tree example_run example_walk by (auto simp: l4)
qed

end
