(* ===== verification/Smp.thy ===== *)
theory Smp
  imports Cpu Cpuid
begin

text \<open>
  The start of the application processors: \<open>local_apic_start_smp\<close> of \<^verbatim>\<open>x86_64/apic/local_apic.c\<close> on the bootstrap
  processor (BSP), \<^verbatim>\<open>x86_64/apic/trampoline.asm\<close> and \<^verbatim>\<open>x86_64/cpu.asm\<close> on the processors it starts (AP).  They communicate
  over a structure behind the code of the trampoline, which the BSP copies to a fixed address for each AP,
  so that the copy resets the structure.  The model is a transition system: a step is a step of the BSP or
  of one AP.  A step accesses the structure once, apart from the configuration by the BSP, which an AP sees
  only after its last store, and from the call of \<open>cpu_init\<close>.  The sleeping of the BSP (\<open>pit_sleep\<close>) is any number of steps of the APs.
  The segment selector of the far jumps of the trampoline, its descriptor table and the message of the BSP are left out.
\<close>

section \<open>Initialisation of a processor\<close>

text \<open>\<^verbatim>\<open>x86_64/cpu.asm\<close>: \<open>ecx\<close> is the register when the identification is read.\<close>

definition cpu_init_common :: "cpuid_instruction \<Rightarrow> u32 \<Rightarrow> (nat \<Rightarrow> addr) \<Rightarrow> Framebuffer \<Rightarrow> addr \<Rightarrow> addr \<Rightarrow> addr \<Rightarrow> 'a cpu
    \<Rightarrow> ((addr \<times> addr \<times> bool) \<times> 'a cpu) option" where
  "cpu_init_common cpuid ecx isr framebuffer shared_idt bsp c s =
     cpu_init isr framebuffer shared_idt bsp c (s\<lparr>mem := (mem s)(c := cpuid_get_local_apic_id cpuid ecx)\<rparr>)"

definition cpu_init_bsp :: "cpuid_instruction \<Rightarrow> u32 \<Rightarrow> (nat \<Rightarrow> addr) \<Rightarrow> Framebuffer \<Rightarrow> addr \<Rightarrow> addr \<Rightarrow> 'a cpu
    \<Rightarrow> ((addr \<times> addr \<times> bool) \<times> 'a cpu) option" where
  "cpu_init_bsp cpuid ecx isr framebuffer shared_idt bsp s = cpu_init_common cpuid ecx isr framebuffer shared_idt bsp bsp s"

definition cpu_init_ap :: "cpuid_instruction \<Rightarrow> u32 \<Rightarrow> (nat \<Rightarrow> addr) \<Rightarrow> Framebuffer \<Rightarrow> addr \<Rightarrow> addr \<Rightarrow> addr \<Rightarrow> addr \<Rightarrow> 'a cpu
    \<Rightarrow> ((addr \<times> addr \<times> bool) \<times> 'a cpu) option" where
  "cpu_init_ap cpuid ecx isr framebuffer shared_idt bsp c stack s =
     cpu_init_common cpuid ecx isr framebuffer shared_idt bsp c (s\<lparr>mem := store64 (mem s) (c + 28) stack\<rparr>)"

section \<open>State\<close>

record LocalAPICApplicationProcessorCommunication =
  ap_status :: u8
  bsp_status :: u8
  com_pagetable_l4 :: u32
  com_stack_ptr :: u64
  com_stack_size :: u32
  com_ap_context :: u64
  com_cpu_init_ap :: u64
  com_scheduler_entry :: u64

definition trampoline_data :: LocalAPICApplicationProcessorCommunication where
  "trampoline_data = \<lparr>ap_status = 0, bsp_status = 0, com_pagetable_l4 = 0, com_stack_ptr = 0, com_stack_size = 0,
     com_ap_context = 0, com_cpu_init_ap = 0, com_scheduler_entry = 0\<rparr>"

text \<open>
  Where the BSP is: before the iteration \<open>i\<close> with \<open>ai\<close> processors started, waiting for the AP to be awake, waiting
  for its answer, or done.  Where an AP is, with what it has read so far: page table, stack, context, and the stack again as
  an argument of \<open>cpu_init_ap\<close>; at the end the entry of the scheduler.
\<close>

datatype bsp_pc = Bsp_Loop nat nat | Bsp_Awake nat nat | Bsp_Reply nat nat | Bsp_Done

datatype ap_pc = Ap_Off | Ap_Started | Ap_Spin | Ap_Continue | Ap_Protected | Ap_Long u32 | Ap_Stack u32 addr
| Ap_Context u32 addr addr | Ap_Init u32 addr addr addr | Ap_Called u32 addr addr | Ap_Finished u32 addr addr
| Ap_Scheduler u32 addr addr addr

text \<open>The processors are those of the information the MADT gave; the other fields are local variables of \<open>local_apic_start_smp\<close>.\<close>

record smp_state = cpu_state +
  smp_info :: MADTInformation
  communicator :: LocalAPICApplicationProcessorCommunication
  bsp_local_apic_id :: u8
  ap_contexts :: addr
  ap_context_pages :: u64
  bsp :: bsp_pc
  aps :: "nat \<Rightarrow> ap_pc"

type_synonym 'a smp = "'a smp_state_scheme"

text \<open>Addresses the linker chooses, and what the processors and the boot loader give.\<close>

record smp_env =
  env_trampoline_code :: addr
  env_cpu_init_ap :: addr
  env_scheduler_entry :: addr
  env_bsp :: addr
  env_shared_idt :: addr
  env_isr :: "nat \<Rightarrow> addr"
  env_framebuffer :: Framebuffer
  env_cpuid :: "nat \<Rightarrow> cpuid_instruction"
  env_ecx :: "nat \<Rightarrow> u32"

section \<open>Bootstrap processor\<close>

definition cpu_context_size :: u64 where
  "cpu_context_size = ROUND_UP sizeof_CPUContext LOCAL_APIC_AP_CPU_CONTEXT_ALIGNMENT"

definition smp_begin :: "smp_env \<Rightarrow> 'a smp \<Rightarrow> 'a smp option" where
  "smp_begin env s = do {
     let bsp_id = c_local_apic_id (get_CPUContext (mem s) (env_bsp env));
     let processors_num = of_nat (length (processors (smp_info s)));
     let context_pages = NEAREST_PAGE (cpu_context_size * (processors_num - 1));
     (contexts, s) \<leftarrow> pageframe_request_pages context_pages s;
     Some (s\<lparr>bsp_local_apic_id := bsp_id, ap_contexts := contexts, ap_context_pages := context_pages, bsp := Bsp_Loop 0 0\<rparr>) }"

text \<open>
  The commands of one iteration: \<open>waits n\<close> is what the controller answers to the reads of the \<open>n\<close>th waiting loop.
\<close>

definition startup_ipi :: "(nat \<Rightarrow> u32) \<Rightarrow> addr \<Rightarrow> u8 \<Rightarrow> u32 \<times> u32 \<Rightarrow> 'a smp \<Rightarrow> ((u32 \<times> u32) \<times> 'a smp) option" where
  "startup_ipi reads p lapic_id command s = do {
     let s = local_apic_set_register p (reg_offset LOCAL_APIC_REG_OFFSET_ERROR_STATUS) 0 s;
     let (low, high) = startup_command lapic_id command;
     let s = local_apic_ipi_set_command p low high s;
     command_low \<leftarrow> local_apic_wait reads 0;
     Some ((command_low, snd command), s) }"

definition smp_wake :: "addr \<Rightarrow> (nat \<Rightarrow> nat \<Rightarrow> u32) \<Rightarrow> u8 \<Rightarrow> 'a smp \<Rightarrow> 'a smp option" where
  "smp_wake code waits lapic_id s = do {
     let p = local_apic_ptr (smp_info s);
     let s = s\<lparr>mem := memcpy (mem s) LOCAL_APIC_TRAMPOLINE_TARGET code LOCAL_APIC_TRAMPOLINE_TARGET_SIZE,
       communicator := trampoline_data\<rparr>;
     let s = local_apic_set_register p (reg_offset LOCAL_APIC_REG_OFFSET_ERROR_STATUS) 0 s;
     let (low, high) = init_command lapic_id (local_apic_ipi_get_command p s);
     let s = local_apic_ipi_set_command p low high s;
     command_low \<leftarrow> local_apic_wait (waits 0) 0;
     let command = local_apic_ipi_get_command p s;
     let (low, high) = deassert_command lapic_id command;
     let s = local_apic_ipi_set_command p low high s;
     command_low \<leftarrow> local_apic_wait (waits 1) 0;
     (command, s) \<leftarrow> startup_ipi (waits 2) p lapic_id (command_low, snd command) s;
     (command, s) \<leftarrow> startup_ipi (waits 3) p lapic_id command s;
     Some s }"

definition set_processor :: "nat \<Rightarrow> addr \<Rightarrow> u64 \<Rightarrow> 'a smp \<Rightarrow> 'a smp" where
  "set_processor i stack sz s = s\<lparr>smp_info := (smp_info s)\<lparr>processors := (processors (smp_info s))
     [i := (processors (smp_info s) ! i)\<lparr>ap_stack_ptr := stack, ap_stack_size := sz\<rparr>]\<rparr>\<rparr>"

definition smp_configure :: "smp_env \<Rightarrow> nat \<Rightarrow> nat \<Rightarrow> 'a smp \<Rightarrow> 'a smp option" where
  "smp_configure env i ai s = do {
     let ap_context = ap_contexts s + of_nat ai * cpu_context_size;
     let stack_bytes = LOCAL_APIC_AP_STACK_PAGES * MEMORY_PAGE_SIZE;
     (block, s) \<leftarrow> pageframe_request_pages LOCAL_APIC_AP_STACK_PAGES s;
     let ap_stack = block + stack_bytes;
     let s = set_processor i ap_stack stack_bytes s;
     Some (s\<lparr>communicator := (communicator s)\<lparr>com_stack_ptr := ap_stack, com_stack_size := ucast stack_bytes,
       com_ap_context := ap_context, com_cpu_init_ap := env_cpu_init_ap env, com_scheduler_entry := env_scheduler_entry env,
       com_pagetable_l4 := ucast (paging_get_pagetable_l4 s AND 0xffffffff), bsp_status := 1\<rparr>\<rparr>) }"

abbreviation apic_id :: "nat \<Rightarrow> 'a smp \<Rightarrow> u8" where
  "apic_id i s \<equiv> lp_local_apic_id (get_MADTLocalProcessor (mem s) (local_processor (processors (smp_info s) ! i)))"

inductive bsp_step :: "smp_env \<Rightarrow> 'a smp \<Rightarrow> 'a smp \<Rightarrow> bool" for env where
  skip: "bsp s = Bsp_Loop i ai \<Longrightarrow> i < length (processors (smp_info s)) \<Longrightarrow> apic_id i s = bsp_local_apic_id s \<Longrightarrow>
     bsp_step env s (s\<lparr>bsp := Bsp_Loop (Suc i) ai\<rparr>)"
| wake: "bsp s = Bsp_Loop i ai \<Longrightarrow> i < length (processors (smp_info s)) \<Longrightarrow> apic_id i s \<noteq> bsp_local_apic_id s \<Longrightarrow>
     smp_wake (env_trampoline_code env) waits (apic_id i s) s = Some t \<Longrightarrow>
     bsp_step env s (t\<lparr>bsp := Bsp_Awake i ai, aps := (aps t)(i := Ap_Started)\<rparr>)"
| wait_awake: "bsp s = Bsp_Awake i ai \<Longrightarrow> ap_status (communicator s) = 0 \<Longrightarrow> bsp_step env s s"
| configure: "bsp s = Bsp_Awake i ai \<Longrightarrow> ap_status (communicator s) \<noteq> 0 \<Longrightarrow> smp_configure env i ai s = Some t \<Longrightarrow>
     bsp_step env s (t\<lparr>bsp := Bsp_Reply i ai\<rparr>)"
| wait_reply: "bsp s = Bsp_Reply i ai \<Longrightarrow> ap_status (communicator s) = 0 \<Longrightarrow> bsp_step env s s"
| reply: "bsp s = Bsp_Reply i ai \<Longrightarrow> ap_status (communicator s) \<noteq> 0 \<Longrightarrow>
     bsp_step env s (s\<lparr>bsp := Bsp_Loop (Suc i) (Suc ai)\<rparr>)"
| finish: "bsp s = Bsp_Loop i ai \<Longrightarrow> \<not> i < length (processors (smp_info s)) \<Longrightarrow>
     pageframe_free (ap_contexts s) (ap_context_pages s) s = Some t \<Longrightarrow> bsp_step env s (t\<lparr>bsp := Bsp_Done\<rparr>)"

section \<open>Application processors\<close>

abbreviation set_ap :: "nat \<Rightarrow> ap_pc \<Rightarrow> 'a smp \<Rightarrow> 'a smp" where
  "set_ap i p s \<equiv> s\<lparr>aps := (aps s)(i := p)\<rparr>"

inductive ap_step :: "smp_env \<Rightarrow> nat \<Rightarrow> 'a smp \<Rightarrow> 'a smp \<Rightarrow> bool" for env i where
  awake: "aps s i = Ap_Started \<Longrightarrow>
     ap_step env i s (set_ap i Ap_Spin (s\<lparr>communicator := (communicator s)\<lparr>ap_status := 1\<rparr>\<rparr>))"
| spin: "aps s i = Ap_Spin \<Longrightarrow> bsp_status (communicator s) = 0 \<Longrightarrow> ap_step env i s s"
| go_ahead: "aps s i = Ap_Spin \<Longrightarrow> bsp_status (communicator s) \<noteq> 0 \<Longrightarrow> ap_step env i s (set_ap i Ap_Continue s)"
| reset_status: "aps s i = Ap_Continue \<Longrightarrow>
     ap_step env i s (set_ap i Ap_Protected (s\<lparr>communicator := (communicator s)\<lparr>ap_status := 0\<rparr>\<rparr>))"
| pagetable: "aps s i = Ap_Protected \<Longrightarrow> ap_step env i s (set_ap i (Ap_Long (com_pagetable_l4 (communicator s))) s)"
| get_stack: "aps s i = Ap_Long l4 \<Longrightarrow> ap_step env i s (set_ap i (Ap_Stack l4 (com_stack_ptr (communicator s))) s)"
| get_context: "aps s i = Ap_Stack l4 sp \<Longrightarrow>
     ap_step env i s (set_ap i (Ap_Context l4 sp (com_ap_context (communicator s))) s)"
| get_argument: "aps s i = Ap_Context l4 sp c \<Longrightarrow>
     ap_step env i s (set_ap i (Ap_Init l4 sp c (com_stack_ptr (communicator s))) s)"
| call_init: "aps s i = Ap_Init l4 sp c st \<Longrightarrow> com_cpu_init_ap (communicator s) = env_cpu_init_ap env \<Longrightarrow>
     cpu_init_ap (env_cpuid env i) (env_ecx env i) (env_isr env) (env_framebuffer env) (env_shared_idt env) (env_bsp env) c st s
       = Some (loaded, t) \<Longrightarrow>
     ap_step env i s (set_ap i (Ap_Called l4 sp c) t)"
| set_finished: "aps s i = Ap_Called l4 sp c \<Longrightarrow>
     ap_step env i s (set_ap i (Ap_Finished l4 sp c) (s\<lparr>communicator := (communicator s)\<lparr>ap_status := 2\<rparr>\<rparr>))"
| enter_scheduler: "aps s i = Ap_Finished l4 sp c \<Longrightarrow>
     ap_step env i s (set_ap i (Ap_Scheduler l4 sp c (com_scheduler_entry (communicator s))) s)"

section \<open>All processors\<close>

text \<open>
  The states of the start from \<open>s0\<close>.  The BSP begins an iteration only in states with \<open>timing\<close>: with a condition
  that always holds these are all states of the program, with \<open>settled\<close> those where the sleeping of the BSP is long enough
  for the processors started before.
\<close>

inductive smp_reach :: "('a smp \<Rightarrow> bool) \<Rightarrow> smp_env \<Rightarrow> 'a smp \<Rightarrow> 'a smp \<Rightarrow> bool" for timing env s0 where
  start: "smp_begin env s0 = Some s \<Longrightarrow> smp_reach timing env s0 s"
| by_bsp: "smp_reach timing env s0 s \<Longrightarrow> (\<And>i ai. bsp s = Bsp_Loop i ai \<Longrightarrow> timing s) \<Longrightarrow> bsp_step env s t \<Longrightarrow>
     smp_reach timing env s0 t"
| by_ap: "smp_reach timing env s0 s \<Longrightarrow> ap_step env i s t \<Longrightarrow> smp_reach timing env s0 t"

definition settled :: "'a smp \<Rightarrow> bool" where
  "settled s = (\<forall>i. aps s i = Ap_Off \<or> (\<exists>l4 sp c e. aps s i = Ap_Scheduler l4 sp c e))"

text \<open>What a processor has read before it runs \<open>cpu_init_ap\<close>, and how many processors with a lower index were started.\<close>

fun ap_reads :: "ap_pc \<Rightarrow> (u32 \<times> addr \<times> addr) option" where
  "ap_reads (Ap_Init l4 sp c st) = Some (l4, sp, c)"
| "ap_reads (Ap_Called l4 sp c) = Some (l4, sp, c)"
| "ap_reads (Ap_Finished l4 sp c) = Some (l4, sp, c)"
| "ap_reads (Ap_Scheduler l4 sp c e) = Some (l4, sp, c)"
| "ap_reads _ = None"

definition started_below :: "nat \<Rightarrow> 'a smp \<Rightarrow> nat" where
  "started_below i s = length (filter (\<lambda>j. aps s j \<noteq> Ap_Off) [0..<i])"

end
