(* ===== verification/Smp_Correct.thy ===== *)
theory Smp_Correct
  imports Smp Cpu_Correct
begin

text \<open>
  What the steps of the start of the processors keep, and the invariant of the states where the BSP goes on only
  when the processors started before have reached the scheduler.
\<close>

section \<open>What the calls keep\<close>

lemma request_pages_scan_index:
  "request_pages_scan n limit s = Some r \<Longrightarrow> \<exists>k. snd r = s\<lparr>s_current_index := k\<rparr>"
proof (rule request_pages_scan.raw_induct [where P = "\<lambda>n limit s r. \<exists>k. snd r = s\<lparr>s_current_index := k\<rparr>"])
  fix scan :: "u64 \<Rightarrow> u64 \<Rightarrow> 'a pf \<Rightarrow> (bool \<times> 'a pf) option" and n limit s r
  assume scan: "\<And>n limit s r. scan n limit s = Some r \<Longrightarrow> \<exists>k. snd r = s\<lparr>s_current_index := k\<rparr>"
    and r: "(if s_current_index s < limit
      then case first_used s 0 n of
             Some j \<Rightarrow> scan n limit (s\<lparr>s_current_index := s_current_index s + (j + 1)\<rparr>)
           | None \<Rightarrow> Some (True, s)
      else Some (False, s)) = Some r"
  show "\<exists>k. snd r = s\<lparr>s_current_index := k\<rparr>"
  proof (cases "snd r = s")
    case True
    then show ?thesis by (intro exI [of _ "s_current_index s"]) simp
  next
    case False
    with r obtain j where "scan n limit (s\<lparr>s_current_index := j\<rparr>) = Some r" by (auto split: if_splits option.splits)
    from scan [OF this] show ?thesis by simp
  qed
qed

lemma pageframe_request_pages_more:
  "pageframe_request_pages n s = Some (p, t) \<Longrightarrow> pageframe_state.more t = pageframe_state.more s"
  by (auto simp: pageframe_request_pages_def pageframe_spinlock_eq pageframe_unlock_eq Let_def
      split: Option.bind_splits prod.splits if_splits dest!: lock_op.op_frame(5) request_pages_scan_index)

lemma set_cache_more: "pageframe_state.more (paging_set_cache_size va sz mode s) = pageframe_state.more s"
  unfolding paging_set_cache_size_def paging_set_cache_def by (rule word_for_frame) simp

lemma cpu_allocate_stack_more:
  "cpu_allocate_stack n clear s = Some (p, t) \<Longrightarrow> pageframe_state.more t = pageframe_state.more s"
  by (auto simp: cpu_allocate_stack_def Let_def split: Option.bind_splits if_splits dest!: pageframe_request_pages_more)

lemma cpu_allocate_more: "cpu_allocate shared_idt c s = Some t \<Longrightarrow> pageframe_state.more t = pageframe_state.more s"
  by (auto simp: cpu_allocate_def Let_def split: Option.bind_splits
      dest!: pageframe_request_pages_more cpu_allocate_stack_more)

lemma cpu_state_more:
  "pageframe_state.more t = pageframe_state.more s \<Longrightarrow>
     cpu_state.more t = cpu_state.more s \<and> s_pagetable_l4 t = s_pagetable_l4 s" for s t :: "'a cpu"
  by (cases s; cases t) simp

lemmas cpu_cache_more = cpu_state_more [OF set_cache_more]

lemma cpu_init_more:
  assumes "cpu_init isr fb shared_idt b c s = Some (r, t)"
  shows "cpu_state.more t = cpu_state.more s" "s_pagetable_l4 t = s_pagetable_l4 s"
  using assms by (auto simp: cpu_init_def Let_def paging_init_pat_def cpu_cache_more split: Option.bind_splits if_splits
      dest!: cpu_state_more [OF cpu_allocate_more])

lemma smp_more:
  "cpu_state.more t = cpu_state.more s \<Longrightarrow> smp_info t = smp_info s \<and> communicator t = communicator s
     \<and> ap_contexts t = ap_contexts s \<and> bsp t = bsp s \<and> aps t = aps s \<and> bsp_local_apic_id t = bsp_local_apic_id s"
  for s t :: "'a smp"
  by (cases s; cases t) simp

lemma smp_request_more:
  "pageframe_state.more t = pageframe_state.more s \<Longrightarrow> smp_info t = smp_info s \<and> communicator t = communicator s
     \<and> ap_contexts t = ap_contexts s \<and> bsp t = bsp s \<and> aps t = aps s \<and> s_pagetable_l4 t = s_pagetable_l4 s"
  for s t :: "'a smp"
  using cpu_state_more [of t s] smp_more [of t s] by simp

lemma smp_wake_more:
  "smp_wake code waits k s = Some t \<Longrightarrow> communicator t = trampoline_data \<and> smp_info t = smp_info s
     \<and> ap_contexts t = ap_contexts s \<and> aps t = aps s \<and> s_pagetable_l4 t = s_pagetable_l4 s
     \<and> bsp_local_apic_id t = bsp_local_apic_id s"
  by (auto simp: smp_wake_def startup_ipi_def local_apic_set_register_def local_apic_ipi_set_command_def Let_def split_beta
      split: Option.bind_splits)

section \<open>What a processor is given\<close>

definition given_l4 :: "'a smp \<Rightarrow> u32" where
  "given_l4 s = ucast (s_pagetable_l4 s AND 0xffffffff)"

definition given_stack :: "'a smp \<Rightarrow> nat \<Rightarrow> addr" where
  "given_stack s j = ap_stack_ptr (processors (smp_info s) ! j)"

definition given_context :: "'a smp \<Rightarrow> nat \<Rightarrow> addr" where
  "given_context s j = ap_contexts s + of_nat (started_below j s) * cpu_context_size"

lemmas given_defs = given_l4_def given_stack_def given_context_def

definition config_for :: "smp_env \<Rightarrow> 'a smp \<Rightarrow> nat \<Rightarrow> bool" where
  "config_for env s j \<longleftrightarrow> com_pagetable_l4 (communicator s) = given_l4 s \<and> com_stack_ptr (communicator s) = given_stack s j
     \<and> com_ap_context (communicator s) = given_context s j \<and> com_scheduler_entry (communicator s) = env_scheduler_entry env"

fun holds :: "u32 \<Rightarrow> addr \<Rightarrow> addr \<Rightarrow> addr \<Rightarrow> ap_pc \<Rightarrow> bool" where
  "holds l4 sp c e (Ap_Long l4') \<longleftrightarrow> l4' = l4"
| "holds l4 sp c e (Ap_Stack l4' sp') \<longleftrightarrow> l4' = l4 \<and> sp' = sp"
| "holds l4 sp c e (Ap_Context l4' sp' c') \<longleftrightarrow> l4' = l4 \<and> sp' = sp \<and> c' = c"
| "holds l4 sp c e (Ap_Init l4' sp' c' st) \<longleftrightarrow> l4' = l4 \<and> sp' = sp \<and> c' = c \<and> st = sp"
| "holds l4 sp c e (Ap_Called l4' sp' c') \<longleftrightarrow> l4' = l4 \<and> sp' = sp \<and> c' = c"
| "holds l4 sp c e (Ap_Finished l4' sp' c') \<longleftrightarrow> l4' = l4 \<and> sp' = sp \<and> c' = c"
| "holds l4 sp c e (Ap_Scheduler l4' sp' c' e') \<longleftrightarrow> l4' = l4 \<and> sp' = sp \<and> c' = c \<and> e' = e"
| "holds l4 sp c e _ \<longleftrightarrow> True"

fun unsettled :: "ap_pc \<Rightarrow> bool" where
  "unsettled Ap_Off \<longleftrightarrow> False"
| "unsettled (Ap_Scheduler l4 sp c e) \<longleftrightarrow> False"
| "unsettled _ \<longleftrightarrow> True"

lemma settled_unsettled: "settled s \<longleftrightarrow> (\<forall>j. \<not> unsettled (aps s j))"
proof -
  have "unsettled p \<longleftrightarrow> \<not> (p = Ap_Off \<or> (\<exists>l4 sp c e. p = Ap_Scheduler l4 sp c e))" for p by (cases p) simp_all
  then show ?thesis by (simp add: settled_def)
qed

fun smp_phase :: "smp_env \<Rightarrow> 'a smp \<Rightarrow> bsp_pc \<Rightarrow> bool" where
  "smp_phase env s (Bsp_Loop i ai) \<longleftrightarrow> ai = started_below i s \<and> (\<forall>j \<ge> i. aps s j = Ap_Off)
     \<and> (\<forall>j. unsettled (aps s j) \<longrightarrow> config_for env s j)"
| "smp_phase env s (Bsp_Awake i ai) \<longleftrightarrow> ai = started_below i s \<and> i < length (processors (smp_info s))
     \<and> (\<forall>j > i. aps s j = Ap_Off) \<and> (\<forall>j. j \<noteq> i \<longrightarrow> \<not> unsettled (aps s j)) \<and> bsp_status (communicator s) = 0
     \<and> (aps s i = Ap_Started \<and> ap_status (communicator s) = 0 \<or> aps s i = Ap_Spin)"
| "smp_phase env s (Bsp_Reply i ai) \<longleftrightarrow> ai = started_below i s \<and> (\<forall>j > i. aps s j = Ap_Off) \<and> aps s i \<noteq> Ap_Off
     \<and> (\<forall>j. j \<noteq> i \<longrightarrow> \<not> unsettled (aps s j)) \<and> config_for env s i"
| "smp_phase env s Bsp_Done \<longleftrightarrow> (\<forall>j. unsettled (aps s j) \<longrightarrow> config_for env s j)"

definition smp_inv :: "smp_env \<Rightarrow> 'a smp \<Rightarrow> bool" where
  "smp_inv env s \<longleftrightarrow> (\<forall>j. holds (given_l4 s) (given_stack s j) (given_context s j) (env_scheduler_entry env) (aps s j))
     \<and> smp_phase env s (bsp s)"

section \<open>Steps of an application processor\<close>

definition ap_moved :: "smp_env \<Rightarrow> nat \<Rightarrow> 'a smp \<Rightarrow> 'a smp \<Rightarrow> ap_pc \<Rightarrow> u8 \<Rightarrow> bool" where
  "ap_moved env j s t p v \<longleftrightarrow> aps t = (aps s)(j := p) \<and> communicator t = (communicator s)\<lparr>ap_status := v\<rparr> \<and> p \<noteq> Ap_Off
     \<and> unsettled (aps s j) \<and> bsp t = bsp s \<and> smp_info t = smp_info s \<and> ap_contexts t = ap_contexts s
     \<and> s_pagetable_l4 t = s_pagetable_l4 s
     \<and> (aps s j = Ap_Started \<or> aps s j = Ap_Spin \<and> bsp_status (communicator s) = 0 \<longrightarrow> p = Ap_Spin)
     \<and> (holds (given_l4 s) (given_stack s j) (given_context s j) (env_scheduler_entry env) (aps s j) \<and> config_for env s j
        \<longrightarrow> holds (given_l4 s) (given_stack s j) (given_context s j) (env_scheduler_entry env) p)"

lemma cpu_init_ap_more:
  assumes "cpu_init_ap cpuid ecx isr fb shared_idt b c st s = Some (r, t)"
  shows "cpu_state.more t = cpu_state.more s" "s_pagetable_l4 t = s_pagetable_l4 s"
  using cpu_init_more [OF assms [unfolded cpu_init_ap_def cpu_init_common_def]] by simp_all

lemma ap_movedI: "ap_moved env j s t p v \<Longrightarrow> \<exists>p v. ap_moved env j s t p v"
  by blast

lemma ap_step_moved: "ap_step env j s t \<Longrightarrow> \<exists>p v. ap_moved env j s t p v"
proof (induction rule: ap_step.induct)
  case (call_init s l4 sp c st loaded t)
  then show ?case using smp_more [OF cpu_init_ap_more(1) [OF call_init(3)]] cpu_init_ap_more(2) [OF call_init(3)]
    by (intro ap_movedI [where p = "Ap_Called l4 sp c" and v = "ap_status (communicator s)"]) (simp add: ap_moved_def)
next
  case (awake s)
  then show ?case by (intro ap_movedI [where p = Ap_Spin and v = 1]) (simp add: ap_moved_def)
next
  case (spin s)
  then show ?case by (intro ap_movedI [where p = Ap_Spin and v = "ap_status (communicator s)"]) (simp add: ap_moved_def fun_upd_idem)
next
  case (go_ahead s)
  then show ?case by (intro ap_movedI [where p = Ap_Continue and v = "ap_status (communicator s)"]) (simp add: ap_moved_def)
next
  case (reset_status s)
  then show ?case by (intro ap_movedI [where p = Ap_Protected and v = 0]) (simp add: ap_moved_def)
next
  case (set_finished s l4 sp c)
  then show ?case by (intro ap_movedI [where p = "Ap_Finished l4 sp c" and v = 2]) (simp add: ap_moved_def)
next
  case (pagetable s)
  then show ?case
    by (intro ap_movedI [where p = "Ap_Long (com_pagetable_l4 (communicator s))" and v = "ap_status (communicator s)"])
      (simp add: ap_moved_def config_for_def)
next
  case (get_stack s l4)
  then show ?case
    by (intro ap_movedI [where p = "Ap_Stack l4 (com_stack_ptr (communicator s))" and v = "ap_status (communicator s)"])
      (simp add: ap_moved_def config_for_def)
next
  case (get_context s l4 sp)
  then show ?case
    by (intro ap_movedI [where p = "Ap_Context l4 sp (com_ap_context (communicator s))" and v = "ap_status (communicator s)"])
      (simp add: ap_moved_def config_for_def)
next
  case (get_argument s l4 sp c)
  then show ?case
    by (intro ap_movedI [where p = "Ap_Init l4 sp c (com_stack_ptr (communicator s))" and v = "ap_status (communicator s)"])
      (simp add: ap_moved_def config_for_def)
next
  case (enter_scheduler s l4 sp c)
  then show ?case
    by (intro ap_movedI [where p = "Ap_Scheduler l4 sp c (com_scheduler_entry (communicator s))" and v = "ap_status (communicator s)"])
      (simp add: ap_moved_def config_for_def)
qed

lemma started_below_cong:
  "(\<And>j. j < i \<Longrightarrow> aps t j = Ap_Off \<longleftrightarrow> aps s j = Ap_Off) \<Longrightarrow> started_below i t = started_below i s"
  unfolding started_below_def by (intro arg_cong [of _ _ length] filter_cong) simp_all

lemma started_below_Suc: "started_below (Suc i) s = started_below i s + (if aps s i = Ap_Off then 0 else 1)"
  by (simp add: started_below_def)

lemma ap_moved_inv:
  assumes "smp_inv env s" and m: "ap_moved env j s t p v"
  shows "smp_inv env t"
proof -
  have inv: "holds (given_l4 s) (given_stack s k) (given_context s k) (env_scheduler_entry env) (aps s k)"
    "smp_phase env s (bsp s)" for k using assms(1) by (simp_all add: smp_inv_def)
  have t: "aps t = (aps s)(j := p)" "p \<noteq> Ap_Off" "unsettled (aps s j)" "bsp t = bsp s" "smp_info t = smp_info s"
    "communicator t = (communicator s)\<lparr>ap_status := v\<rparr>" using m by (simp_all add: ap_moved_def)
  then have off: "aps t k = Ap_Off \<longleftrightarrow> aps s k = Ap_Off" for k by auto
  then have below: "started_below k t = started_below k s" for k by (rule started_below_cong)
  have given: "given_l4 t = given_l4 s" "given_stack t k = given_stack s k" "given_context t k = given_context s k" for k
    using m by (simp_all add: ap_moved_def given_defs below)
  then have config: "config_for env t k \<longleftrightarrow> config_for env s k" for k by (simp add: config_for_def t)
  have start: "aps s j = Ap_Started \<or> aps s j = Ap_Spin \<and> bsp_status (communicator s) = 0 \<or> config_for env s j"
    using inv(2) t(3) by (cases "bsp s") (auto, metis+)
  with m inv(1) [of j] have "holds (given_l4 s) (given_stack s j) (given_context s j) (env_scheduler_entry env) p"
    by (auto simp: ap_moved_def)
  with inv(1) have "holds (given_l4 t) (given_stack t k) (given_context t k) (env_scheduler_entry env) (aps t k)" for k
    by (simp add: given t(1))
  moreover have "smp_phase env t (bsp t)"
  proof (cases "bsp s")
    case (Bsp_Awake i ai)
    then have "j = i" "p = Ap_Spin" using inv(2) t(3) m by (auto simp: ap_moved_def)
    with Bsp_Awake inv(2) show ?thesis by (simp add: t below)
  qed (use inv(2) t(3) in \<open>auto simp: t(1,2,4) below config off\<close>)
  ultimately show ?thesis by (simp add: smp_inv_def)
qed

section \<open>Steps of the bootstrap processor\<close>

lemma given_same:
  assumes "aps t = aps s" "ap_contexts t = ap_contexts s" "s_pagetable_l4 t = s_pagetable_l4 s"
  shows "given_l4 t = given_l4 s" "given_context t j = given_context s j" "started_below j t = started_below j s"
  using assms started_below_cong [of j t s] by (simp_all add: given_defs)

lemma smp_inv_same:
  assumes "smp_inv env s" and "aps t = aps s" "ap_contexts t = ap_contexts s" "s_pagetable_l4 t = s_pagetable_l4 s"
    and "smp_info t = smp_info s" and "smp_phase env t (bsp t)"
  shows "smp_inv env t"
  using assms given_same [OF assms(2-4)] by (simp add: smp_inv_def given_stack_def)

lemma smp_configure_result:
  assumes "smp_configure env i ai s = Some t" and "i < length (processors (smp_info s))" and "ai = started_below i s"
  shows "aps t = aps s" "ap_contexts t = ap_contexts s" "s_pagetable_l4 t = s_pagetable_l4 s" "config_for env t i"
    "j \<noteq> i \<Longrightarrow> given_stack t j = given_stack s j"
proof -
  obtain block u where u: "pageframe_request_pages LOCAL_APIC_AP_STACK_PAGES s = Some (block, u)"
    using assms(1) by (auto simp: smp_configure_def Let_def split: Option.bind_splits)
  note same = smp_request_more [OF pageframe_request_pages_more [OF u]]
  define v where "v = set_processor i (block + LOCAL_APIC_AP_STACK_PAGES * MEMORY_PAGE_SIZE)
    (LOCAL_APIC_AP_STACK_PAGES * MEMORY_PAGE_SIZE) u"
  have t: "t = v\<lparr>communicator := communicator t\<rparr>"
    "communicator t = (communicator v)\<lparr>com_stack_ptr := block + LOCAL_APIC_AP_STACK_PAGES * MEMORY_PAGE_SIZE,
       com_stack_size := ucast (LOCAL_APIC_AP_STACK_PAGES * MEMORY_PAGE_SIZE),
       com_ap_context := ap_contexts s + of_nat ai * cpu_context_size, com_cpu_init_ap := env_cpu_init_ap env,
       com_scheduler_entry := env_scheduler_entry env, com_pagetable_l4 := given_l4 v, bsp_status := 1\<rparr>"
    using assms(1) by (auto simp: smp_configure_def Let_def u v_def given_l4_def paging_get_pagetable_l4_def)
  have v: "aps v = aps s" "ap_contexts v = ap_contexts s" "s_pagetable_l4 v = s_pagetable_l4 s"
    using same by (simp_all add: v_def set_processor_def)
  show tv: "aps t = aps s" "ap_contexts t = ap_contexts s" "s_pagetable_l4 t = s_pagetable_l4 s"
    by (subst t(1), simp add: v)+
  have info: "smp_info t = smp_info v" by (subst t(1)) simp
  show "j \<noteq> i \<Longrightarrow> given_stack t j = given_stack s j"
    using same by (simp add: given_stack_def info) (simp add: v_def set_processor_def)
  have "given_stack t i = block + LOCAL_APIC_AP_STACK_PAGES * MEMORY_PAGE_SIZE"
    using same assms(2) by (simp add: given_stack_def info) (simp add: v_def set_processor_def)
  then show "config_for env t i"
    using given_same [OF tv] assms(3) by (simp add: config_for_def t(2) given_l4_def given_context_def v tv)
qed

lemma bsp_step_inv:
  assumes "bsp_step env s t" and "smp_inv env s" and "\<And>i ai. bsp s = Bsp_Loop i ai \<Longrightarrow> settled s"
  shows "smp_inv env t"
  using assms
proof (induction rule: bsp_step.induct)
  case (skip s i ai)
  then have "smp_phase env s (Bsp_Loop i ai)" by (simp add: smp_inv_def)
  then have "smp_phase env (s\<lparr>bsp := Bsp_Loop (Suc i) ai\<rparr>) (Bsp_Loop (Suc i) ai)"
    by (simp add: started_below_def config_for_def given_defs)
  with skip show ?case by (intro smp_inv_same [OF skip(4)]) simp_all
next
  case (reply s i ai)
  then have p: "smp_phase env s (Bsp_Reply i ai)" by (simp add: smp_inv_def)
  then have "config_for env s j" if "unsettled (aps s j)" for j using that by (cases "j = i") auto
  with p have "smp_phase env (s\<lparr>bsp := Bsp_Loop (Suc i) (Suc ai)\<rparr>) (Bsp_Loop (Suc i) (Suc ai))"
    by (auto simp: started_below_def config_for_def given_defs)
  with reply show ?case by (intro smp_inv_same [OF reply(3)]) simp_all
next
  case (finish s i ai t)
  note same = smp_request_more [OF free_op.op_frame(5) [OF finish(3)]]
  have "\<not> unsettled (aps s j)" for j using finish(1,5) by (simp add: settled_unsettled)
  then have "smp_phase env (t\<lparr>bsp := Bsp_Done\<rparr>) Bsp_Done" using same by simp
  with same show ?case by (intro smp_inv_same [OF finish(4)]) simp_all
next
  case (wake s i ai waits t)
  then have p: "smp_phase env s (Bsp_Loop i ai)"
    and h: "\<And>j. holds (given_l4 s) (given_stack s j) (given_context s j) (env_scheduler_entry env) (aps s j)"
    by (simp_all add: smp_inv_def)
  have off: "\<not> unsettled (aps s j)" for j using wake(1,6) by (simp add: settled_unsettled)
  note same = smp_wake_more [OF wake(4)]
  let ?t = "t\<lparr>bsp := Bsp_Awake i ai, aps := (aps t)(i := Ap_Started)\<rparr>"
  have below: "started_below j ?t = started_below j s" if "j \<le> i" for j
    using that same by (intro started_below_cong) auto
  have "holds (given_l4 ?t) (given_stack ?t j) (given_context ?t j) (env_scheduler_entry env) (aps ?t j)" for j
  proof (cases "j < i")
    case True
    then show ?thesis using h [of j] same below [of j] by (simp add: given_defs)
  next
    case False
    then have "aps s j = Ap_Off" using p by simp
    then show ?thesis using same by simp
  qed
  moreover have "smp_phase env ?t (Bsp_Awake i ai)"
    using p same off below [of i] wake(2) by (simp add: trampoline_data_def)
  ultimately show ?case by (simp add: smp_inv_def)
next
  case (configure s i ai t)
  then have p: "smp_phase env s (Bsp_Awake i ai)"
    and h: "\<And>j. holds (given_l4 s) (given_stack s j) (given_context s j) (env_scheduler_entry env) (aps s j)"
    by (simp_all add: smp_inv_def)
  then have i: "i < length (processors (smp_info s))" "ai = started_below i s" "aps s i = Ap_Spin" using configure(2) by auto
  note same = smp_configure_result [OF configure(3) i(1,2)]
  note given = given_same [OF same(1-3)]
  have "holds (given_l4 t) (given_stack t j) (given_context t j) (env_scheduler_entry env) (aps t j)" for j
    using h [of j] same(1) same(5) [of j] i(3) by (cases "j = i") (simp_all add: given)
  moreover have "smp_phase env t (Bsp_Reply i ai)" using p i same by (auto simp: given)
  ultimately show ?case by (simp add: smp_inv_def config_for_def given_defs started_below_def)
qed

lemma smp_begin_inv:
  assumes "smp_begin env s0 = Some s" and "\<forall>j. aps s0 j = Ap_Off"
  shows "smp_inv env s"
proof -
  have "aps s = aps s0" "bsp s = Bsp_Loop 0 0"
    using assms(1) by (auto simp: smp_begin_def Let_def smp_request_more [OF pageframe_request_pages_more] split: Option.bind_splits)
  then show ?thesis using assms(2) by (simp add: smp_inv_def started_below_def)
qed

lemma smp_reach_inv:
  "smp_reach settled env s0 s \<Longrightarrow> \<forall>j. aps s0 j = Ap_Off \<Longrightarrow> smp_inv env s"
proof (induction rule: smp_reach.induct)
  case (by_ap s i t)
  then show ?case using ap_step_moved ap_moved_inv by blast
qed (blast intro: smp_begin_inv bsp_step_inv)+

end
