(* ===== verification/Smp_Props.thy ===== *)
theory Smp_Props
  imports Smp_Correct
begin

text \<open>The properties of the start of the processors, and runs of the system with three processors.\<close>

section \<open>Three processors\<close>

definition three_env :: smp_env where
  "three_env = \<lparr>env_trampoline_code = 0x30000, env_cpu_init_ap = 0x31000, env_scheduler_entry = 0x32000, env_bsp = 0x6000,
     env_shared_idt = 0x7000, env_isr = of_nat,
     env_framebuffer = \<lparr>fb_base = 0, fb_width = 0, fb_height = 0, fb_pitch = 0, fb_bpp = 32\<rparr>,
     env_cpuid = (\<lambda>i a c. (0, push_bit 24 (of_nat i), 0, 0)), env_ecx = (\<lambda>_. 0)\<rparr>"

definition three_smp :: smp_state where
  "three_smp = \<lparr>mem = (\<lambda>_. 0)(0x2000B := 1, 0x20013 := 2), ports = [], s_memory_total_size = 0x10000, s_memory_used_size = 0,
     s_memory_reserved_size = 0, s_pageframemap = \<lparr>bm_buffer = 0x1000, bm_size = 2\<rparr>, s_current_index = 7, s_mutex = 0,
     s_pagetable_l4 = 0x2000, s_shared_idt = \<lparr>idt_descriptor = \<lparr>idt_limit = 0, idt_base = 0\<rparr>, idt = []\<rparr>,
     s_idt_initialized = False,
     smp_info = \<lparr>local_apic_ptr = 0xFEE00000,
       processors = map (\<lambda>a. \<lparr>local_processor = a, ap_stack_ptr = 0, ap_stack_size = 0\<rparr>) [0x20000, 0x20008, 0x20010],
       ioapics = [], isos = [], nmis = []\<rparr>,
     communicator = trampoline_data, bsp_local_apic_id = 0, ap_contexts = 0, ap_context_pages = 0, bsp = Bsp_Done,
     aps = (\<lambda>_. Ap_Off)\<rparr>"

text \<open>What the run needs of the states it passes: the identifiers of the processors and an allocator that is not locked.\<close>

definition three :: "smp_state \<Rightarrow> bool" where
  "three s \<longleftrightarrow> pf_idle s \<and> s_pageframemap s = \<lparr>bm_buffer = 0x1000, bm_size = 2\<rparr> \<and> bsp_local_apic_id s = 0
     \<and> local_apic_ptr (smp_info s) = 0xFEE00000 \<and> map local_processor (processors (smp_info s)) = [0x20000, 0x20008, 0x20010]
     \<and> mem s 0x20003 = 0 \<and> mem s 0x2000B = 1 \<and> mem s 0x20013 = 2"

lemma three_ids:
  assumes "three s"
  shows "length (processors (smp_info s)) = 3" "apic_id 0 s = 0" "apic_id 1 s = 1" "apic_id 2 s = 2"
proof -
  obtain a b c where "processors (smp_info s) = [a, b, c]" "local_processor a = 0x20000" "local_processor b = 0x20008"
    "local_processor c = 0x20010"
    using assms by (auto simp: three_def map_eq_Cons_conv)
  with assms show "length (processors (smp_info s)) = 3" "apic_id 0 s = 0" "apic_id 1 s = 1" "apic_id 2 s = 2"
    by (simp_all add: three_def get_MADTLocalProcessor_def)
qed

lemma three_request:
  assumes "three s" and "n < 2 ^ 63"
  shows "\<exists>p t. pageframe_request_pages n s = Some (p, t) \<and> three t \<and> pageframe_state.more t = pageframe_state.more s"
proof -
  have s: "pf_wf s" "pf_idle s" "frames s = 16" "bm_buffer (s_pageframemap s) = 0x1000"
    using assms(1) by (simp_all add: three_def pf_wf_def bitmap_adjusted_size_def BITMAP_SCALE_def)
  have far: "x \<noteq> byte_address (s_pageframemap s) i" if "i \<le> frames s" "16 < x - 0x1000" for x i
  proof
    assume "x = byte_address (s_pageframemap s) i"
    then have "x - 0x1000 = i div 8" by (simp add: byte_address_def s BITMAP_SCALE_def)
    moreover have "unat (i div 8) \<le> unat i" by (simp add: unat_div)
    ultimately show False using that s(3) by (simp add: word_le_nat_alt word_less_nat_alt)
  qed
  obtain p t where t: "pageframe_request_pages n s = Some (p, t)" "s_pageframemap t = s_pageframemap s" "s_mutex t = s_mutex s"
    "\<And>x. 16 < x - 0x1000 \<Longrightarrow> mem t x = mem s x"
    using s(1,2) assms(2)
  proof (cases rule: pageframe_request_pages_cases)
    case (block k t)
    then show ?thesis using that far
      by (simp add: lock_body.map_loop lock_body.mutex_loop lock_body.mem_loop_frame)
  qed simp
  moreover have more: "pageframe_state.more t = pageframe_state.more s" by (rule pageframe_request_pages_more [OF t(1)])
  moreover have "three t"
    using assms(1) t smp_more [of t s] cpu_state_more [OF more] by (simp add: three_def pf_idle_def)
  ultimately show ?thesis by blast
qed

lemma three_wait: "local_apic_wait (\<lambda>_. 0) n = Some 0"
  by (simp add: local_apic_wait.simps)

lemma store32_far: "4 \<le> b - a \<Longrightarrow> store32 m a v b = m b"
  unfolding store32_def
proof (rule store_bytes_other)
  fix k :: nat assume "4 \<le> b - a" "k < 4"
  then show "b \<noteq> a + of_nat k" by (auto simp: word_le_nat_alt unat_of_nat)
qed

lemma three_wake:
  assumes "three s"
  shows "\<exists>t. smp_wake code (\<lambda>_ _. 0) k s = Some t \<and> three t \<and> communicator t = trampoline_data \<and> aps t = aps s
    \<and> s_pagetable_l4 t = s_pagetable_l4 s"
proof -
  let ?t = "the (smp_wake code (\<lambda>_ _. 0) k s)"
  have t: "smp_wake code (\<lambda>_ _. 0) k s = Some ?t"
    by (simp add: smp_wake_def startup_ipi_def Let_def split_beta three_wait)
  have mem: "mem ?t x = mem s x" if "x \<in> {0x20003, 0x2000B, 0x20013}" for x
    using that assms by (auto simp: three_def smp_wake_def startup_ipi_def Let_def split_beta three_wait local_apic_set_register_def
      local_apic_ipi_set_command_def store32_far memcpy_def in_region_def LOCAL_APIC_TRAMPOLINE_TARGET_def
      LOCAL_APIC_TRAMPOLINE_TARGET_SIZE_def)
  have "s_mutex ?t = s_mutex s" "s_pageframemap ?t = s_pageframemap s"
    by (simp_all add: smp_wake_def startup_ipi_def Let_def split_beta three_wait local_apic_set_register_def local_apic_ipi_set_command_def)
  then have "three ?t" using assms mem smp_wake_more [OF t] by (simp add: three_def pf_idle_def)
  then show ?thesis using t smp_wake_more [OF t] by blast
qed

section \<open>Runs\<close>

lemma three_begin:
  "\<exists>s. smp_reach timing three_env three_smp s \<and> three s \<and> bsp s = Bsp_Loop 0 0 \<and> aps s = (\<lambda>_. Ap_Off)"
proof -
  have three: "three three_smp"
    by (simp add: three_def three_smp_def pf_idle_def)
  have small: "NEAREST_PAGE (cpu_context_size * 2) < 2 ^ 63" by code_simp
  obtain p t where t: "pageframe_request_pages (NEAREST_PAGE (cpu_context_size * 2)) three_smp = Some (p, t)" "three t"
    "pageframe_state.more t = pageframe_state.more three_smp" using three_request [OF three small] by blast
  have id: "mem three_smp (env_bsp three_env) = 0" by (simp add: three_smp_def three_env_def)
  have "length (processors (smp_info three_smp)) = 3" by (simp add: three_smp_def)
  then have "smp_begin three_env three_smp = Some (t\<lparr>bsp_local_apic_id := 0, ap_contexts := p,
      ap_context_pages := NEAREST_PAGE (cpu_context_size * 2), bsp := Bsp_Loop 0 0\<rparr>)" (is "_ = Some ?s")
    by (simp add: smp_begin_def t(1) get_CPUContext_def id)
  moreover have "three ?s" using t(2) by (simp add: three_def pf_idle_def)
  moreover have "aps ?s = (\<lambda>_. Ap_Off)" using smp_request_more [OF t(3)] by (simp add: three_smp_def)
  ultimately show ?thesis by (intro exI [of _ ?s]) (simp add: smp_reach.start)
qed

lemma three_configure:
  assumes "three s" and i: "i < length (processors (smp_info s))"
  shows "\<exists>t. smp_configure env i ai s = Some t \<and> three t \<and> aps t = aps s \<and> bsp_status (communicator t) = 1
    \<and> ap_status (communicator t) = ap_status (communicator s)"
proof -
  have "LOCAL_APIC_AP_STACK_PAGES < 2 ^ 63" by (simp add: LOCAL_APIC_AP_STACK_PAGES_def)
  with three_request [OF assms(1)] obtain p u where u: "pageframe_request_pages LOCAL_APIC_AP_STACK_PAGES s = Some (p, u)" "three u"
    "pageframe_state.more u = pageframe_state.more s" by blast
  note same = smp_request_more [OF u(3)]
  then have "map local_processor ((processors (smp_info u))[i := (processors (smp_info u) ! i)\<lparr>ap_stack_ptr := x, ap_stack_size := y\<rparr>])
      = map local_processor (processors (smp_info u))" for x y
    using i by (simp add: map_update list_update_same_conv)
  then show ?thesis using u(2) same
    by (simp add: smp_configure_def Let_def u(1) set_processor_def three_def pf_idle_def)
qed

text \<open>The BSP starts processor \<open>i\<close>, and the processor announces itself.\<close>

lemma three_start:
  assumes reach: "smp_reach timing three_env three_smp s" and s: "three s" "bsp s = Bsp_Loop i ai" "timing s" and i: "i \<in> {1, 2}"
  shows "\<exists>t. smp_reach timing three_env three_smp t \<and> three t \<and> bsp t = Bsp_Reply i ai \<and> aps t = (aps s)(i := Ap_Spin)
    \<and> bsp_status (communicator t) = 1 \<and> ap_status (communicator t) = 1"
proof -
  have id: "i < length (processors (smp_info s))" "apic_id i s \<noteq> bsp_local_apic_id s"
    using i three_ids [OF s(1)] s(1) by (auto simp: three_def)
  obtain w where w: "smp_wake (env_trampoline_code three_env) (\<lambda>_ _. 0) (apic_id i s) s = Some w" "three w"
    "communicator w = trampoline_data" "aps w = aps s" using three_wake [OF s(1)] by blast
  let ?w = "w\<lparr>bsp := Bsp_Awake i ai, aps := (aps w)(i := Ap_Started)\<rparr>"
  let ?v = "set_ap i Ap_Spin (?w\<lparr>communicator := (communicator ?w)\<lparr>ap_status := 1\<rparr>\<rparr>)"
  have "smp_reach timing three_env three_smp ?w"
    using s(3) by (intro smp_reach.by_bsp [OF reach] bsp_step.wake [OF s(2) id w(1)])
  then have v: "smp_reach timing three_env three_smp ?v" by (rule smp_reach.by_ap) (rule ap_step.awake, simp)
  have "three ?v" "i < length (processors (smp_info ?v))"
    using w(2) three_ids(1) [OF w(2)] i by (auto simp: three_def pf_idle_def)
  then obtain t where t: "smp_configure three_env i ai ?v = Some t" "three t" "aps t = aps ?v"
    "bsp_status (communicator t) = 1" "ap_status (communicator t) = ap_status (communicator ?v)"
    using three_configure by blast
  have "smp_reach timing three_env three_smp (t\<lparr>bsp := Bsp_Reply i ai\<rparr>)"
    by (rule smp_reach.by_bsp [OF v _ bsp_step.configure [OF _ _ t(1)]]) simp_all
  then show ?thesis using t w(4)
    by (intro exI [of _ "t\<lparr>bsp := Bsp_Reply i ai\<rparr>"]) (simp add: three_def pf_idle_def)
qed

lemma run_protected:
  assumes "smp_reach timing env s0 s" and "aps s j = Ap_Spin" and "bsp_status (communicator s) \<noteq> 0"
  shows "smp_reach timing env s0 (set_ap j Ap_Protected (s\<lparr>communicator := (communicator s)\<lparr>ap_status := 0\<rparr>\<rparr>))"
proof -
  have "smp_reach timing env s0 (set_ap j Ap_Continue s)"
    by (rule smp_reach.by_ap [OF assms(1) ap_step.go_ahead [OF assms(2,3)]])
  from smp_reach.by_ap [OF this ap_step.reset_status, of j] show ?thesis by simp
qed

lemma run_reads:
  assumes "smp_reach timing env s0 s" and "aps s j = Ap_Protected"
  shows "smp_reach timing env s0 (set_ap j (Ap_Init (com_pagetable_l4 (communicator s)) (com_stack_ptr (communicator s))
    (com_ap_context (communicator s)) (com_stack_ptr (communicator s))) s)"
proof -
  let ?l4 = "com_pagetable_l4 (communicator s)" and ?sp = "com_stack_ptr (communicator s)" and ?c = "com_ap_context (communicator s)"
  note step = smp_reach.by_ap [where timing = timing and env = env and ?s0.0 = s0 and i = j]
  have "smp_reach timing env s0 (set_ap j (Ap_Long ?l4) s)" by (rule step [OF assms(1) ap_step.pagetable [OF assms(2)]])
  from step [OF this ap_step.get_stack] have "smp_reach timing env s0 (set_ap j (Ap_Stack ?l4 ?sp) s)" by simp
  from step [OF this ap_step.get_context] have "smp_reach timing env s0 (set_ap j (Ap_Context ?l4 ?sp ?c) s)" by simp
  from step [OF this ap_step.get_argument] show ?thesis by simp
qed

text \<open>The first processor is configured while no other has been started.\<close>

lemma three_first:
  assumes "\<And>s. aps s = (\<lambda>_. Ap_Off) \<Longrightarrow> timing s"
  shows "\<exists>t. smp_reach timing three_env three_smp t \<and> three t \<and> bsp t = Bsp_Reply 1 0 \<and> aps t = (\<lambda>_. Ap_Off)(1 := Ap_Spin)
    \<and> bsp_status (communicator t) = 1 \<and> ap_status (communicator t) = 1"
proof -
  obtain s where s: "smp_reach timing three_env three_smp s" "three s" "bsp s = Bsp_Loop 0 0" "aps s = (\<lambda>_. Ap_Off)"
    using three_begin by blast
  have "bsp_step three_env s (s\<lparr>bsp := Bsp_Loop (Suc 0) 0\<rparr>)"
    using s(2) three_ids [OF s(2)] by (intro bsp_step.skip [OF s(3)]) (simp_all add: three_def)
  then have "smp_reach timing three_env three_smp (s\<lparr>bsp := Bsp_Loop (Suc 0) 0\<rparr>)"
    using assms s(4) by (intro smp_reach.by_bsp [OF s(1)])
  from three_start [OF this, of 1 0] show ?thesis using s(2,4) assms by (simp add: three_def pf_idle_def)
qed

section \<open>Properties\<close>








text \<open>
  C34. The sleeping is needed: the BSP takes the status with which a processor announced itself for its answer, so
  that it copies the trampoline again and gives the stack and the context of the next processor before the first has read its own.  With
  three processors a state is reached in which both application processors call \<open>cpu_init_ap\<close> with the same
  stack and the same context.
\<close>

theorem smp_processors_share_stack:
  "\<exists>s l4 sp c. smp_reach (\<lambda>_. True) three_env three_smp s \<and> aps s 1 = Ap_Init l4 sp c sp \<and> aps s 2 = Ap_Init l4 sp c sp"
proof -
  let ?R = "smp_reach (\<lambda>_. True) three_env three_smp"
  obtain t where t: "?R t" "three t" "bsp t = Bsp_Reply 1 0" "aps t = (\<lambda>_. Ap_Off)(1 := Ap_Spin)"
    "bsp_status (communicator t) = 1" "ap_status (communicator t) = 1" using three_first [of "\<lambda>_. True"] by blast
  have "?R (t\<lparr>bsp := Bsp_Loop (Suc 1) (Suc 0)\<rparr>)"
    using t by (intro smp_reach.by_bsp [OF t(1)] bsp_step.reply) simp_all
  from three_start [OF this, of 2 1] obtain u where u: "?R u" "aps u = (\<lambda>_. Ap_Off)(1 := Ap_Spin, 2 := Ap_Spin)"
    "bsp_status (communicator u) = 1" using t(2,4) by (auto simp: three_def pf_idle_def)
  let ?com = "(communicator u)\<lparr>ap_status := 0\<rparr>"
  let ?p = "Ap_Init (com_pagetable_l4 ?com) (com_stack_ptr ?com) (com_ap_context ?com) (com_stack_ptr ?com)"
  let ?s = "set_ap 2 ?p (set_ap 1 ?p (set_ap 2 Ap_Protected (set_ap 1 Ap_Protected (u\<lparr>communicator := ?com\<rparr>))))"
  have "?R (set_ap 1 Ap_Protected (u\<lparr>communicator := ?com\<rparr>))" by (rule run_protected [OF u(1)]) (simp_all add: u)
  from run_protected [OF this, of 2]
  have "?R (set_ap 2 Ap_Protected (set_ap 1 Ap_Protected (u\<lparr>communicator := ?com\<rparr>)))" by (simp add: u)
  from run_reads [OF this, of 1] have "?R (set_ap 1 ?p (set_ap 2 Ap_Protected (set_ap 1 Ap_Protected (u\<lparr>communicator := ?com\<rparr>))))"
    by simp
  from run_reads [OF this, of 2] have "?R ?s" by simp
  moreover have "aps ?s 1 = ?p" "aps ?s 2 = ?p" by simp_all
  ultimately show ?thesis by blast
qed

end
