(* ===== verification/Spec2Isabelle.thy ===== *)
theory Spec2Isabelle
  imports Atomic Bitmap Pageframe_Props Paging_Props Descriptors Io Madt_Props Ioapic Pci Scheduler_Props Symbol_Props Cpuid Musl_String_Props Stivale2_Props Process_Props Sys_Props Cpu_Props Smp_Props
begin

text \<open>
  Verification of VisualOS, a kernel in C for x86-64 (\<^verbatim>\<open>src/src/kernel\<close>), and of the string functions of the
  C library it is linked with (\<^verbatim>\<open>src/src/libraries/musl/src/string\<close>).

  \<^bold>\<open>The program.\<close>  The boot loader passes a list of tags (\<^verbatim>\<open>stivale2.c\<close>), from which the kernel takes the memory
  map, the framebuffer, its own file and the modules (\<^verbatim>\<open>bootloader.c\<close>).  From the memory map it builds the allocator
  of physical frames (\<^verbatim>\<open>memory/pageframe.c\<close>), a bitmap (\<^verbatim>\<open>memory/bitmap.c\<close>) under bit locks (\<^verbatim>\<open>x86_64/atomic.asm\<close>), and on it
  the page tables (\<^verbatim>\<open>memory/paging.c\<close>).  Each processor gets descriptor tables and stacks (\<^verbatim>\<open>x86_64/gdt.c\<close>, \<^verbatim>\<open>idt.c\<close>,
  \<^verbatim>\<open>isr.c\<close>, \<^verbatim>\<open>cpu.c\<close>).  The tables of the firmware (\<^verbatim>\<open>acpi.c\<close>, \<^verbatim>\<open>apic/madt.c\<close>) name the interrupt controllers
  (\<^verbatim>\<open>apic/local_apic.c\<close>, \<^verbatim>\<open>apic/ioapic.c\<close>), whose registers are mapped with the page tables, and the other processors,
  which the first one starts.  Tasks wait in queues of nodes in a ring (\<^verbatim>\<open>scheduler/scheduler.c\<close>); a process
  (\<^verbatim>\<open>scheduler/process.c\<close>) has page tables of its own and a first thread.  The symbols of the kernel's file
  (\<^verbatim>\<open>symbols/symbol.c\<close>) name the addresses of a stack trace.  System calls (\<^verbatim>\<open>sys/\<close>) write to the serial port or to the
  screen (\<^verbatim>\<open>shell/\<close>).

  \<^bold>\<open>The model.\<close>  An integer of C is a word of its width and wraps as it does there; where the source multiplies
  values of type \<open>int\<close> or stores into a narrower variable, the conversion is written out.  Memory is a function from addresses to bytes
  (\<open>Machine\<close>), defined everywhere, so that an access behind a buffer is visible; a packed structure is a record
  with the function that reads it from memory.  The static variables of a file are a record that
  extends that of the file it depends on: \<open>machine\<close> (memory and the history of the ports), \<open>pageframe_state\<close>, \<open>paging_state\<close>,
  and on it \<open>madt_state\<close>, then \<open>scheduler_state\<close> and \<open>process_state\<close>; also on it \<open>text_state\<close> and \<open>cpu_state\<close>, which
  \<open>smp_state\<close> extends.  An operation takes a state and returns the next one; functions that do not touch a part of the
  state are polymorphic in it.  An operation that can fail to return has an optional result: \<open>None\<close> is a
  loop that never ends, a lock that is never released, or an access outside an array of the kernel.  A loop over a range is the combinator
  \<open>word_for\<close> of \<open>Prelude\<close>, which includes the case that the end of the range wraps; a loop with another
  condition is a function with a measure, or a \<open>partial_function\<close> where it need not end.  No definition uses fuel.
  The nodes of the scheduler and the processes are objects in a map from addresses, because their links are what matters.
  Linker symbols, the \<open>cpuid\<close> instruction, the answers of devices, and \<open>malloc\<close> and \<open>tolower\<close> for the string functions are parameters.

  \<^bold>\<open>Theories and what they show.\<close>

  \<^item> \<open>Prelude\<close>, \<open>Kernel_Macros\<close>, \<open>Machine\<close>: loops over words, the macros of \<^verbatim>\<open>kernel.h\<close> and \<^verbatim>\<open>memory.h\<close>, memory with its loads and stores,
    and when they do not interfere.

  \<^item> \<open>Atomic\<close>: the routines of \<^verbatim>\<open>atomic.asm\<close> and the interface \<open>bit_lock\<close>; a transition system of processors that acquire and release
    bits of a shared word.  With one bit in use there is mutual exclusion (C3); with two, the release, which is not
    atomic, can lose a lock that another processor takes (C35).

  \<^item> \<open>Bitmap\<close>: the interface \<open>bit_array\<close> of reading after writing (C33), and the index behind the last bit that passes the range
    check.

  \<^item> \<open>Pageframe\<close>, \<open>Pageframe_Blocks\<close>, \<open>Pageframe_Alloc\<close>, \<open>Pageframe_Props\<close>: the allocator.  The interface \<open>frame_update\<close> is a
    loop body that sets the bit of one frame, \<open>range_operation\<close> the loop under its lock; lock, free, reserve and unreserve
    are instances and refine union and difference of sets of frames (C18).  Single and block requests return the least free
    frame or block (C4, C19) and different frames each time (C17); a request fails exactly when all frames are used (C6),
    which block requests break (C39, C40); the map after the initialisation (C21).

  \<^item> \<open>Frame_Allocator\<close>, \<open>Page_Walk\<close>, \<open>Paging\<close>, \<open>Paging_Correct\<close>, \<open>Paging_Attributes\<close>, \<open>Registers\<close>, \<open>Paging_Props\<close>: \<open>walk\<close> is the
    translation the processor performs and specifies the page tables; \<open>frame_allocator\<close> is the interface that they need
    of the allocator, with \<open>Pageframe_Alloc\<close> as its instance.  Mapping a page or a range updates the translation there and
    nowhere else (C1, C14, C23); attributes and cache policies change flags only (C22, C24).

  \<^item> \<open>Descriptors\<close>, \<open>Io\<close>, \<open>Acpi\<close>, \<open>Madt\<close>, \<open>Madt_Correct\<close>, \<open>Madt_Props\<close>, \<open>Local_Apic\<close>, \<open>Ioapic\<close>, \<open>Pci\<close>, \<open>Pci_Id\<close>, \<open>Cpuid\<close>: gates and segments (C27, C28), the search of a table
    (C30), what \<open>madt_init\<close> collects and when it does not return (C7, C36), the timer (C31), the registers of the I/O controller (C26).

  \<^item> \<open>Cpu\<close>, \<open>Cpu_Correct\<close>, \<open>Cpu_Props\<close>: \<open>cpu_init\<close> with everything it allocates and writes (C11).

  \<^item> \<open>Smp\<close>, \<open>Smp_Correct\<close>, \<open>Smp_Props\<close>: the start of the other processors as a transition system of
    \<open>local_apic_start_smp\<close> and the trampoline.  If the first processor waits long enough, every other one gets its own stack and context
    (C12); the handshake itself does not ensure this (C34).

  \<^item> \<open>Ring\<close>, \<open>Scheduler\<close>, \<open>Scheduler_Correct\<close>, \<open>Scheduler_Props\<close>: the queues refine lists of tasks (C2, C25); no two processors run the
    same task in any interleaving (C5); tasks of a queue run in turn (C13).

  \<^item> \<open>Process\<close>, \<open>Process_Props\<close>: creating a process, and the frames its tasks start from (C10, C29).

  \<^item> \<open>Elf\<close>, \<open>Symbol\<close>, \<open>Symbol_Props\<close>: the sorted map of symbols and the search in it (C8, C16, C37).

  \<^item> \<open>Musl_String\<close>, \<open>Musl_String_Props\<close>: the functions that read a word at a time agree with their definition by bytes (C9);
    \<open>strcat\<close> (C20).

  \<^item> \<open>Framebuffer\<close>, \<open>Bootloader\<close>, \<open>Stivale2\<close>, \<open>Stivale2_Props\<close>, \<open>Text\<close>, \<open>Sys\<close>, \<open>Sys_Props\<close>: the information of the boot loader (C15), text
    output and system calls (C32, C38).

  \<^bold>\<open>Assumptions and bounds.\<close>  The page tables are assumed to be a tree on frames that are in use (\<open>paging_tree\<close>), which the
  operations keep; physical memory has less than \<open>2 ^ 52\<close> bytes, the width of a physical address.  Each bound in a
  statement, such as \<open>2 ^ 19\<close> pages for \<open>paging_map\<close>, is the one from which on the arithmetic of the source wraps.  An operation of the
  scheduler or of the allocator is one step of its transition system; the locks that justify this are
  modelled in \<open>Atomic\<close>, and the weakness shown there (C35) applies to the words that hold more than one lock.

  \<^bold>\<open>Not modelled.\<close>  Assembly that only moves between the registers of the processor and memory, since the model has no
  registers: the entries of interrupts and system calls, the switch of tasks, \<open>cpu_enable_features\<close>, the loading of control registers, the
  segments of the trampoline.  Formatted output: it is \<open>vfprintf\<close> of the C library with variable arguments, and no
  other operation depends on the messages.  The rest of the functions of \<^verbatim>\<open>setup.c\<close>, which call modelled
  functions one after the other and print.  The heap (Doug Lea's \<open>malloc\<close>) and the parts of the C library beyond
  strings, which are third party packages the modelled code does not call.  Caching of translations and of memory, and the
  order in which other processors see stores.
\<close>

end
